(* ===== verification/Prelude.thy ===== *)
theory Prelude
  imports Main "HOL-Library.Word" "HOL-Library.Signed_Division" "HOL-Library.Multiset"
begin

text \<open>
  What every component of the monitor shares: Go's fixed-width integers, its errors as values,
  results that are a value, an error or a panic, effectful calls as state passing, and the
  order in which a Go map is ranged over.
\<close>

section \<open>Collections of simplification rules\<close>

named_theorems res_simps \<open>inversion rules for results, errors and effectful calls\<close>
named_theorems int_simps \<open>fixed-width integers that are in range\<close>

section \<open>Integers\<close>

text \<open>
  A Go \<open>int64\<close> (and \<open>int\<close>, on the 64-bit platforms the monitor is built for) is an
  \<open>int\<close> between \<open>-2^63\<close> and \<open>2^63 - 1\<close>; arithmetic that may leave that range is wrapped by
  \<open>i64\<close>, a conversion to \<open>uint64\<close> or \<open>uint8\<close> by \<open>u64\<close> or \<open>u8\<close>. The three agree with the
  words of the library. Division and remainder are Go's: \<open>sdiv\<close> and \<open>smod\<close> truncate
  towards zero.
\<close>

type_synonym int64 = int

definition i64 :: "int \<Rightarrow> int64" where
  "i64 x = (x + 9223372036854775808) mod 18446744073709551616 - 9223372036854775808"

definition u64 :: "int \<Rightarrow> int" where
  "u64 x = x mod 18446744073709551616"

definition u8 :: "int \<Rightarrow> int" where
  "u8 x = x mod 256"

definition int64_range :: "int \<Rightarrow> bool" where
  "int64_range x \<longleftrightarrow> - 9223372036854775808 \<le> x \<and> x < 9223372036854775808"

lemma i64_word: "i64 x = sint (word_of_int x :: 64 word)"
  by (simp add: i64_def sint_word_ariths signed_take_bit_eq_take_bit_shift take_bit_eq_mod
      signed_of_int algebra_simps)

lemma u64_word: "u64 x = uint (word_of_int x :: 64 word)"
  by (simp add: u64_def uint_word_of_int)

lemma u8_word: "u8 x = uint (word_of_int x :: 8 word)"
  by (simp add: u8_def uint_word_of_int)

lemma i64_id [int_simps]: "int64_range x \<Longrightarrow> i64 x = x"
  by (simp add: i64_def int64_range_def)

lemma i64_range [simp]: "int64_range (i64 x)"
proof -
  have "0 \<le> (x + 9223372036854775808) mod 18446744073709551616"
    by simp
  moreover have "(x + 9223372036854775808) mod 18446744073709551616 < 18446744073709551616"
    by simp
  ultimately show ?thesis
    unfolding i64_def int64_range_def by linarith
qed

lemma u8_id [int_simps]: "0 \<le> x \<Longrightarrow> x < 256 \<Longrightarrow> u8 x = x"
  by (simp add: u8_def)

lemma u64_id [int_simps]: "0 \<le> x \<Longrightarrow> x < 18446744073709551616 \<Longrightarrow> u64 x = x"
  by (simp add: u64_def)

lemma sdiv_nonneg [int_simps]: "0 \<le> (x::int) \<Longrightarrow> 0 < y \<Longrightarrow> x sdiv y = x div y"
  by (cases "x = 0") (simp_all add: signed_divide_int_def)

lemma smod_nonneg [int_simps]: "0 \<le> (x::int) \<Longrightarrow> 0 < y \<Longrightarrow> x smod y = x mod y"
  by (cases "x = 0") (simp_all add: signed_modulo_int_def)

section \<open>Errors\<close>

text \<open>
  A Go \<open>error\<close> value. \<open>Err\<close> is \<open>errors.New\<close> or an error that comes from code outside the
  repository, \<open>Errorf\<close> is \<open>fmt.Errorf("...: %w", err)\<close> (or \<open>%v\<close>) with the formatted prefix
  and the error it ends with, \<open>StatusErr\<close> is an error that has a \<open>StatusCode\<close> method,
  \<open>CtxErr\<close> is the \<open>ctx.Err()\<close> of a finished context, \<open>NumErr\<close> is a
  \<open>strconv.NumError\<close> (function, input, reason), and \<open>RetryErr\<close> is \<open>util.RetryError\<close> of
  \<open>pkg/util/retry.go\<close> with its \<open>Err\<close> field, \<open>None\<close> for nil.
\<close>

datatype go_error =
    Err string
  | Errorf string go_error
  | StatusErr int string
  | CtxErr string
  | NumErr string string string
  | RetryErr "go_error option"

definition DeadlineExceeded :: go_error where
  "DeadlineExceeded = CtxErr ''context deadline exceeded''"

text \<open>\<open>Error()\<close>: the text of an error. The text that \<open>fmt\<close> prints for the method call on a
  nil \<open>Err\<close> stands for the empty \<open>RetryError\<close>.\<close>

fun error_msg :: "go_error \<Rightarrow> string" where
  "error_msg (Err s) = s"
| "error_msg (Errorf p e) = p @ error_msg e"
| "error_msg (StatusErr c s) = s"
| "error_msg (CtxErr s) = s"
| "error_msg (NumErr f s r) = f @ '': parsing '' @ [CHR 0x22] @ s @ [CHR 0x22] @ '': '' @ r"
| "error_msg (RetryErr (Some e)) = error_msg e"
| "error_msg (RetryErr None) =
     ''%!v(PANIC=Error method: runtime error: invalid memory address or nil pointer dereference)''"

section \<open>Results\<close>

text \<open>
  The result of a Go call that returns \<open>(T, error)\<close>: a value, an error, or a panic, which no
  caller in the repository recovers from.
\<close>

datatype 'a res = Ok 'a | Fail go_error | Panic string

definition is_ok :: "'a res \<Rightarrow> bool" where
  "is_ok r = (case r of Ok _ \<Rightarrow> True | _ \<Rightarrow> False)"

fun rbind :: "'a res \<Rightarrow> ('a \<Rightarrow> 'b res) \<Rightarrow> 'b res" where
  "rbind (Ok x) f = f x"
| "rbind (Fail e) f = Fail e"
| "rbind (Panic s) f = Panic s"

text \<open>\<open>if err != nil { return fmt.Errorf("p%w", err) }\<close>\<close>

fun rwrap :: "string \<Rightarrow> 'a res \<Rightarrow> 'a res" where
  "rwrap p (Ok x) = Ok x"
| "rwrap p (Fail e) = Fail (Errorf p e)"
| "rwrap p (Panic s) = Panic s"

text \<open>\<open>if err != nil { h(err); continue }\<close>: the error is handled, a panic is not.\<close>

fun rcatch :: "'a res \<Rightarrow> (go_error \<Rightarrow> 'b res) \<Rightarrow> ('a \<Rightarrow> 'b res) \<Rightarrow> 'b res" where
  "rcatch (Ok x) h f = f x"
| "rcatch (Fail e) h f = h e"
| "rcatch (Panic s) h f = Panic s"

text \<open>A pointer is nil or an address with what it points to; reading through nil panics.\<close>

type_synonym 'a ptr = "(nat \<times> 'a) option"

definition nil_deref :: string where
  "nil_deref = ''runtime error: invalid memory address or nil pointer dereference''"

fun deref :: "'a ptr \<Rightarrow> 'a res" where
  "deref None = Panic nil_deref"
| "deref (Some (a, x)) = Ok x"

text \<open>A loop that appends to a slice and may return early: the results of \<open>f\<close> in order, or
  the first error or panic.\<close>

fun rmap :: "('a \<Rightarrow> 'b res) \<Rightarrow> 'a list \<Rightarrow> 'b list res" where
  "rmap f [] = Ok []"
| "rmap f (x # xs) = rbind (f x) (\<lambda>y. rbind (rmap f xs) (\<lambda>ys. Ok (y # ys)))"

definition rconcat :: "('a \<Rightarrow> 'b list res) \<Rightarrow> 'a list \<Rightarrow> 'b list res" where
  "rconcat f xs = rbind (rmap f xs) (\<lambda>ys. Ok (concat ys))"

text \<open>A validation loop: the first error, if any.\<close>

fun first_error :: "('a \<Rightarrow> go_error option) \<Rightarrow> 'a list \<Rightarrow> go_error option" where
  "first_error f [] = None"
| "first_error f (x # xs) = (case f x of Some e \<Rightarrow> Some e | None \<Rightarrow> first_error f xs)"

lemma is_ok_iff [res_simps]: "is_ok r \<longleftrightarrow> (\<exists>x. r = Ok x)"
  by (simp add: is_ok_def split: res.splits)

lemma rbind_Ok_iff [res_simps]: "rbind r f = Ok y \<longleftrightarrow> (\<exists>x. r = Ok x \<and> f x = Ok y)"
  by (cases r) auto

lemma rbind_Fail_iff [res_simps]:
  "rbind r f = Fail e \<longleftrightarrow> r = Fail e \<or> (\<exists>x. r = Ok x \<and> f x = Fail e)"
  by (cases r) auto

lemma rbind_Panic_iff [res_simps]:
  "rbind r f = Panic s \<longleftrightarrow> r = Panic s \<or> (\<exists>x. r = Ok x \<and> f x = Panic s)"
  by (cases r) auto

lemma rbind_assoc: "rbind (rbind r f) g = rbind r (\<lambda>x. rbind (f x) g)"
  by (cases r) auto

lemma rwrap_Ok_iff [res_simps]: "rwrap p r = Ok y \<longleftrightarrow> r = Ok y"
  by (cases r) auto

lemma rwrap_Fail_iff [res_simps]: "rwrap p r = Fail e \<longleftrightarrow> (\<exists>e'. r = Fail e' \<and> e = Errorf p e')"
  by (cases r) auto

lemma rwrap_Panic_iff [res_simps]: "rwrap p r = Panic s \<longleftrightarrow> r = Panic s"
  by (cases r) auto

lemma rcatch_Ok_iff [res_simps]:
  "rcatch r h f = Ok y \<longleftrightarrow> (\<exists>e. r = Fail e \<and> h e = Ok y) \<or> (\<exists>x. r = Ok x \<and> f x = Ok y)"
  by (cases r) auto

lemma rcatch_Panic_iff [res_simps]:
  "rcatch r h f = Panic s \<longleftrightarrow>
     r = Panic s \<or> (\<exists>e. r = Fail e \<and> h e = Panic s) \<or> (\<exists>x. r = Ok x \<and> f x = Panic s)"
  by (cases r) auto

lemma rcatch_Fail_iff [res_simps]:
  "rcatch r h f = Fail y \<longleftrightarrow> (\<exists>e. r = Fail e \<and> h e = Fail y) \<or> (\<exists>x. r = Ok x \<and> f x = Fail y)"
  by (cases r) auto

lemma deref_Ok_iff [res_simps]: "deref p = Ok x \<longleftrightarrow> (\<exists>a. p = Some (a, x))"
  by (cases p) auto

lemma deref_not_Fail [simp]: "deref p \<noteq> Fail e"
  by (cases p) auto

lemma rmap_Ok_iff [res_simps]: "rmap f xs = Ok ys \<longleftrightarrow> list_all2 (\<lambda>x y. f x = Ok y) xs ys"
  by (induction xs arbitrary: ys) (auto simp: res_simps list_all2_Cons1)

lemma rmap_pure: "(\<And>x. x \<in> set xs \<Longrightarrow> f x = Ok (g x)) \<Longrightarrow> rmap f xs = Ok (map g xs)"
  by (induction xs) auto

lemma rmap_map [simp]: "rmap f (map g xs) = rmap (\<lambda>x. f (g x)) xs"
  by (induction xs) auto

lemma rmap_append:
  "rmap f (xs @ ys) = rbind (rmap f xs) (\<lambda>us. rbind (rmap f ys) (\<lambda>vs. Ok (us @ vs)))"
  by (induction xs) (auto simp: rbind_assoc split: res.splits, (cases "rmap f ys"; simp))

lemma rmap_Fail: "rmap f xs = Fail e \<Longrightarrow> \<exists>x \<in> set xs. f x = Fail e"
  by (induction xs) (auto simp: res_simps)

lemma rmap_Panic: "rmap f xs = Panic s \<Longrightarrow> \<exists>x \<in> set xs. f x = Panic s"
  by (induction xs) (auto simp: res_simps)

lemma list_all2_Ok_set:
  "list_all2 (\<lambda>x y. f x = Ok y) xs ys \<Longrightarrow> y \<in> set ys \<longleftrightarrow> (\<exists>x \<in> set xs. f x = Ok y)"
  by (induction rule: list_all2_induct) auto

lemma rconcat_pure:
  "(\<And>x. x \<in> set xs \<Longrightarrow> f x = Ok (g x)) \<Longrightarrow> rconcat f xs = Ok (concat (map g xs))"
  by (simp add: rconcat_def rmap_pure)

lemma rconcat_Ok_set:
  "rconcat f xs = Ok ys \<Longrightarrow> y \<in> set ys \<longleftrightarrow> (\<exists>x \<in> set xs. \<exists>zs. f x = Ok zs \<and> y \<in> set zs)"
proof -
  assume "rconcat f xs = Ok ys"
  then obtain zss where z: "list_all2 (\<lambda>x zs. f x = Ok zs) xs zss" and ys: "ys = concat zss"
    by (auto simp: rconcat_def res_simps)
  from z have "y \<in> set (concat zss) \<longleftrightarrow> (\<exists>x \<in> set xs. \<exists>zs. f x = Ok zs \<and> y \<in> set zs)"
    by (induction rule: list_all2_induct) auto
  with ys show ?thesis by simp
qed

lemma rconcat_Ok_in:
  assumes "rconcat f xs = Ok ys" and "x \<in> set xs" and "f x = Ok zs"
  shows "set zs \<subseteq> set ys"
proof
  fix y
  assume "y \<in> set zs"
  with assms(2,3) show "y \<in> set ys"
    unfolding rconcat_Ok_set [OF assms(1)] by (intro bexI [of _ x] exI [of _ zs] conjI)
qed

lemma rconcat_Ok_each:
  assumes "rconcat f xs = Ok ys" and "x \<in> set xs"
  obtains zs where "f x = Ok zs" and "set zs \<subseteq> set ys"
proof -
  obtain zss where "list_all2 (\<lambda>x zs. f x = Ok zs) xs zss"
    using assms(1) by (auto simp: rconcat_def res_simps)
  with assms(2) obtain zs where "f x = Ok zs" by (auto simp: in_set_conv_nth list_all2_conv_all_nth)
  then show thesis by (rule that) (rule rconcat_Ok_in [OF assms \<open>f x = Ok zs\<close>])
qed

lemma rconcat_cong_Ok:
  assumes "\<And>x ys. x \<in> set xs \<Longrightarrow> f x = Ok ys \<longleftrightarrow> g x = Ok ys"
  shows "rconcat f xs = Ok zs \<longleftrightarrow> rconcat g xs = Ok zs"
proof -
  have "list_all2 (\<lambda>x ys. f x = Ok ys) xs yss \<longleftrightarrow> list_all2 (\<lambda>x ys. g x = Ok ys) xs yss" for yss
    using assms by (auto intro: list.rel_mono_strong)
  then show ?thesis by (simp add: rconcat_def res_simps)
qed

lemma rconcat_Fail: "rconcat f xs = Fail e \<Longrightarrow> \<exists>x \<in> set xs. f x = Fail e"
  by (auto simp: rconcat_def res_simps dest: rmap_Fail)

lemma rconcat2_Ok_set:
  assumes "rconcat (\<lambda>a. rconcat (g a) bs) as = Ok ms"
  shows "m \<in> set ms \<longleftrightarrow> (\<exists>a \<in> set as. \<exists>b \<in> set bs. \<exists>zs. g a b = Ok zs \<and> m \<in> set zs)"
proof
  assume "m \<in> set ms"
  then obtain a ys where a: "a \<in> set as" and ys: "rconcat (g a) bs = Ok ys" "m \<in> set ys"
    unfolding rconcat_Ok_set [OF assms] by (elim bexE exE conjE)
  from ys(2) show "\<exists>a \<in> set as. \<exists>b \<in> set bs. \<exists>zs. g a b = Ok zs \<and> m \<in> set zs"
    unfolding rconcat_Ok_set [OF ys(1)] by (rule bexI [OF _ a])
next
  assume "\<exists>a \<in> set as. \<exists>b \<in> set bs. \<exists>zs. g a b = Ok zs \<and> m \<in> set zs"
  then obtain a b zs where ab: "a \<in> set as" "b \<in> set bs" "g a b = Ok zs" "m \<in> set zs"
    by (elim bexE exE conjE)
  obtain ys where ys: "rconcat (g a) bs = Ok ys" "set ys \<subseteq> set ms"
    using rconcat_Ok_each [OF assms ab(1)] .
  from rconcat_Ok_in [OF ys(1) ab(2,3)] ys(2) ab(4) show "m \<in> set ms" by (meson subsetD)
qed

lemma first_error_None_iff [res_simps]:
  "first_error f xs = None \<longleftrightarrow> (\<forall>x \<in> set xs. f x = None)"
  by (induction xs) (auto split: option.splits)

lemma first_error_Some:
  "first_error f xs = Some e \<Longrightarrow> \<exists>x \<in> set xs. f x = Some e"
  by (induction xs) (auto split: option.splits)

section \<open>Effectful calls\<close>

text \<open>A call that reads and changes a state of type \<open>'w\<close>.\<close>

type_synonym ('w, 'a) io = "'w \<Rightarrow> 'a res \<times> 'w"

definition io_return :: "'a \<Rightarrow> ('w, 'a) io" where
  "io_return x = (\<lambda>w. (Ok x, w))"

definition io_fail :: "go_error \<Rightarrow> ('w, 'a) io" where
  "io_fail e = (\<lambda>w. (Fail e, w))"

definition io_res :: "'a res \<Rightarrow> ('w, 'a) io" where
  "io_res r = (\<lambda>w. (r, w))"

definition io_bind :: "('w, 'a) io \<Rightarrow> ('a \<Rightarrow> ('w, 'b) io) \<Rightarrow> ('w, 'b) io" where
  "io_bind m f = (\<lambda>w. case m w of
       (Ok x, w') \<Rightarrow> f x w'
     | (Fail e, w') \<Rightarrow> (Fail e, w')
     | (Panic s, w') \<Rightarrow> (Panic s, w'))"

definition io_wrap :: "string \<Rightarrow> ('w, 'a) io \<Rightarrow> ('w, 'a) io" where
  "io_wrap p m = (\<lambda>w. case m w of (r, w') \<Rightarrow> (rwrap p r, w'))"

text \<open>A call that only reads the state.\<close>

definition io_read :: "('w \<Rightarrow> 'a res) \<Rightarrow> ('w, 'a) io" where
  "io_read f = (\<lambda>w. (f w, w))"

text \<open>A loop that makes one call for each element and may return early.\<close>

fun io_each :: "('a \<Rightarrow> ('w, unit) io) \<Rightarrow> 'a list \<Rightarrow> ('w, unit) io" where
  "io_each f [] = io_return ()"
| "io_each f (x # xs) = io_bind (f x) (\<lambda>_. io_each f xs)"

text \<open>A loop that appends the results of its calls.\<close>

fun io_concat :: "('a \<Rightarrow> ('w, 'b list) io) \<Rightarrow> 'a list \<Rightarrow> ('w, 'b list) io" where
  "io_concat f [] = io_return []"
| "io_concat f (x # xs) = io_bind (f x) (\<lambda>ys. io_bind (io_concat f xs) (\<lambda>zs. io_return (ys @ zs)))"

lemma io_bind_Ok_iff [res_simps]:
  "io_bind m f w = (Ok y, w'') \<longleftrightarrow> (\<exists>x w'. m w = (Ok x, w') \<and> f x w' = (Ok y, w''))"
  by (auto simp: io_bind_def split: prod.splits res.splits)

lemma io_bind_Fail_iff [res_simps]:
  "io_bind m f w = (Fail e, w'') \<longleftrightarrow>
     m w = (Fail e, w'') \<or> (\<exists>x w'. m w = (Ok x, w') \<and> f x w' = (Fail e, w''))"
  by (auto simp: io_bind_def split: prod.splits res.splits)

lemma io_wrap_Ok_iff [res_simps]: "io_wrap p m w = (Ok y, w') \<longleftrightarrow> m w = (Ok y, w')"
  by (auto simp: io_wrap_def res_simps split: prod.splits)

lemma io_return_iff [res_simps]: "io_return x w = (r, w') \<longleftrightarrow> r = Ok x \<and> w' = w"
  by (auto simp: io_return_def)

lemma io_fail_iff [res_simps]: "io_fail e w = (r, w') \<longleftrightarrow> r = Fail e \<and> w' = w"
  by (auto simp: io_fail_def)

lemma io_res_iff [res_simps]: "io_res r0 w = (r, w') \<longleftrightarrow> r0 = r \<and> w' = w"
  by (auto simp: io_res_def)

lemma io_read_iff [res_simps]: "io_read f w = (r, w') \<longleftrightarrow> f w = r \<and> w' = w"
  by (auto simp: io_read_def)

lemma io_bind_run:
  "m w = (Ok x, w') \<Longrightarrow> io_bind m f w = f x w'"
  "m w = (Fail e, w') \<Longrightarrow> io_bind m f w = (Fail e, w')"
  "m w = (Panic s, w') \<Longrightarrow> io_bind m f w = (Panic s, w')"
  by (simp_all add: io_bind_def)

lemma io_wrap_apply: "io_wrap p m w = (rwrap p (fst (m w)), snd (m w))"
  by (simp add: io_wrap_def split_beta)

text \<open>A property of the state that every part of a call keeps is kept by the call.\<close>

definition keeps :: "('w \<Rightarrow> bool) \<Rightarrow> ('w, 'a) io \<Rightarrow> bool" where
  "keeps I m \<longleftrightarrow> (\<forall>w. I w \<longrightarrow> I (snd (m w)))"

lemma keeps_bind [intro]:
  assumes "keeps I m" and "\<And>x. keeps I (f x)"
  shows "keeps I (io_bind m f)"
  using assms by (simp add: keeps_def io_bind_def split_beta split: res.splits)

lemma keeps_simple [intro]:
  "keeps I (io_return x)" "keeps I (io_fail e)" "keeps I (io_res r)" "keeps I (io_read g)"
  by (auto simp: keeps_def io_return_def io_fail_def io_res_def io_read_def)

lemma keeps_wrap [intro]: "keeps I m \<Longrightarrow> keeps I (io_wrap p m)"
  by (simp add: keeps_def io_wrap_def split_beta)

lemma keeps_each [intro]: "(\<And>x. keeps I (f x)) \<Longrightarrow> keeps I (io_each f xs)"
  by (induction xs) auto

lemma keeps_concat [intro]: "(\<And>x. keeps I (f x)) \<Longrightarrow> keeps I (io_concat f xs)"
  by (induction xs) auto

lemma keeps_if: "(b \<Longrightarrow> keeps I m) \<Longrightarrow> (\<not> b \<Longrightarrow> keeps I n) \<Longrightarrow> keeps I (if b then m else n)"
  by simp

lemma keeps_option:
  "(p = None \<Longrightarrow> keeps I m) \<Longrightarrow> (\<And>x. p = Some x \<Longrightarrow> keeps I (f x)) \<Longrightarrow>
   keeps I (case p of None \<Rightarrow> m | Some x \<Rightarrow> f x)"
  by (cases p) simp_all

lemma keeps_prod: "(\<And>x y. keeps I (f x y)) \<Longrightarrow> keeps I (case p of (x, y) \<Rightarrow> f x y)"
  by (cases p) simp

lemma keeps_let: "(\<And>x. keeps I (f x)) \<Longrightarrow> keeps I (let x = a in f x)"
  by (simp add: Let_def)

lemmas keeps_intros =
  keeps_bind keeps_simple keeps_wrap keeps_each keeps_concat keeps_if keeps_option keeps_prod keeps_let

lemma io_concat_pure:
  "(\<And>x. x \<in> set xs \<Longrightarrow> f x w = (Ok (g x), w)) \<Longrightarrow> io_concat f xs w = (Ok (concat (map g xs)), w)"
  by (induction xs) (simp_all add: io_return_def io_bind_def)

lemma keepsD: "keeps I m \<Longrightarrow> I w \<Longrightarrow> m w = (r, w') \<Longrightarrow> I w'"
  by (metis keeps_def snd_conv)

section \<open>Ranging over a map\<close>

text \<open>
  Go ranges over a map in an unspecified order. A map is an association list with distinct
  keys, and a function \<open>ord\<close> that permutes it stands for the order of one run; theorems hold
  for every such function.
\<close>

definition range_order :: "('a list \<Rightarrow> 'a list) \<Rightarrow> bool" where
  "range_order ord \<longleftrightarrow> (\<forall>xs. mset (ord xs) = mset xs)"

lemma range_order_set: "range_order ord \<Longrightarrow> set (ord xs) = set xs"
  by (metis range_order_def set_mset_mset)

lemma range_order_length: "range_order ord \<Longrightarrow> length (ord xs) = length xs"
  by (metis range_order_def size_mset)

lemma range_order_distinct: "range_order ord \<Longrightarrow> distinct (ord xs) = distinct xs"
  by (metis mset_eq_imp_distinct_iff range_order_def)

lemma range_order_id: "range_order (\<lambda>xs. xs)"
  by (simp add: range_order_def)

lemma range_order_rev: "range_order rev"
  by (simp add: range_order_def)

end
