(* ===== verification/GoStrings.thy ===== *)
theory GoStrings
  imports Prelude "HOL-Library.Sublist"
begin

text \<open>
  The functions of Go's standard library on strings that the monitor calls: \<open>strings.Contains\<close>,
  \<open>strings.ReplaceAll\<close>, \<open>strings.Split\<close>, \<open>strings.Join\<close>, \<open>strings.TrimSpace\<close>,
  \<open>strconv.Itoa\<close>, \<open>strconv.Atoi\<close> and the line scanner of \<open>bufio\<close>. A Go string is its list of
  bytes. The lemmas are the round trips the components rest on.
\<close>

section \<open>Searching, replacing, splitting\<close>

definition str_contains :: "string \<Rightarrow> string \<Rightarrow> bool" where
  "str_contains s sub = sublist sub s"

text \<open>\<open>strings.ReplaceAll\<close> with a non-empty \<open>old\<close> (the repository never passes an empty one):
  the occurrences from left to right that do not overlap.\<close>

function replace_all :: "string \<Rightarrow> string \<Rightarrow> string \<Rightarrow> string" where
  "replace_all s old new =
     (if s = [] \<or> old = [] then s
      else if prefix old s then new @ replace_all (drop (length old) s) old new
      else hd s # replace_all (tl s) old new)"
  by pat_completeness auto
termination
  by (relation "measure (\<lambda>(s, old, new). length s)") auto

declare replace_all.simps [simp del]

text \<open>\<open>strings.Split\<close> at a one-byte separator.\<close>

fun split_on :: "char \<Rightarrow> string \<Rightarrow> string list" where
  "split_on c [] = [[]]"
| "split_on c (x # xs) =
     (if x = c then [] # split_on c xs
      else (case split_on c xs of [] \<Rightarrow> [[x]] | y # ys \<Rightarrow> (x # y) # ys))"

fun join :: "string \<Rightarrow> string list \<Rightarrow> string" where
  "join sep [] = []"
| "join sep [x] = x"
| "join sep (x # y # ys) = x @ sep @ join sep (y # ys)"

lemma split_on_nonempty [simp]: "split_on c s \<noteq> []"
  by (cases s) (auto split: list.splits)

lemma split_on_no_sep: "c \<notin> set s \<Longrightarrow> split_on c s = [s]"
  by (induction s) auto

lemma split_on_append: "c \<notin> set s \<Longrightarrow> split_on c (s @ c # t) = s # split_on c t"
  by (induction s) auto

lemma split_on_join:
  "xs \<noteq> [] \<Longrightarrow> (\<And>x. x \<in> set xs \<Longrightarrow> c \<notin> set x) \<Longrightarrow> split_on c (join [c] xs) = xs"
  by (induction "[c]" xs rule: join.induct) (auto simp: split_on_no_sep split_on_append)

section \<open>White space\<close>

text \<open>
  \<open>strings.TrimSpace\<close> removes the runes of \<open>unicode.IsSpace\<close> from both ends. Their UTF-8
  encodings are listed; no one of them is a prefix of another.
\<close>

definition utf8_spaces :: "string list" where
  "utf8_spaces =
     [[CHR 0x09], [CHR 0x0A], [CHR 0x0B], [CHR 0x0C], [CHR 0x0D], [CHR 0x20],
      [CHR 0xC2, CHR 0x85], [CHR 0xC2, CHR 0xA0], [CHR 0xE1, CHR 0x9A, CHR 0x80],
      [CHR 0xE2, CHR 0x80, CHR 0x80], [CHR 0xE2, CHR 0x80, CHR 0x81],
      [CHR 0xE2, CHR 0x80, CHR 0x82], [CHR 0xE2, CHR 0x80, CHR 0x83],
      [CHR 0xE2, CHR 0x80, CHR 0x84], [CHR 0xE2, CHR 0x80, CHR 0x85],
      [CHR 0xE2, CHR 0x80, CHR 0x86], [CHR 0xE2, CHR 0x80, CHR 0x87],
      [CHR 0xE2, CHR 0x80, CHR 0x88], [CHR 0xE2, CHR 0x80, CHR 0x89],
      [CHR 0xE2, CHR 0x80, CHR 0x8A], [CHR 0xE2, CHR 0x80, CHR 0xA8],
      [CHR 0xE2, CHR 0x80, CHR 0xA9], [CHR 0xE2, CHR 0x80, CHR 0xAF],
      [CHR 0xE2, CHR 0x81, CHR 0x9F], [CHR 0xE3, CHR 0x80, CHR 0x80]]"

fun leading_space :: "string list \<Rightarrow> string \<Rightarrow> string option" where
  "leading_space [] s = None"
| "leading_space (sp # sps) s = (if sp \<noteq> [] \<and> prefix sp s then Some sp else leading_space sps s)"

lemma leading_space_prefix: "leading_space sps s = Some sp \<Longrightarrow> sp \<noteq> [] \<and> prefix sp s"
  by (induction sps) (auto split: if_splits)

function trim_left :: "string list \<Rightarrow> string \<Rightarrow> string" where
  "trim_left sps s =
     (case leading_space sps s of None \<Rightarrow> s | Some sp \<Rightarrow> trim_left sps (drop (length sp) s))"
  by pat_completeness auto
termination
proof (relation "measure (\<lambda>(sps, s). length s)")
  fix sps s x
  assume "leading_space sps s = Some x"
  then have "x \<noteq> []" and "length x \<le> length s"
    by (auto dest: leading_space_prefix prefix_length_le)
  then show "((sps, drop (length x) s), (sps, s)) \<in> measure (\<lambda>(sps, s). length s)"
    by (cases x) auto
qed simp

declare trim_left.simps [simp del]

definition trim_space :: "string \<Rightarrow> string" where
  "trim_space s = rev (trim_left (map rev utf8_spaces) (rev (trim_left utf8_spaces s)))"

text \<open>A string that starts and ends with an ASCII letter, digit or punctuation mark is not
  trimmed.\<close>

definition graphic :: "char \<Rightarrow> bool" where
  "graphic c \<longleftrightarrow> (0x20 :: nat) < of_char c \<and> of_char c < (0x80 :: nat)"

lemma leading_space_None:
  "s \<noteq> [] \<Longrightarrow> (\<And>sp. sp \<in> set sps \<Longrightarrow> sp \<noteq> [] \<Longrightarrow> hd sp \<noteq> hd s) \<Longrightarrow> leading_space sps s = None"
proof (induction sps)
  case (Cons a sps)
  from Cons.prems(2) [of a] have "\<not> (a \<noteq> [] \<and> prefix a s)"
    by (auto simp: prefix_def)
  with Cons show ?case by simp
qed simp

lemma utf8_spaces_not_graphic:
  "list_all (\<lambda>sp. \<not> graphic (hd sp) \<and> \<not> graphic (last sp)) utf8_spaces"
  by (simp add: utf8_spaces_def graphic_def)

lemma leading_space_graphic: "s \<noteq> [] \<Longrightarrow> graphic (hd s) \<Longrightarrow> leading_space utf8_spaces s = None"
  using utf8_spaces_not_graphic by (auto simp: list_all_iff intro!: leading_space_None)

lemma leading_space_rev_graphic:
  "s \<noteq> [] \<Longrightarrow> graphic (hd s) \<Longrightarrow> leading_space (map rev utf8_spaces) s = None"
  using utf8_spaces_not_graphic
  by (auto simp: list_all_iff hd_rev intro!: leading_space_None) metis

lemma trim_space_graphic:
  assumes "s \<noteq> []" and "graphic (hd s)" and "graphic (last s)"
  shows "trim_space s = s"
  using assms
  by (simp add: trim_space_def trim_left.simps leading_space_graphic leading_space_rev_graphic
      hd_rev)

lemma trim_space_nil: "trim_space [] = []"
proof -
  have "leading_space sps [] = None" for sps
    by (induction sps) auto
  then show ?thesis
    by (simp add: trim_space_def trim_left.simps)
qed

section \<open>Decimal integers\<close>

definition digit :: "nat \<Rightarrow> char" where
  "digit n = char_of (48 + n)"

definition is_digit :: "char \<Rightarrow> bool" where
  "is_digit c \<longleftrightarrow> 48 \<le> (of_char c :: nat) \<and> of_char c \<le> (57 :: nat)"

definition digit_val :: "char \<Rightarrow> nat" where
  "digit_val c = of_char c - 48"

fun show_nat :: "nat \<Rightarrow> string" where
  "show_nat n = (if n < 10 then [digit n] else show_nat (n div 10) @ [digit (n mod 10)])"

declare show_nat.simps [simp del]

definition itoa :: "int \<Rightarrow> string" where
  "itoa i = (if i < 0 then CHR ''-'' # show_nat (nat (- i)) else show_nat (nat i))"

fun read_digits :: "nat \<Rightarrow> string \<Rightarrow> nat option" where
  "read_digits acc [] = Some acc"
| "read_digits acc (c # cs) =
     (if is_digit c then read_digits (10 * acc + digit_val c) cs else None)"

text \<open>\<open>strconv.Atoi\<close>: an optional sign and at least one decimal digit, within the range of
  \<open>int\<close>.\<close>

definition atoi :: "string \<Rightarrow> int64 res" where
  "atoi s =
     (let neg = (s \<noteq> [] \<and> hd s = CHR ''-'');
          signed = (s \<noteq> [] \<and> (hd s = CHR ''-'' \<or> hd s = CHR ''+''));
          ds = (if signed then tl s else s)
      in case (if ds = [] then None else read_digits 0 ds) of
           None \<Rightarrow> Fail (NumErr ''strconv.Atoi'' s ''invalid syntax'')
         | Some n \<Rightarrow>
             (let v = (if neg then - int n else int n)
              in if int64_range v then Ok v
                 else Fail (NumErr ''strconv.Atoi'' s ''value out of range'')))"

lemma digit_chars [simp]:
  "digit 0 = CHR ''0''" "digit (Suc 0) = CHR ''1''" "digit 1 = CHR ''1''" "digit 2 = CHR ''2''"
  "digit 3 = CHR ''3''" "digit 4 = CHR ''4''" "digit 5 = CHR ''5''" "digit 6 = CHR ''6''"
  "digit 7 = CHR ''7''" "digit 8 = CHR ''8''" "digit 9 = CHR ''9''"
  by (simp_all add: digit_def char_of_def bit_0 bit_Suc_0_iff)

lemma is_digit_digit: "d < 10 \<Longrightarrow> is_digit (digit d)"
  by (simp add: digit_def is_digit_def)

lemma digit_val_digit: "d < 10 \<Longrightarrow> digit_val (digit d) = d"
  by (simp add: digit_def digit_val_def)

lemma show_nat_nonempty [simp]: "show_nat n \<noteq> []"
  by (subst show_nat.simps) simp

lemma show_nat_digits: "c \<in> set (show_nat n) \<Longrightarrow> is_digit c"
proof (induction n arbitrary: c rule: show_nat.induct)
  case (1 n)
  then show ?case
    by (subst (asm) (2) show_nat.simps) (auto simp: is_digit_digit split: if_splits)
qed

lemma read_digits_append:
  "(\<And>c. c \<in> set xs \<Longrightarrow> is_digit c) \<Longrightarrow>
   read_digits a (xs @ ys) = Option.bind (read_digits a xs) (\<lambda>b. read_digits b ys)"
  by (induction xs arbitrary: a) auto

lemma read_show_nat: "read_digits 0 (show_nat n) = Some n"
proof (induction n rule: show_nat.induct)
  case (1 n)
  show ?case
  proof (cases "n < 10")
    case True
    then show ?thesis
      by (simp add: show_nat.simps [of n] is_digit_digit digit_val_digit)
  next
    case False
    with 1 have "read_digits 0 (show_nat (n div 10)) = Some (n div 10)" by simp
    with False show ?thesis
      by (subst show_nat.simps)
        (simp add: read_digits_append show_nat_digits is_digit_digit digit_val_digit)
  qed
qed

lemma not_is_digit [simp]:
  "\<not> is_digit CHR ''-''" "\<not> is_digit CHR ''+''" "\<not> is_digit CHR ''.''" "\<not> is_digit CHR 0x0A"
  by (simp_all add: is_digit_def)

lemma hd_show_nat: "is_digit (hd (show_nat n))"
  by (rule show_nat_digits [OF hd_in_set]) simp

theorem atoi_itoa: "int64_range i \<Longrightarrow> atoi (itoa i) = Ok i"
proof (cases "i < 0")
  case True
  assume "int64_range i"
  with True show ?thesis
    by (simp add: atoi_def itoa_def read_show_nat)
next
  case False
  assume "int64_range i"
  moreover have "hd (show_nat (nat i)) \<noteq> CHR ''-''" "hd (show_nat (nat i)) \<noteq> CHR ''+''"
    using hd_show_nat [of "nat i"] not_is_digit by metis+
  ultimately show ?thesis
    using False by (simp add: atoi_def itoa_def read_show_nat)
qed

lemma atoi_range: "atoi s = Ok v \<Longrightarrow> int64_range v"
  by (auto simp: atoi_def Let_def split: option.splits if_splits)

lemma atoi_not_panic [simp]: "atoi s \<noteq> Panic p"
  by (auto simp: atoi_def Let_def split: option.splits if_splits)

lemma itoa_chars: "c \<in> set (itoa i) \<Longrightarrow> is_digit c \<or> c = CHR ''-''"
  by (auto simp: itoa_def split: if_splits dest: show_nat_digits)

lemma itoa_nonempty [simp]: "itoa i \<noteq> []"
  by (simp add: itoa_def)

lemma itoa_inj: "itoa i = itoa j \<Longrightarrow> i = j"
proof -
  assume eq: "itoa i = itoa j"
  have sgn: "i < 0 \<longleftrightarrow> hd (itoa i) = CHR ''-''" for i
    using hd_show_nat [of "nat i"] not_is_digit by (auto simp: itoa_def)
  show ?thesis
  proof (cases "i < 0")
    case True
    with eq sgn have "j < 0" by metis
    with True eq have "show_nat (nat (- i)) = show_nat (nat (- j))"
      by (simp add: itoa_def)
    then have "nat (- i) = nat (- j)" by (metis option.inject read_show_nat)
    with True \<open>j < 0\<close> show ?thesis by simp
  next
    case False
    with eq sgn have "\<not> j < 0" by metis
    with False eq have "show_nat (nat i) = show_nat (nat j)"
      by (simp add: itoa_def)
    then have "nat i = nat j" by (metis option.inject read_show_nat)
    with False \<open>\<not> j < 0\<close> show ?thesis by simp
  qed
qed

lemma graphic_digit: "is_digit c \<Longrightarrow> graphic c"
  unfolding is_digit_def graphic_def by linarith

lemma trim_space_itoa [simp]: "trim_space (itoa i) = itoa i"
proof (rule trim_space_graphic)
  have g: "graphic c" if "c \<in> set (itoa i)" for c
    using itoa_chars [OF that] graphic_digit by (auto simp: graphic_def [of "CHR ''-''"])
  show "graphic (hd (itoa i))" "graphic (last (itoa i))"
    by (simp_all add: g)
qed simp

section \<open>Reading a file line by line\<close>

text \<open>
  \<open>bufio.Scanner\<close> with \<open>ScanLines\<close>: the pieces between newlines, a last piece only if it is
  not empty, each without its final carriage return. A piece of 65536 bytes or more does not
  fit the scanner's buffer: the scan stops with \<open>ErrTooLong\<close>.
\<close>

definition newline :: char where
  "newline = CHR 0x0A"

definition raw_lines :: "string \<Rightarrow> string list" where
  "raw_lines s = (let ps = split_on newline s in if last ps = [] then butlast ps else ps)"

definition drop_cr :: "string \<Rightarrow> string" where
  "drop_cr l = (if l \<noteq> [] \<and> last l = CHR 0x0D then butlast l else l)"

definition max_scan_token :: nat where
  "max_scan_token = 65536"

definition scan_lines :: "string \<Rightarrow> string list res" where
  "scan_lines s =
     (if \<exists>l \<in> set (raw_lines s). max_scan_token \<le> length l
      then Fail (Err ''bufio.Scanner: token too long'')
      else Ok (map drop_cr (raw_lines s)))"

lemma raw_lines_one: "newline \<notin> set l \<Longrightarrow> raw_lines (l @ [newline]) = [l]"
  using split_on_append [of newline l "[]"] by (simp add: raw_lines_def)

lemma raw_lines_empty [simp]: "raw_lines [] = []"
  by (simp add: raw_lines_def)

end
