(* ===== verification/GoOs.thy ===== *)
theory GoOs
  imports GoStrings
begin

text \<open>
  The part of the operating system the monitor uses: files by path, read as a whole, replaced
  as a whole or appended to. \<open>os.WriteFile\<close> opens with \<open>O_TRUNC\<close> and then writes, so a device
  that fails during the write leaves a prefix of the data. A network client or another device
  extends the state.
\<close>

section \<open>Files\<close>

text \<open>
  \<open>os_open_err p\<close> is the error that opening \<open>p\<close> returns (permissions), if any;
  \<open>os_write_cap p\<close> is the number of bytes after which one write to \<open>p\<close> fails, if it does.
\<close>

record os =
  os_files :: "string \<Rightarrow> string option"
  os_open_err :: "string \<Rightarrow> go_error option"
  os_write_cap :: "string \<Rightarrow> nat option"

definition ErrNotExist :: "string \<Rightarrow> go_error" where
  "ErrNotExist p = Err (p @ '': no such file or directory'')"

definition ErrWrite :: "string \<Rightarrow> go_error" where
  "ErrWrite p = Err (''write '' @ p @ '': no space left on device'')"

text \<open>\<open>os.Stat\<close>: the size of the file.\<close>

definition os_Stat :: "string \<Rightarrow> 'a os_scheme \<Rightarrow> nat res" where
  "os_Stat p w =
     (case os_files w p of None \<Rightarrow> Fail (ErrNotExist p) | Some c \<Rightarrow> Ok (length c))"

definition os_ReadFile :: "string \<Rightarrow> 'a os_scheme \<Rightarrow> string res" where
  "os_ReadFile p w =
     (case os_open_err w p of
        Some e \<Rightarrow> Fail e
      | None \<Rightarrow>
          (case os_files w p of None \<Rightarrow> Fail (ErrNotExist p) | Some c \<Rightarrow> Ok c))"

text \<open>A write of \<open>data\<close> at the end of the open file \<open>p\<close>.\<close>

definition os_write :: "string \<Rightarrow> string \<Rightarrow> ('a os_scheme, unit) io" where
  "os_write p data = (\<lambda>w.
     let old = (case os_files w p of None \<Rightarrow> [] | Some c \<Rightarrow> c);
         full = (case os_write_cap w p of None \<Rightarrow> False | Some n \<Rightarrow> n < length data);
         done = (case os_write_cap w p of None \<Rightarrow> data | Some n \<Rightarrow> take n data)
     in (if full then Fail (ErrWrite p) else Ok (),
         w\<lparr>os_files := (os_files w)(p \<mapsto> old @ done)\<rparr>))"

text \<open>\<open>os.OpenFile\<close> for writing: \<open>O_CREATE\<close> always, \<open>O_TRUNC\<close> if \<open>trunc\<close>, else \<open>O_APPEND\<close>.\<close>

definition os_open_write :: "bool \<Rightarrow> string \<Rightarrow> ('a os_scheme, unit) io" where
  "os_open_write trunc p = (\<lambda>w.
     case os_open_err w p of
       Some e \<Rightarrow> (Fail e, w)
     | None \<Rightarrow>
         (Ok (), w\<lparr>os_files := (os_files w)
            (p \<mapsto> (case os_files w p of None \<Rightarrow> [] | Some c \<Rightarrow> if trunc then [] else c))\<rparr>))"

definition os_WriteFile :: "string \<Rightarrow> string \<Rightarrow> ('a os_scheme, unit) io" where
  "os_WriteFile p data = io_bind (os_open_write True p) (\<lambda>_. os_write p data)"

section \<open>What the calls do\<close>

text \<open>A path that can be opened and whose device does not fill up.\<close>

definition writable :: "'a os_scheme \<Rightarrow> string \<Rightarrow> bool" where
  "writable w p \<longleftrightarrow> os_open_err w p = None \<and> os_write_cap w p = None"

lemma os_WriteFile_ok:
  "writable w p \<Longrightarrow>
   os_WriteFile p data w = (Ok (), w\<lparr>os_files := (os_files w)(p \<mapsto> data)\<rparr>)"
  by (simp add: os_WriteFile_def io_bind_def os_open_write_def os_write_def writable_def
      split: option.splits)

lemma os_WriteFile_Ok_content:
  "os_WriteFile p data w = (Ok (), w') \<Longrightarrow> os_files w' p = Some data"
  by (auto simp: os_WriteFile_def res_simps os_open_write_def os_write_def Let_def
      split: option.splits if_splits)

lemma os_WriteFile_frame:
  "os_WriteFile p data w = (r, w') \<Longrightarrow>
   (\<forall>q. q \<noteq> p \<longrightarrow> os_files w' q = os_files w q) \<and> os.more w' = os.more w \<and>
   os_open_err w' = os_open_err w \<and> os_write_cap w' = os_write_cap w"
  by (auto simp: os_WriteFile_def io_bind_def os_open_write_def os_write_def Let_def
      split: option.splits if_splits)

lemma os_WriteFile_open_fails:
  "os_open_err w p = Some e \<Longrightarrow> os_WriteFile p data w = (Fail e, w)"
  by (simp add: os_WriteFile_def io_bind_def os_open_write_def)

lemma os_WriteFile_short:
  "os_open_err w p = None \<Longrightarrow> os_write_cap w p = Some n \<Longrightarrow> n < length data \<Longrightarrow>
   os_WriteFile p data w =
     (Fail (ErrWrite p), w\<lparr>os_files := (os_files w)(p \<mapsto> take n data)\<rparr>)"
  by (simp add: os_WriteFile_def io_bind_def os_open_write_def os_write_def split: option.splits)

lemma os_WriteFile_not_panic: "fst (os_WriteFile p data w) \<noteq> Panic s"
  by (auto simp: os_WriteFile_def io_bind_def os_open_write_def os_write_def Let_def
      split: option.splits if_splits)

lemma os_ReadFile_ok: "os_open_err w p = None \<Longrightarrow> os_files w p = Some c \<Longrightarrow> os_ReadFile p w = Ok c"
  by (simp add: os_ReadFile_def)

section \<open>The network\<close>

text \<open>
  The state outside the files: what the clients of the log servers read and change. Its type
  is a parameter. A call over the network leaves the files alone.
\<close>

record 'n world = os +
  net :: 'n

definition net_call :: "('n, 'a) io \<Rightarrow> ('n world, 'a) io" where
  "net_call f = (\<lambda>w. case f (net w) of (r, n) \<Rightarrow> (r, w\<lparr>net := n\<rparr>))"

definition same_files :: "'n world \<Rightarrow> 'n world \<Rightarrow> bool" where
  "same_files w w' \<longleftrightarrow> os.truncate w' = os.truncate w"

lemma same_files_refl [simp, intro]: "same_files w w"
  by (simp add: same_files_def)

lemma same_files_trans [trans]: "same_files u v \<Longrightarrow> same_files v w \<Longrightarrow> same_files u w"
  by (simp add: same_files_def)

lemma same_filesD:
  "same_files w w' \<Longrightarrow> os_files w' = os_files w \<and> os_open_err w' = os_open_err w \<and>
     os_write_cap w' = os_write_cap w"
  by (simp add: same_files_def os.defs)

lemma same_files_reads:
  "same_files w w' \<Longrightarrow> os_ReadFile p w' = os_ReadFile p w"
  "same_files w w' \<Longrightarrow> os_Stat p w' = os_Stat p w"
  by (auto simp: os_ReadFile_def os_Stat_def dest!: same_filesD split: option.splits)

lemma net_call_same_files: "net_call f w = (r, w') \<Longrightarrow> same_files w w'"
  by (auto simp: net_call_def same_files_def os.defs split: prod.splits)

lemma net_call_Ok: "net_call g w = (Ok x, w') \<Longrightarrow> same_files w w' \<and> (\<exists>n n'. g n = (Ok x, n'))"
  by (auto simp: net_call_same_files) (auto simp: net_call_def split: prod.splits)

lemma net_call_keeps: "keeps (same_files u) (net_call f)"
  by (auto simp: keeps_def net_call_def same_files_def os.defs split: prod.splits)

text \<open>One file, and which devices fail, are as before.\<close>

definition same_file :: "string \<Rightarrow> 'a os_scheme \<Rightarrow> 'a os_scheme \<Rightarrow> bool" where
  "same_file q w w' \<longleftrightarrow> os_files w' q = os_files w q \<and> os_open_err w' = os_open_err w \<and>
     os_write_cap w' = os_write_cap w"

lemma same_file_refl [simp, intro]: "same_file q w w"
  by (simp add: same_file_def)

lemma same_file_trans [trans]: "same_file q u v \<Longrightarrow> same_file q v w \<Longrightarrow> same_file q u w"
  by (simp add: same_file_def)

lemma same_file_reads:
  "same_file q w w' \<Longrightarrow> os_ReadFile q w' = os_ReadFile q w"
  "same_file q w w' \<Longrightarrow> os_Stat q w' = os_Stat q w"
  by (auto simp: same_file_def os_ReadFile_def os_Stat_def split: option.splits)

lemma same_files_file: "same_files w w' \<Longrightarrow> same_file q w w'"
  by (simp add: same_file_def same_filesD)

lemma keeps_same_file: "(\<And>u. keeps (same_file q u) m) \<Longrightarrow> m w = (r, w') \<Longrightarrow> same_file q w w'"
  by (metis keepsD same_file_refl)

lemma keeps_this_file: "(\<And>u. keeps (same_file q u) m) \<Longrightarrow> m w = (r, w') \<Longrightarrow> os_files w' q = os_files w q"
  by (metis keeps_same_file same_file_def)

lemma keeps_same_files: "(\<And>u. keeps (same_files u) m) \<Longrightarrow> m w = (r, w') \<Longrightarrow> same_files w w'"
  by (metis keepsD same_files_refl)

lemma keeps_file: "(\<And>u. keeps (same_files u) m) \<Longrightarrow> keeps (same_file q u) m"
  by (metis keeps_def keeps_same_files prod.collapse same_file_trans same_files_file)

end
