(* ===== verification/Retry.thy ===== *)
theory Retry
  imports GoOs Complex_Main
begin

text \<open>
  \<open>pkg/util/retry.go\<close>: the retry loop around the calls to a log server. The configuration is a
  record, an option a function on it, the loop a recursion on the attempts that are left. Time
  and the cancellation of the context are parameters of the loop (\<open>'w clock\<close>), as is the
  conversion \<open>time.Duration(float64(d) * m)\<close>, whose rounding and overflow depend on the
  platform. The locale \<open>retried_call\<close> is the contract between the loop and the call it
  retries.
\<close>

section \<open>Configuration\<close>

text \<open>A \<open>float64\<close>: not a number, a finite value or an infinity.\<close>

datatype float64 = NaN | Fin rat | PosInf | NegInf

definition float_gt1 :: "float64 \<Rightarrow> bool" where
  "float_gt1 x = (case x of Fin r \<Rightarrow> 1 < r | PosInf \<Rightarrow> True | _ \<Rightarrow> False)"

definition float_le1 :: "float64 \<Rightarrow> bool" where
  "float_le1 x = (case x of Fin r \<Rightarrow> r \<le> 1 | NegInf \<Rightarrow> True | _ \<Rightarrow> False)"

record RetryConfig =
  MaxAttempts :: int64
  InitialInterval :: int64
  MaxInterval :: int64
  Multiplier :: float64
  MaxElapsedTime :: int64

text \<open>\<open>time.Second\<close> in nanoseconds.\<close>

definition Second :: int64 where
  "Second = 1000000000"

definition DefaultRetryConfig :: RetryConfig where
  "DefaultRetryConfig =
     \<lparr>MaxAttempts = 5, InitialInterval = 1 * Second, MaxInterval = 5 * Second,
      Multiplier = Fin (3 / 2), MaxElapsedTime = 30 * Second\<rparr>"

definition ShouldRetry :: "go_error option \<Rightarrow> bool" where
  "ShouldRetry r =
     (case r of
        None \<Rightarrow> False
      | Some err \<Rightarrow>
          (case err of
             StatusErr statusCode _ \<Rightarrow> statusCode \<ge> 500 \<or> statusCode = 429
           | _ \<Rightarrow> str_contains (error_msg err) ''http2: server sent GOAWAY''))"

definition WrapError :: "go_error option \<Rightarrow> go_error option" where
  "WrapError err = (case err of None \<Rightarrow> None | Some e \<Rightarrow> Some (RetryErr (Some e)))"

definition validateRetryConfig :: "RetryConfig \<Rightarrow> go_error option" where
  "validateRetryConfig config =
     (if MaxAttempts config \<le> 0 then Some (Err ''MaxAttempts must be greater than zero'')
      else if InitialInterval config \<le> 0
        then Some (Err ''InitialInterval must be greater than zero'')
      else if MaxInterval config \<le> 0 then Some (Err ''MaxInterval must be greater than zero'')
      else if float_le1 (Multiplier config)
        then Some (Err ''multiplier must be greater than one'')
      else if MaxElapsedTime config \<le> 0
        then Some (Err ''MaxElapsedTime must be greater than zero'')
      else None)"

definition WithMaxAttempts :: "int64 \<Rightarrow> RetryConfig \<Rightarrow> RetryConfig" where
  "WithMaxAttempts attempts c = (if attempts > 0 then c\<lparr>MaxAttempts := attempts\<rparr> else c)"

definition WithInitialInterval :: "int64 \<Rightarrow> RetryConfig \<Rightarrow> RetryConfig" where
  "WithInitialInterval interval c =
     (if interval > 0 then c\<lparr>InitialInterval := interval\<rparr> else c)"

definition WithMaxInterval :: "int64 \<Rightarrow> RetryConfig \<Rightarrow> RetryConfig" where
  "WithMaxInterval interval c = (if interval > 0 then c\<lparr>MaxInterval := interval\<rparr> else c)"

definition WithMultiplier :: "float64 \<Rightarrow> RetryConfig \<Rightarrow> RetryConfig" where
  "WithMultiplier multiplier c =
     (if float_gt1 multiplier then c\<lparr>Multiplier := multiplier\<rparr> else c)"

definition WithMaxElapsedTime :: "int64 \<Rightarrow> RetryConfig \<Rightarrow> RetryConfig" where
  "WithMaxElapsedTime duration c =
     (if duration > 0 then c\<lparr>MaxElapsedTime := duration\<rparr> else c)"

text \<open>The options the package offers.\<close>

definition retry_options :: "(RetryConfig \<Rightarrow> RetryConfig) set" where
  "retry_options =
     range WithMaxAttempts \<union> range WithInitialInterval \<union> range WithMaxInterval \<union>
     range WithMultiplier \<union> range WithMaxElapsedTime"

section \<open>The loop\<close>

text \<open>
  \<open>clk_now\<close> is \<open>time.Now()\<close> in nanoseconds; \<open>clk_select d\<close> is the \<open>select\<close> on
  \<open>ctx.Done()\<close> and \<open>time.After(d)\<close>: \<open>Some (ctx.Err())\<close> if the context is done first,
  \<open>None\<close> if the timer fires; \<open>clk_scale d m\<close> is \<open>time.Duration(float64(d) * m)\<close>;
  \<open>clk_done\<close> is the \<open>ctx.Err()\<close> of a context that is done, which other loops ask for.
\<close>

record 'w clock =
  clk_now :: "'w \<Rightarrow> int64"
  clk_select :: "int64 \<Rightarrow> 'w \<Rightarrow> go_error option \<times> 'w"
  clk_scale :: "int64 \<Rightarrow> float64 \<Rightarrow> int64"
  clk_done :: "'w \<Rightarrow> go_error option"

definition next_interval :: "'w clock \<Rightarrow> RetryConfig \<Rightarrow> int64 \<Rightarrow> int64" where
  "next_interval M config currentInterval =
     (let d = clk_scale M currentInterval (Multiplier config)
      in if d > MaxInterval config then MaxInterval config else d)"

text \<open>\<open>%w\<close> of a nil error prints \<open>%!w(<nil>)\<close>.\<close>

definition last_err :: "go_error option \<Rightarrow> go_error" where
  "last_err e = (case e of None \<Rightarrow> Err ''%!w(<nil>)'' | Some e \<Rightarrow> e)"

text \<open>\<open>retryableErr, ok := err.(RetryError); ok && !retryableErr.ShouldRetry()\<close>\<close>

definition non_retryable :: "go_error \<Rightarrow> bool" where
  "non_retryable err = (case err of RetryErr r \<Rightarrow> \<not> ShouldRetry r | _ \<Rightarrow> False)"

function retry_loop ::
  "'w clock \<Rightarrow> RetryConfig \<Rightarrow> ('w, 'a) io \<Rightarrow> int64 \<Rightarrow> int64 \<Rightarrow> int64 \<Rightarrow> go_error option \<Rightarrow> ('w, 'a) io"
where
  "retry_loop M config f startTime attempt currentInterval lastErr w =
     (if attempt \<le> MaxAttempts config then
        (if MaxElapsedTime config > 0 \<and> clk_now M w - startTime > MaxElapsedTime config then
           (Fail (Errorf (''max elapsed time exceeded after '' @ itoa (attempt - 1) @
              '' attempts, last error: '') (last_err lastErr)), w)
         else
           (case f w of
              (Ok result, w1) \<Rightarrow> (Ok result, w1)
            | (Panic s, w1) \<Rightarrow> (Panic s, w1)
            | (Fail err, w1) \<Rightarrow>
                if non_retryable err then
                  (Fail (Errorf (''non-retryable error encountered after '' @ itoa attempt @
                     '' attempts: '') err), w1)
                else if attempt = MaxAttempts config then
                  (Fail (Errorf (''retry cancelled after '' @ itoa attempt @ '' attempts: '')
                     DeadlineExceeded), w1)
                else
                  (case clk_select M currentInterval w1 of
                     (Some ctxErr, w2) \<Rightarrow>
                       (Fail (Errorf (''retry cancelled after '' @ itoa attempt @
                          '' attempts: '') ctxErr), w2)
                   | (None, w2) \<Rightarrow>
                       retry_loop M config f startTime (attempt + 1)
                         (next_interval M config currentInterval) (Some err) w2)))
      else
        (Fail (Errorf ''retry logic exited unexpectedly, last error: '' (last_err lastErr)), w))"
  by pat_completeness auto
termination
  by (relation "measure (\<lambda>(M, config, f, startTime, attempt, currentInterval, lastErr, w).
        nat (MaxAttempts config + 1 - attempt))") auto

declare retry_loop.simps [simp del]

definition Retry ::
  "'w clock \<Rightarrow> ('w, 'a) io \<Rightarrow> (RetryConfig \<Rightarrow> RetryConfig) list \<Rightarrow> ('w, 'a) io" where
  "Retry M f opts = (\<lambda>w.
     let config = fold (\<lambda>opt c. opt c) opts DefaultRetryConfig
     in case validateRetryConfig config of
          Some err \<Rightarrow> (Fail (Errorf ''invalid retry configuration: '' err), w)
        | None \<Rightarrow>
            retry_loop M config f (clk_now M w) 1 (InitialInterval config) None w)"

text \<open>What one round of the loop can do.\<close>

lemma retry_loop_elim:
  assumes "retry_loop M config f t n d l w = (r, w')"
  obtains
    (stop) e where "r = Fail e" and "w' = w"
  | (success) v where "f w = (Ok v, w')" and "r = Ok v"
  | (panic) s where "f w = (Panic s, w')" and "r = Panic s"
  | (give_up) err e where "n \<le> MaxAttempts config" and "f w = (Fail err, w')" and "r = Fail e"
  | (cancelled) err w1 ce e where "n < MaxAttempts config" and "f w = (Fail err, w1)"
      and "clk_select M d w1 = (Some ce, w')" and "r = Fail e"
  | (again) err w1 w2 where "n < MaxAttempts config" and "f w = (Fail err, w1)"
      and "\<not> non_retryable err" and "clk_select M d w1 = (None, w2)"
      and "retry_loop M config f t (n + 1) (next_interval M config d) (Some err) w2 = (r, w')"
  using assms
  by (subst (asm) retry_loop.simps)
    (auto split: if_splits prod.splits res.splits option.splits intro: that)

section \<open>The contract with the retried call\<close>

text \<open>
  A call that keeps an invariant of the state and establishes a postcondition when it
  succeeds keeps both when it is retried, provided waiting keeps the invariant.
\<close>

locale retried_call =
  fixes M :: "'w clock" and f :: "('w, 'a) io"
    and I :: "'w \<Rightarrow> bool" and Q :: "'a \<Rightarrow> 'w \<Rightarrow> bool"
  assumes call_keeps: "I w \<Longrightarrow> f w = (r, w') \<Longrightarrow> I w'"
    and call_post: "I w \<Longrightarrow> f w = (Ok v, w') \<Longrightarrow> Q v w'"
    and select_keeps: "I w \<Longrightarrow> clk_select M d w = (e, w') \<Longrightarrow> I w'"
begin

lemma loop_contract:
  "I w \<Longrightarrow> retry_loop M config f t n d l w = (r, w') \<Longrightarrow> I w' \<and> (\<forall>v. r = Ok v \<longrightarrow> Q v w')"
proof (induction "nat (MaxAttempts config - n)" arbitrary: n d l w rule: less_induct)
  case less
  from less.prems(2) show ?case
  proof (cases rule: retry_loop_elim)
    case (again err w1 w2)
    have "I w2"
      using less.prems(1) again(2,4) by (blast intro: call_keeps select_keeps)
    with less.hyps [OF _ this again(5)] again(1) show ?thesis by simp
  next
    case (cancelled err w1 ce e)
    then show ?thesis using less.prems(1) by (auto intro: call_keeps select_keeps)
  qed (use less.prems(1) call_keeps call_post in auto)
qed

lemma retry_keeps: "I w \<Longrightarrow> Retry M f opts w = (r, w') \<Longrightarrow> I w'"
  using loop_contract by (fastforce simp: Retry_def Let_def split: option.splits)

lemma retry_post: "I w \<Longrightarrow> Retry M f opts w = (Ok v, w') \<Longrightarrow> Q v w'"
  using loop_contract by (fastforce simp: Retry_def Let_def split: option.splits)

end

text \<open>
  A call over the network, retried while time passes outside the program: it leaves the files
  alone, and the value it returns is one that the call has returned.
\<close>

definition net_clock :: "'n clock \<Rightarrow> 'n world clock" where
  "net_clock M =
     \<lparr>clk_now = (\<lambda>w. clk_now M (net w)),
      clk_select = (\<lambda>d w. case clk_select M d (net w) of (e, n) \<Rightarrow> (e, w\<lparr>net := n\<rparr>)),
      clk_scale = clk_scale M, clk_done = (\<lambda>w. clk_done M (net w))\<rparr>"

definition rpc :: "'n clock \<Rightarrow> ('n, 'a) io \<Rightarrow> ('n world, 'a) io" where
  "rpc M f = Retry (net_clock M) (net_call f) []"

interpretation net: retried_call "net_clock M" "net_call f" "same_files u"
  "\<lambda>v w. \<exists>n. f n = (Ok v, net w)" for M f u
proof
  fix w r w'
  assume "same_files u w" and "net_call f w = (r, w')"
  then show "same_files u w'" by (blast intro: net_call_same_files same_files_trans)
next
  fix w v w'
  assume "net_call f w = (Ok v, w')"
  then show "\<exists>n. f n = (Ok v, net w')" by (auto simp: net_call_def split: prod.splits)
next
  fix w d e w'
  assume "same_files u w" and "clk_select (net_clock M) d w = (e, w')"
  then show "same_files u w'" by (auto simp: net_clock_def same_files_def os.defs split: prod.splits)
qed

lemma rpc_same_files: "rpc M f w = (r, w') \<Longrightarrow> same_files w w'"
  unfolding rpc_def by (rule net.retry_keeps [OF same_files_refl])

lemma rpc_returns: "rpc M f w = (Ok v, w') \<Longrightarrow> \<exists>n. f n = (Ok v, net w')"
  unfolding rpc_def by (rule net.retry_post [OF same_files_refl])

section \<open>The options keep the configuration valid\<close>

lemma float_gt1_not_le1: "float_gt1 x \<Longrightarrow> \<not> float_le1 x"
  by (auto simp: float_gt1_def float_le1_def split: float64.splits)

lemma option_keeps_valid:
  "opt \<in> retry_options \<Longrightarrow> validateRetryConfig c = None \<Longrightarrow> validateRetryConfig (opt c) = None"
  by (auto simp: retry_options_def validateRetryConfig_def WithMaxAttempts_def
      WithInitialInterval_def WithMaxInterval_def WithMultiplier_def WithMaxElapsedTime_def
      float_gt1_not_le1 split: if_splits)

lemma default_valid: "validateRetryConfig DefaultRetryConfig = None"
  by (simp add: validateRetryConfig_def DefaultRetryConfig_def Second_def float_le1_def)

lemma fold_options_valid:
  "set opts \<subseteq> retry_options \<Longrightarrow> validateRetryConfig c = None \<Longrightarrow>
   validateRetryConfig (fold (\<lambda>opt c. opt c) opts c) = None"
  by (induction opts arbitrary: c) (auto simp: option_keeps_valid)

lemma valid_config: "validateRetryConfig c = None \<Longrightarrow> 0 < MaxAttempts c \<and> 0 < InitialInterval c \<and> 0 < MaxInterval c"
  by (auto simp: validateRetryConfig_def split: if_splits)

lemma rpc_first_try:
  assumes "f (net w) = (Ok v, n)"
  shows "rpc M f w = (Ok v, w\<lparr>net := n\<rparr>)"
  using assms
  by (simp add: rpc_def Retry_def default_valid retry_loop.simps net_call_def)
    (simp add: DefaultRetryConfig_def Second_def)

section \<open>Counting the calls and the waits\<close>

text \<open>
  The same clock and call, with a count of the calls and the list of the intervals waited
  carried beside the state.
\<close>

definition counted_call :: "('w, 'a) io \<Rightarrow> ('w \<times> nat \<times> int64 list, 'a) io" where
  "counted_call f = (\<lambda>(w, k, ds). case f w of (r, w') \<Rightarrow> (r, (w', Suc k, ds)))"

definition counted_clock :: "'w clock \<Rightarrow> ('w \<times> nat \<times> int64 list) clock" where
  "counted_clock M =
     \<lparr>clk_now = (\<lambda>(w, k, ds). clk_now M w),
      clk_select = (\<lambda>d (w, k, ds). case clk_select M d w of (e, w') \<Rightarrow> (e, (w', k, ds @ [d]))),
      clk_scale = clk_scale M, clk_done = (\<lambda>(w, k, ds). clk_done M w)\<rparr>"

lemma counted_call_eq [simp]:
  "counted_call f (w, k, ds) = (r, w', k', ds') \<longleftrightarrow> f w = (r, w') \<and> k' = Suc k \<and> ds' = ds"
  by (auto simp: counted_call_def split: prod.splits)

lemma counted_select_eq [simp]:
  "clk_select (counted_clock M) d (w, k, ds) = (e, w', k', ds') \<longleftrightarrow>
     clk_select M d w = (e, w') \<and> k' = k \<and> ds' = ds @ [d]"
  by (auto simp: counted_clock_def split: prod.splits)

lemma counted_interval [simp]:
  "next_interval (counted_clock M) config d = next_interval M config d"
  by (simp add: next_interval_def counted_clock_def)

lemma next_interval_le: "next_interval M config d \<le> MaxInterval config"
  by (simp add: next_interval_def Let_def)

lemma counted_loop_bounds:
  "n \<le> MaxAttempts config \<Longrightarrow> d \<le> B \<Longrightarrow> MaxInterval config \<le> B \<Longrightarrow>
   retry_loop (counted_clock M) config (counted_call f) t n d l (w, k, ds) = (r, w', k', ds') \<Longrightarrow>
   (\<exists>es. ds' = ds @ es \<and> (\<forall>e \<in> set es. e \<le> B) \<and> int (length es) \<le> MaxAttempts config - n) \<and>
   int k' \<le> int k + (MaxAttempts config - n + 1)"
proof (induction "nat (MaxAttempts config - n)" arbitrary: n d l w k ds rule: less_induct)
  case less
  from less.prems(4) show ?case
  proof (cases rule: retry_loop_elim)
    case (again err x y)
    obtain w1 w2 where x: "x = (w1, Suc k, ds)" and y: "y = (w2, Suc k, ds @ [d])"
      using again(2,4) by (cases x; cases y) auto
    have "next_interval (counted_clock M) config d \<le> B"
      using next_interval_le [of M config d] less.prems(3) by simp
    from less.hyps [OF _ _ this less.prems(3) again(5) [unfolded y]] again(1)
    obtain es where "ds' = (ds @ [d]) @ es" "\<forall>e \<in> set es. e \<le> B"
      "int (length es) \<le> MaxAttempts config - (n + 1)"
      "int k' \<le> int (Suc k) + (MaxAttempts config - (n + 1) + 1)"
      by auto
    then show ?thesis using less.prems(2) by (auto intro!: exI [of _ "d # es"])
  next
    case (cancelled err x ce e)
    then show ?thesis using less.prems(2) by (cases x) (auto intro!: exI [of _ "[d]"])
  qed (use less.prems(1) in auto)
qed

text \<open>The instrumented loop returns what the loop returns.\<close>

lemma counted_now [simp]: "clk_now (counted_clock M) (w, k, ds) = clk_now M w"
  by (simp add: counted_clock_def)

lemma counted_call_run [simp]:
  "f w = (r, w') \<Longrightarrow> counted_call f (w, k, ds) = (r, w', Suc k, ds)"
  by simp

lemma counted_select_run [simp]:
  "clk_select M d w = (e, w') \<Longrightarrow> clk_select (counted_clock M) d (w, k, ds) = (e, w', k, ds @ [d])"
  by simp

lemma counted_loop_result:
  "\<exists>k' ds'. retry_loop (counted_clock M) config (counted_call f) t n d l (w, k, ds) =
     (fst (retry_loop M config f t n d l w), snd (retry_loop M config f t n d l w), k', ds')"
proof (induction "nat (MaxAttempts config - n)" arbitrary: n d l w k ds rule: less_induct)
  case less
  obtain r1 w1 where f: "f w = (r1, w1)" by fastforce
  obtain e w2 where sel: "clk_select M d w1 = (e, w2)" by fastforce
  note unfold = retry_loop.simps [of M config f t n d l w]
    retry_loop.simps [of "counted_clock M" config "counted_call f" t n d l "(w, k, ds)"]
  show ?case
  proof (cases "n < MaxAttempts config \<and> (\<exists>err. r1 = Fail err) \<and> e = None")
    case True
    then obtain err where err: "r1 = Fail err" "n < MaxAttempts config" "e = None" by blast
    then show ?thesis
      using less.hyps [where n = "n + 1" and w = w2 and d = "next_interval M config d"
          and l = "Some err" and k = "Suc k" and ds = "ds @ [d]"]
      by (simp add: unfold f sel)
  next
    case False
    then show ?thesis
      by (cases r1; cases e) (auto simp: unfold f sel)
  qed
qed

section \<open>Runs without time-outs\<close>

abbreviation configured :: "(RetryConfig \<Rightarrow> RetryConfig) list \<Rightarrow> RetryConfig" where
  "configured opts \<equiv> fold (\<lambda>opt c. opt c) opts DefaultRetryConfig"

text \<open>The context is never cancelled and the allowed time never passes.\<close>

definition quiet :: "'w clock \<Rightarrow> RetryConfig \<Rightarrow> bool" where
  "quiet M config \<longleftrightarrow>
     (\<forall>u v. clk_now M u - clk_now M v \<le> MaxElapsedTime config) \<and>
     (\<forall>d w. fst (clk_select M d w) = None)"

text \<open>A call whose outcomes are fixed in advance.\<close>

fun scripted :: "('a res list, 'a) io" where
  "scripted [] = (Fail (Err ''end of script''), [])"
| "scripted (out # rest) = (out, rest)"

lemma configured_valid: "set opts \<subseteq> retry_options \<Longrightarrow> validateRetryConfig (configured opts) = None"
  by (simp add: fold_options_valid default_valid)

lemma Retry_valid:
  "set opts \<subseteq> retry_options \<Longrightarrow>
   Retry M f opts w =
     retry_loop M (configured opts) f (clk_now M w) 1 (InitialInterval (configured opts)) None w"
  by (simp add: Retry_def configured_valid Let_def)

lemma quiet_time: "quiet M config \<Longrightarrow> \<not> MaxElapsedTime config < clk_now M u - clk_now M v"
  by (auto simp: quiet_def not_less)

lemma quiet_again:
  assumes "quiet M config" and "clk_select M d w1 = (e, w2)" and "n < MaxAttempts config"
    and "f w = (Fail err, w1)" and "\<not> non_retryable err"
  shows "retry_loop M config f (clk_now M u) n d l w =
    retry_loop M config f (clk_now M u) (n + 1) (next_interval M config d) (Some err) w2"
proof -
  have "e = None" using assms(1,2) by (metis fst_conv quiet_def)
  with assms show ?thesis by (simp add: retry_loop.simps [of M config f _ n] quiet_time)
qed

lemma quiet_last:
  assumes "quiet M config" and "n \<le> MaxAttempts config"
  shows "f w = (Ok v, w1) \<Longrightarrow> retry_loop M config f (clk_now M u) n d l w = (Ok v, w1)"
    and "f w = (Fail err, w1) \<Longrightarrow> non_retryable err \<Longrightarrow>
      retry_loop M config f (clk_now M u) n d l w =
        (Fail (Errorf (''non-retryable error encountered after '' @ itoa n @ '' attempts: '') err), w1)"
    and "f w = (Fail err, w1) \<Longrightarrow> \<not> non_retryable err \<Longrightarrow> n = MaxAttempts config \<Longrightarrow>
      retry_loop M config f (clk_now M u) n d l w =
        (Fail (Errorf (''retry cancelled after '' @ itoa n @ '' attempts: '') DeadlineExceeded), w1)"
  using assms
  by (simp_all add: retry_loop.simps [of M config f _ n]
      retry_loop.simps [of M config f _ "MaxAttempts config"] quiet_time)

lemma scripted_loop:
  assumes q: "quiet M config" and sel: "\<forall>d w. snd (clk_select M d w) = w"
  shows "\<forall>x \<in> set fs. \<exists>e. x = Fail e \<and> \<not> non_retryable e \<Longrightarrow>
    n + int (length fs) \<le> MaxAttempts config \<Longrightarrow>
    \<exists>d' l'. retry_loop M config scripted (clk_now M u) n d l (fs @ rest) =
      retry_loop M config scripted (clk_now M u) (n + int (length fs)) d' l' rest"
proof (induction fs arbitrary: n d l)
  case Nil
  then show ?case by auto
next
  case (Cons x fs)
  then obtain e where x: "x = Fail e" "\<not> non_retryable e" by auto
  have s: "clk_select M d (fs @ rest) = (None, fs @ rest)"
    using q sel by (metis prod.collapse quiet_def)
  have "retry_loop M config scripted (clk_now M u) n d l ((x # fs) @ rest) =
      retry_loop M config scripted (clk_now M u) (n + 1) (next_interval M config d) (Some e) (fs @ rest)"
    using Cons.prems x by (intro quiet_again [OF q s]) auto
  then show ?case
    using Cons.IH [of "n + 1" "next_interval M config d" "Some e"] Cons.prems
    by (auto simp: algebra_simps)
qed

lemma unwrapped_loop:
  assumes q: "quiet M config" and f: "\<forall>w. \<exists>e w'. f w = (Fail e, w') \<and> \<not> non_retryable e"
  shows "1 \<le> n \<Longrightarrow> n \<le> MaxAttempts config \<Longrightarrow>
    \<exists>w' ds'. retry_loop (counted_clock M) config (counted_call f) (clk_now M u) n d l (w, nat (n - 1), ds) =
      (Fail (Errorf (''retry cancelled after '' @ itoa (MaxAttempts config) @ '' attempts: '')
         DeadlineExceeded), w', nat (MaxAttempts config), ds')"
proof (induction "nat (MaxAttempts config - n)" arbitrary: n d l w ds rule: less_induct)
  case less
  obtain e w1 where f1: "f w = (Fail e, w1)" "\<not> non_retryable e" using f by blast
  obtain ce w2 where s: "clk_select M d w1 = (ce, w2)" by fastforce
  have cq: "quiet (counted_clock M) config"
    using q by (simp add: quiet_def counted_clock_def split_beta)
  have cf: "counted_call f (w, nat (n - 1), ds) = (Fail e, w1, nat n, ds)"
    using f1(1) less.prems by simp
  have cs: "clk_select (counted_clock M) d (w1, nat n, ds) = (ce, w2, nat n, ds @ [d])"
    using s by simp
  have now: "clk_now M u = clk_now (counted_clock M) (u, 0, [])" by simp
  show ?case
  proof (cases "n = MaxAttempts config")
    case True
    from quiet_last(3) [OF cq less.prems(2), of "counted_call f", OF cf f1(2) True] True
    show ?thesis unfolding now by blast
  next
    case False
    then have n: "n < MaxAttempts config" using less.prems(2) by simp
    have "retry_loop (counted_clock M) config (counted_call f) (clk_now M u) n d l (w, nat (n - 1), ds) =
        retry_loop (counted_clock M) config (counted_call f) (clk_now M u) (n + 1)
          (next_interval M config d) (Some e) (w2, nat (n + 1 - 1), ds @ [d])"
      using quiet_again [OF cq cs n, of "counted_call f", OF cf f1(2), where u = "(u, 0, [])"] by simp
    then show ?thesis using less.hyps [of "n + 1"] n less.prems(1) by simp
  qed
qed

section \<open>Properties\<close>

text \<open>C38. With the options of the package, the retried function is called at most
  \<open>MaxAttempts\<close> times, with at most \<open>MaxAttempts - 1\<close> waits between the calls; no wait is longer
  than the larger of \<open>InitialInterval\<close> and \<open>MaxInterval\<close>, whatever the calls and the floating
  point conversion do.\<close>

theorem retry_bounded:
  assumes "set opts \<subseteq> retry_options"
    and "Retry (counted_clock M) (counted_call f) opts (w, 0, []) = (r, w', k, ds)"
  shows "Retry M f opts w = (r, w') \<and>
    int k \<le> MaxAttempts (configured opts) \<and>
    int (length ds) \<le> MaxAttempts (configured opts) - 1 \<and>
    (\<forall>d \<in> set ds. d \<le> max (InitialInterval (configured opts)) (MaxInterval (configured opts)))"
proof -
  let ?c = "configured opts"
  have loop: "retry_loop (counted_clock M) ?c (counted_call f) (clk_now M w) 1 (InitialInterval ?c)
      None (w, 0, []) = (r, w', k, ds)"
    using assms(2) by (simp add: Retry_valid [OF assms(1)])
  have "1 \<le> MaxAttempts ?c" using valid_config [OF configured_valid [OF assms(1)]] by simp
  from counted_loop_bounds [OF this _ _ loop, of "max (InitialInterval ?c) (MaxInterval ?c)"]
  show ?thesis
    using loop Retry_valid [OF assms(1), of M f w]
      counted_loop_result [of M ?c f "clk_now M w" 1 "InitialInterval ?c" None w 0 "[]"]
    by auto
qed

definition demo_clock :: "'w clock" where
  "demo_clock = \<lparr>clk_now = (\<lambda>_. 0), clk_select = (\<lambda>d w. (None, w)), clk_scale = (\<lambda>d m. d + d div 2),
     clk_done = (\<lambda>_. None)\<rparr>"

theorem retry_bounded_witness:
  "Retry demo_clock scripted [WithMaxAttempts 2] [Fail (Err ''a''), Ok (7::nat)] = (Ok 7, []) \<and>
   int 2 \<le> (2::int) \<and> int (length [1000000000::int]) \<le> 2 - 1 \<and>
   list_all (\<lambda>d. d \<le> max 1000000000 5000000000) [1000000000::int]"
proof -
  have o: "set [WithMaxAttempts 2] \<subseteq> retry_options" by (simp add: retry_options_def)
  have run: "Retry (counted_clock demo_clock) (counted_call scripted) [WithMaxAttempts 2]
      ([Fail (Err ''a''), Ok (7::nat)], 0, []) = (Ok 7, [], 2, [1000000000])"
    unfolding Retry_valid [OF o] by (simp add: WithMaxAttempts_def DefaultRetryConfig_def Second_def
        retry_loop.simps counted_clock_def demo_clock_def counted_call_def non_retryable_def)
  show ?thesis
    using retry_bounded [OF o run]
    by (simp add: WithMaxAttempts_def DefaultRetryConfig_def Second_def)
qed

text \<open>No combination of the package's options makes the configuration invalid: \<open>Retry\<close>
  never returns the error \<open>invalid retry configuration\<close> for them.\<close>

theorem retry_options_valid:
  "set opts \<subseteq> retry_options \<Longrightarrow> validateRetryConfig (configured opts) = None"
  by (rule configured_valid)

theorem retry_options_valid_witness:
  "validateRetryConfig (configured [WithMaxAttempts 0, WithMultiplier NaN, WithMaxInterval 9]) = None"
  by (rule retry_options_valid) (auto simp: retry_options_def)

text \<open>C39. Errors that \<open>f\<close> returns before its last attempt are retried unless they are a
  \<open>RetryError\<close> that must not be; the first success is returned as it is, and the first
  non-retryable error stops the loop and is returned with the number of the attempt. The
  outcomes after it are not asked for.\<close>

theorem retry_first_final:
  assumes "set opts \<subseteq> retry_options" and "quiet M (configured opts)"
    and "\<forall>d w. snd (clk_select M d w) = w"
    and "\<forall>x \<in> set fs. \<exists>e. x = Fail e \<and> \<not> non_retryable e"
    and "int (length fs) < MaxAttempts (configured opts)"
  shows "Retry M scripted opts (fs @ Ok v # rest) = (Ok v, rest) \<and>
    (non_retryable err \<longrightarrow>
      Retry M scripted opts (fs @ Fail err # rest) =
        (Fail (Errorf (''non-retryable error encountered after '' @ itoa (int (length fs) + 1) @
           '' attempts: '') err), rest))"
proof -
  let ?n = "1 + int (length fs)"
  have len: "?n \<le> MaxAttempts (configured opts)" using assms(5) by simp
  have reach: "\<exists>d' l'. Retry M scripted opts (fs @ x # rest) =
      retry_loop M (configured opts) scripted (clk_now M (fs @ x # rest)) ?n d' l' (x # rest)" for x
    unfolding Retry_valid [OF assms(1)] using assms(5)
    by (intro scripted_loop [OF assms(2,3,4), of 1]) simp
  have ok: "Retry M scripted opts (fs @ Ok v # rest) = (Ok v, rest)"
    using reach [of "Ok v"] quiet_last(1) [OF assms(2) len, of scripted "Ok v # rest" v rest]
    by fastforce
  have "Retry M scripted opts (fs @ Fail err # rest) =
      (Fail (Errorf (''non-retryable error encountered after '' @ itoa ?n @ '' attempts: '') err), rest)"
    if "non_retryable err"
    using reach [of "Fail err"]
      quiet_last(2) [OF assms(2) len, of scripted "Fail err # rest" err rest, OF _ that] by force
  with ok show ?thesis by (simp add: add.commute)
qed

theorem retry_first_final_witness:
  "Retry demo_clock scripted [] [Fail (StatusErr 503 ''x''), Ok (1::nat), Ok 2] = (Ok 1, [Ok 2]) \<and>
   Retry demo_clock scripted []
     [Fail (StatusErr 503 ''x''), Fail (RetryErr (Some (StatusErr 404 ''y''))), Ok (2::nat)] =
     (Fail (Errorf ''non-retryable error encountered after 2 attempts: ''
        (RetryErr (Some (StatusErr 404 ''y'')))), [Ok 2])"
proof -
  have q: "quiet demo_clock (configured [])"
    by (simp add: quiet_def demo_clock_def DefaultRetryConfig_def Second_def)
  have r: "\<forall>x \<in> set [Fail (StatusErr 503 ''x'') :: nat res]. \<exists>e. x = Fail e \<and> \<not> non_retryable e"
    by (simp add: non_retryable_def)
  have it: "itoa 2 = ''2''" by (simp add: itoa_def show_nat.simps)
  show ?thesis
    using retry_first_final [OF _ q _ r, where v = 1 and rest = "[Ok 2]"
        and err = "RetryErr (Some (StatusErr 404 ''y''))"]
    by (simp add: demo_clock_def DefaultRetryConfig_def non_retryable_def ShouldRetry_def it)
qed

text \<open>A call that keeps failing with an error that is not a \<open>RetryError\<close>, whatever its
  status code, is made exactly \<open>MaxAttempts\<close> times, and the result is a \<open>deadline exceeded\<close> error
  that does not mention the error of the call, although no deadline has passed.\<close>

theorem retry_unwrapped_exhausts:
  assumes "set opts \<subseteq> retry_options" and "quiet M (configured opts)"
    and "\<forall>w. \<exists>e w'. f w = (Fail e, w') \<and> (\<forall>i. e \<noteq> RetryErr i)"
  shows "\<exists>w' ds. Retry (counted_clock M) (counted_call f) opts (w, 0, []) =
    (Fail (Errorf (''retry cancelled after '' @ itoa (MaxAttempts (configured opts)) @
       '' attempts: '') DeadlineExceeded), w', nat (MaxAttempts (configured opts)), ds)"
proof -
  have f: "\<forall>w. \<exists>e w'. f w = (Fail e, w') \<and> \<not> non_retryable e"
  proof
    fix w
    obtain e w' where "f w = (Fail e, w')" "\<forall>i. e \<noteq> RetryErr i" using assms(3) by blast
    then show "\<exists>e w'. f w = (Fail e, w') \<and> \<not> non_retryable e"
      by (cases e) (auto simp: non_retryable_def)
  qed
  have "1 \<le> MaxAttempts (configured opts)"
    using valid_config [OF configured_valid [OF assms(1)]] by simp
  then show ?thesis
    using unwrapped_loop [OF assms(2) f, of 1 w] by (simp add: Retry_valid [OF assms(1)])
qed

theorem retry_unwrapped_exhausts_witness:
  "\<exists>w' ds. Retry (counted_clock demo_clock)
      (counted_call (\<lambda>w. (Fail (StatusErr 404 ''not found'') :: nat res, w))) [] ((), 0, []) =
    (Fail (Errorf ''retry cancelled after 5 attempts: '' DeadlineExceeded), w', 5, ds)"
proof -
  have q: "quiet demo_clock (configured [])"
    by (simp add: quiet_def demo_clock_def DefaultRetryConfig_def Second_def)
  have it: "itoa 5 = ''5''" by (simp add: itoa_def show_nat.simps)
  show ?thesis
    using retry_unwrapped_exhausts [OF _ q, of "\<lambda>w. (Fail (StatusErr 404 ''not found'') :: nat res, w)" "()"]
    by (simp add: DefaultRetryConfig_def it)
qed

end
