(* ===== verification/GoEncoding.thy ===== *)
theory GoEncoding
  imports GoStrings
begin

text \<open>
  \<open>encoding/hex\<close>, \<open>encoding/base64\<close> and \<open>encoding/binary\<close> of Go's standard library, as far
  as the monitor calls them.
\<close>

section \<open>Hexadecimal\<close>

definition hex_digit :: "nat \<Rightarrow> char" where
  "hex_digit n = char_of (if n < 10 then 48 + n else 87 + n)"

definition hex_val :: "char \<Rightarrow> nat option" where
  "hex_val c =
     (let n = of_char c
      in if 48 \<le> n \<and> n \<le> 57 then Some (n - 48)
         else if 97 \<le> n \<and> n \<le> 102 then Some (n - 87)
         else if 65 \<le> n \<and> n \<le> 70 then Some (n - 55)
         else None)"

definition hex_byte :: "char \<Rightarrow> string" where
  "hex_byte c = [hex_digit (of_char c div 16), hex_digit (of_char c mod 16)]"

definition hex_encode :: "string \<Rightarrow> string" where
  "hex_encode s = concat (map hex_byte s)"

text \<open>\<open>%#U\<close> of a byte: the code point in upper-case hexadecimal and the character if it can be
  printed, in UTF-8.\<close>

definition upper_digit :: "nat \<Rightarrow> char" where
  "upper_digit n = char_of (if n < 10 then 48 + n else 55 + n)"

definition fmt_U :: "char \<Rightarrow> string" where
  "fmt_U c =
     (let n = of_char c :: nat;
          printable = (32 \<le> n \<and> n < 127 \<or> 161 \<le> n \<and> n \<noteq> 173);
          utf8 = (if n < 128 then [c] else [char_of (192 + n div 64), char_of (128 + n mod 64)])
      in ''U+00'' @ [upper_digit (n div 16), upper_digit (n mod 16)] @
         (if printable then [CHR '' '', CHR 0x27] @ utf8 @ [CHR 0x27] else []))"

definition invalid_byte :: "char \<Rightarrow> go_error" where
  "invalid_byte c = Err (''encoding/hex: invalid byte: '' @ fmt_U c)"

fun hex_decode :: "string \<Rightarrow> string res" where
  "hex_decode [] = Ok []"
| "hex_decode [c] =
     (case hex_val c of
        None \<Rightarrow> Fail (invalid_byte c)
      | Some _ \<Rightarrow> Fail (Err ''encoding/hex: odd length hex string''))"
| "hex_decode (a # b # s) =
     (case hex_val a of
        None \<Rightarrow> Fail (invalid_byte a)
      | Some h \<Rightarrow>
          (case hex_val b of
             None \<Rightarrow> Fail (invalid_byte b)
           | Some l \<Rightarrow> rbind (hex_decode s) (\<lambda>t. Ok (char_of (16 * h + l) # t))))"

lemma hex_val_digit: "n < 16 \<Longrightarrow> hex_val (hex_digit n) = Some n"
  by (auto simp: hex_val_def hex_digit_def Let_def)

lemma hex_decode_encode: "hex_decode (hex_encode s) = Ok s"
proof (induction s)
  case (Cons c s)
  have "of_char c mod 256 < (256 :: nat)" by simp
  then have "of_char c < (256 :: nat)" by simp
  then have "of_char c div 16 < (16 :: nat)" by (simp add: less_mult_imp_div_less)
  with Cons show ?case
    by (simp add: hex_encode_def hex_byte_def hex_val_digit)
qed (simp add: hex_encode_def)

lemma hex_decode_length: "hex_decode s = Ok t \<Longrightarrow> length s = 2 * length t"
  by (induction s arbitrary: t rule: hex_decode.induct)
    (auto simp: res_simps split: option.splits)

lemma hex_decode_not_panic [simp]: "hex_decode s \<noteq> Panic p"
  by (induction s rule: hex_decode.induct) (auto simp: res_simps split: option.splits)

section \<open>Base 64\<close>

definition b64_val :: "char \<Rightarrow> nat option" where
  "b64_val c =
     (let n = of_char c
      in if 65 \<le> n \<and> n \<le> 90 then Some (n - 65)
         else if 97 \<le> n \<and> n \<le> 122 then Some (n - 71)
         else if 48 \<le> n \<and> n \<le> 57 then Some (n + 4)
         else if c = CHR ''+'' then Some 62
         else if c = CHR ''/'' then Some 63
         else None)"

fun b64_groups :: "string \<Rightarrow> string option" where
  "b64_groups [] = Some []"
| "b64_groups (a # b # c # d # s) =
     (case (b64_val a, b64_val b) of
        (Some w, Some x) \<Rightarrow>
          (if c = CHR ''='' then
             (if d = CHR ''='' \<and> s = [] then Some [char_of (4 * w + x div 16)] else None)
           else case b64_val c of
             None \<Rightarrow> None
           | Some y \<Rightarrow>
               (if d = CHR ''='' then
                  (if s = [] then Some [char_of (4 * w + x div 16), char_of (16 * (x mod 16) + y div 4)]
                   else None)
                else case (b64_val d, b64_groups s) of
                  (Some z, Some t) \<Rightarrow>
                    Some (char_of (4 * w + x div 16) # char_of (16 * (x mod 16) + y div 4) #
                          char_of (64 * (y mod 4) + z) # t)
                | _ \<Rightarrow> None))
      | _ \<Rightarrow> None)"
| "b64_groups _ = None"

text \<open>\<open>base64.StdEncoding.DecodeString\<close> skips line ends; \<open>corrupt_at\<close> is the offset that its
  error names.\<close>

definition base64_decode :: "(string \<Rightarrow> nat) \<Rightarrow> string \<Rightarrow> string res" where
  "base64_decode corrupt_at s =
     (case b64_groups (filter (\<lambda>c. c \<noteq> newline \<and> c \<noteq> CHR 0x0D) s) of
        Some t \<Rightarrow> Ok t
      | None \<Rightarrow> Fail (Err (''illegal base64 data at input byte '' @ itoa (int (corrupt_at s)))))"

lemma base64_decode_not_panic [simp]: "base64_decode k s \<noteq> Panic p"
  by (simp add: base64_decode_def split: option.splits)

definition b64_char :: "nat \<Rightarrow> char" where
  "b64_char n =
     (if n < 26 then char_of (65 + n) else if n < 52 then char_of (71 + n) else if n < 62 then char_of (n - 4)
      else if n = 62 then CHR ''+'' else CHR ''/'')"

fun base64_encode :: "string \<Rightarrow> string" where
  "base64_encode [] = []"
| "base64_encode [a] =
     (let x = of_char a :: nat in [b64_char (x div 4), b64_char (16 * (x mod 4))] @ ''=='')"
| "base64_encode [a, b] =
     (let x = of_char a :: nat; y = of_char b
      in [b64_char (x div 4), b64_char (16 * (x mod 4) + y div 16), b64_char (4 * (y mod 16))] @ ''='')"
| "base64_encode (a # b # c # s) =
     (let x = of_char a :: nat; y = of_char b; z = of_char c
      in [b64_char (x div 4), b64_char (16 * (x mod 4) + y div 16), b64_char (4 * (y mod 16) + z div 64),
          b64_char (z mod 64)] @ base64_encode s)"

text \<open>\<open>pem.Encode\<close> of a block without headers: lines of 64 characters.\<close>

function pem_lines :: "string \<Rightarrow> string" where
  "pem_lines s = (if s = [] then [] else take 64 s @ newline # pem_lines (drop 64 s))"
  by auto
termination
  by (relation "measure length") auto

declare pem_lines.simps [simp del]

definition pem_encode :: "string \<Rightarrow> string \<Rightarrow> string" where
  "pem_encode blockType bytes =
     ''-----BEGIN '' @ blockType @ ''-----'' @ [newline] @ pem_lines (base64_encode bytes) @
     ''-----END '' @ blockType @ ''-----'' @ [newline]"

section \<open>Big-endian integers\<close>

text \<open>\<open>binary.BigEndian.PutUint32\<close> and \<open>Uint32\<close>.\<close>

definition put_uint32 :: "int \<Rightarrow> string" where
  "put_uint32 n =
     map (\<lambda>k. char_of (n div 256 ^ k mod 256)) [3, 2, 1, 0]"

definition get_uint32 :: "string \<Rightarrow> int" where
  "get_uint32 s = fold (\<lambda>c n. 256 * n + of_char c) (take 4 s) 0"

lemma put_uint32_length [simp]: "length (put_uint32 n) = 4"
  by (simp add: put_uint32_def)

lemma get_put_uint32: "0 \<le> n \<Longrightarrow> n < 4294967296 \<Longrightarrow> get_uint32 (put_uint32 n) = n"
proof -
  assume n: "0 \<le> n" "n < 4294967296"
  have step: "256 * (n div (256 * k)) + n div k mod 256 = n div k" if "0 < k" for k
    using that mult_div_mod_eq [of 256 "n div k"]
    by (simp add: zdiv_zmult2_eq mult.commute [of 256 k])
  show ?thesis
    using n step [of 65536] step [of 256] step [of 1]
    by (simp add: get_uint32_def put_uint32_def)
qed

text \<open>\<open>%v\<close> of a byte slice.\<close>

definition fmt_bytes :: "string \<Rightarrow> string" where
  "fmt_bytes bs = ''['' @ join '' '' (map (\<lambda>c. itoa (of_char c)) bs) @ '']''"

end
