(* ===== verification/Extensions.thy ===== *)
theory Extensions
  imports GoStrings "HOL-Library.AList"
begin

text \<open>
  \<open>pkg/fulcio/extensions/extensions.go\<close>: the object identifiers of the Fulcio certificate
  extensions, the configuration's three kinds of matchers and their rendering into one list of
  object identifiers with the values to match. A Go map is an association list with distinct
  keys; \<open>ordK\<close> and \<open>ordV\<close> are the orders in which one run ranges over the outer and the
  inner maps.
\<close>

section \<open>Object identifiers\<close>

type_synonym ObjectIdentifier = "int64 list"

text \<open>\<open>asn1.ObjectIdentifier.String\<close>\<close>

definition oid_String :: "ObjectIdentifier \<Rightarrow> string" where
  "oid_String oid = join ''.'' (map itoa oid)"

definition fulcioOIDPrefix :: "int64 list" where
  "fulcioOIDPrefix = [1, 3, 6, 1, 4, 1, 57264]"

definition createFulcioOID :: "int64 list \<Rightarrow> ObjectIdentifier" where
  "createFulcioOID ext = fulcioOIDPrefix @ ext"

definition OIDIssuer :: ObjectIdentifier where
  "OIDIssuer = createFulcioOID [1, 1]"

definition OIDGitHubWorkflowTrigger :: ObjectIdentifier where
  "OIDGitHubWorkflowTrigger = createFulcioOID [1, 2]"

definition OIDGitHubWorkflowSHA :: ObjectIdentifier where
  "OIDGitHubWorkflowSHA = createFulcioOID [1, 3]"

definition OIDGitHubWorkflowName :: ObjectIdentifier where
  "OIDGitHubWorkflowName = createFulcioOID [1, 4]"

definition OIDGitHubWorkflowRepository :: ObjectIdentifier where
  "OIDGitHubWorkflowRepository = createFulcioOID [1, 5]"

definition OIDGitHubWorkflowRef :: ObjectIdentifier where
  "OIDGitHubWorkflowRef = createFulcioOID [1, 6]"

definition OIDOtherName :: ObjectIdentifier where
  "OIDOtherName = createFulcioOID [1, 7]"

definition OIDIssuerV2 :: ObjectIdentifier where
  "OIDIssuerV2 = createFulcioOID [1, 8]"

definition OIDBuildSignerURI :: ObjectIdentifier where
  "OIDBuildSignerURI = createFulcioOID [1, 9]"

definition OIDBuildSignerDigest :: ObjectIdentifier where
  "OIDBuildSignerDigest = createFulcioOID [1, 10]"

definition OIDRunnerEnvironment :: ObjectIdentifier where
  "OIDRunnerEnvironment = createFulcioOID [1, 11]"

definition OIDSourceRepositoryURI :: ObjectIdentifier where
  "OIDSourceRepositoryURI = createFulcioOID [1, 12]"

definition OIDSourceRepositoryDigest :: ObjectIdentifier where
  "OIDSourceRepositoryDigest = createFulcioOID [1, 13]"

definition OIDSourceRepositoryRef :: ObjectIdentifier where
  "OIDSourceRepositoryRef = createFulcioOID [1, 14]"

definition OIDSourceRepositoryIdentifier :: ObjectIdentifier where
  "OIDSourceRepositoryIdentifier = createFulcioOID [1, 15]"

definition OIDSourceRepositoryOwnerURI :: ObjectIdentifier where
  "OIDSourceRepositoryOwnerURI = createFulcioOID [1, 16]"

definition OIDSourceRepositoryOwnerIdentifier :: ObjectIdentifier where
  "OIDSourceRepositoryOwnerIdentifier = createFulcioOID [1, 17]"

definition OIDBuildConfigURI :: ObjectIdentifier where
  "OIDBuildConfigURI = createFulcioOID [1, 18]"

definition OIDBuildConfigDigest :: ObjectIdentifier where
  "OIDBuildConfigDigest = createFulcioOID [1, 19]"

definition OIDBuildTrigger :: ObjectIdentifier where
  "OIDBuildTrigger = createFulcioOID [1, 20]"

definition OIDRunInvocationURI :: ObjectIdentifier where
  "OIDRunInvocationURI = createFulcioOID [1, 21]"

definition OIDSourceRepositoryVisibilityAtSigning :: ObjectIdentifier where
  "OIDSourceRepositoryVisibilityAtSigning = createFulcioOID [1, 22]"

lemmas oid_defs =
  OIDIssuer_def OIDGitHubWorkflowTrigger_def OIDGitHubWorkflowSHA_def
  OIDGitHubWorkflowName_def OIDGitHubWorkflowRepository_def OIDGitHubWorkflowRef_def
  OIDOtherName_def OIDIssuerV2_def OIDBuildSignerURI_def OIDBuildSignerDigest_def
  OIDRunnerEnvironment_def OIDSourceRepositoryURI_def OIDSourceRepositoryDigest_def
  OIDSourceRepositoryRef_def OIDSourceRepositoryIdentifier_def
  OIDSourceRepositoryOwnerURI_def OIDSourceRepositoryOwnerIdentifier_def
  OIDBuildConfigURI_def OIDBuildConfigDigest_def OIDBuildTrigger_def
  OIDRunInvocationURI_def OIDSourceRepositoryVisibilityAtSigning_def createFulcioOID_def
  fulcioOIDPrefix_def

section \<open>Configured matchers\<close>

record FulcioExtensions =
  fe_Issuer :: "string list"
  fe_GithubWorkflowTrigger :: "string list"
  fe_GithubWorkflowSHA :: "string list"
  fe_GithubWorkflowName :: "string list"
  fe_GithubWorkflowRepository :: "string list"
  fe_GithubWorkflowRef :: "string list"
  fe_BuildSignerURI :: "string list"
  fe_BuildSignerDigest :: "string list"
  fe_RunnerEnvironment :: "string list"
  fe_SourceRepositoryURI :: "string list"
  fe_SourceRepositoryDigest :: "string list"
  fe_SourceRepositoryRef :: "string list"
  fe_SourceRepositoryIdentifier :: "string list"
  fe_SourceRepositoryOwnerURI :: "string list"
  fe_SourceRepositoryOwnerIdentifier :: "string list"
  fe_BuildConfigURI :: "string list"
  fe_BuildConfigDigest :: "string list"
  fe_BuildTrigger :: "string list"
  fe_RunInvocationURI :: "string list"
  fe_SourceRepositoryVisibilityAtSigning :: "string list"

record OIDExtension =
  oe_ObjectIdentifier :: ObjectIdentifier
  oe_ExtensionValues :: "string list"

record CustomExtension =
  ce_ObjectIdentifier :: string
  ce_ExtensionValues :: "string list"

record OIDMatchers =
  om_OIDExtensions :: "OIDExtension list"
  om_FulcioExtensions :: FulcioExtensions
  om_CustomExtensions :: "CustomExtension list"

text \<open>\<open>if len(vals) != 0 { exts = append(exts, OIDExtension{oid, vals}) }\<close>\<close>

definition fulcio_matcher :: "ObjectIdentifier \<Rightarrow> string list \<Rightarrow> OIDExtension list" where
  "fulcio_matcher oid vals =
     (if length vals \<noteq> 0
      then [\<lparr>oe_ObjectIdentifier = oid, oe_ExtensionValues = vals\<rparr>] else [])"

definition RenderFulcioOIDMatchers :: "FulcioExtensions \<Rightarrow> OIDExtension list" where
  "RenderFulcioOIDMatchers e =
     fulcio_matcher OIDIssuer (fe_Issuer e) @
     fulcio_matcher OIDGitHubWorkflowTrigger (fe_GithubWorkflowTrigger e) @
     fulcio_matcher OIDGitHubWorkflowSHA (fe_GithubWorkflowSHA e) @
     fulcio_matcher OIDGitHubWorkflowName (fe_GithubWorkflowName e) @
     fulcio_matcher OIDGitHubWorkflowRepository (fe_GithubWorkflowRepository e) @
     fulcio_matcher OIDGitHubWorkflowRef (fe_GithubWorkflowRef e) @
     fulcio_matcher OIDIssuerV2 (fe_Issuer e) @
     fulcio_matcher OIDBuildSignerURI (fe_BuildSignerURI e) @
     fulcio_matcher OIDBuildSignerDigest (fe_BuildSignerDigest e) @
     fulcio_matcher OIDRunnerEnvironment (fe_RunnerEnvironment e) @
     fulcio_matcher OIDSourceRepositoryURI (fe_SourceRepositoryURI e) @
     fulcio_matcher OIDSourceRepositoryDigest (fe_SourceRepositoryDigest e) @
     fulcio_matcher OIDSourceRepositoryRef (fe_SourceRepositoryRef e) @
     fulcio_matcher OIDSourceRepositoryIdentifier (fe_SourceRepositoryIdentifier e) @
     fulcio_matcher OIDSourceRepositoryOwnerURI (fe_SourceRepositoryOwnerURI e) @
     fulcio_matcher OIDSourceRepositoryOwnerIdentifier (fe_SourceRepositoryOwnerIdentifier e) @
     fulcio_matcher OIDBuildConfigURI (fe_BuildConfigURI e) @
     fulcio_matcher OIDBuildConfigDigest (fe_BuildConfigDigest e) @
     fulcio_matcher OIDBuildTrigger (fe_BuildTrigger e) @
     fulcio_matcher OIDRunInvocationURI (fe_RunInvocationURI e) @
     fulcio_matcher OIDSourceRepositoryVisibilityAtSigning (fe_SourceRepositoryVisibilityAtSigning e)"

section \<open>Parsing\<close>

definition ParseObjectIdentifier :: "string \<Rightarrow> ObjectIdentifier res" where
  "ParseObjectIdentifier oid =
     (if length oid = 0
      then Fail (Err ''could not parse object identifier: empty input'')
      else rmap (\<lambda>node.
             if trim_space node = []
             then Fail (Err ''could not parse object identifier: no characters between two dots'')
             else atoi node) (split_on CHR ''.'' oid))"

section \<open>Rendering\<close>

text \<open>A \<open>map[string]bool\<close> whose values are all true is the list of its keys.\<close>

definition value_set :: "string list \<Rightarrow> string list" where
  "value_set vals = fold (\<lambda>v m. if v \<in> set m then m else m @ [v]) vals []"

text \<open>\<open>oidMap[k] = make(map[string]bool)\<close> followed by the insertion of \<open>vals\<close>.\<close>

definition put_values :: "string \<Rightarrow> string list \<Rightarrow> (string \<times> string list) list \<Rightarrow> (string \<times> string list) list"
where
  "put_values k vals oidMap = AList.update k (value_set vals) oidMap"

definition oid_map :: "OIDMatchers \<Rightarrow> (string \<times> string list) list" where
  "oid_map oidMatchers =
     (let fulcioOIDMatchers = RenderFulcioOIDMatchers (om_FulcioExtensions oidMatchers);
          put = (\<lambda>m. put_values (oid_String (oe_ObjectIdentifier m)) (oe_ExtensionValues m));
          m1 = fold put (om_OIDExtensions oidMatchers) [];
          m2 = fold put fulcioOIDMatchers m1
      in fold (\<lambda>c. put_values (ce_ObjectIdentifier c) (ce_ExtensionValues c))
           (om_CustomExtensions oidMatchers) m2)"

definition RenderOIDMatchers ::
  "((string \<times> string list) list \<Rightarrow> (string \<times> string list) list) \<Rightarrow> (string list \<Rightarrow> string list) \<Rightarrow>
   OIDMatchers \<Rightarrow> OIDExtension list res"
where
  "RenderOIDMatchers ordK ordV oidMatchers =
     rmap (\<lambda>(oidExtension, extValueMap).
         rbind (rwrap ''error parsing OID from extension: '' (ParseObjectIdentifier oidExtension))
           (\<lambda>parsedOID. Ok \<lparr>oe_ObjectIdentifier = parsedOID,
              oe_ExtensionValues = ordV extValueMap\<rparr>))
       (ordK (oid_map oidMatchers))"

section \<open>Lemmas\<close>

lemma itoa_no_dot: "CHR ''.'' \<notin> set (itoa i)"
  using itoa_chars not_is_digit by fastforce

lemma oid_String_nonempty [simp]: "oid_String oid = [] \<longleftrightarrow> oid = []"
proof (cases oid)
  case (Cons a list)
  then show ?thesis by (cases list) (auto simp: oid_String_def)
qed (simp add: oid_String_def)

lemma parse_oid_String:
  assumes "oid \<noteq> []" and "\<And>n. n \<in> set oid \<Longrightarrow> int64_range n"
  shows "ParseObjectIdentifier (oid_String oid) = Ok oid"
proof -
  have "split_on CHR ''.'' (oid_String oid) = map itoa oid"
    unfolding oid_String_def using assms(1) by (intro split_on_join) (auto simp: itoa_no_dot)
  then show ?thesis
    using assms by (simp add: ParseObjectIdentifier_def rmap_pure [where g = "\<lambda>x. x"] atoi_itoa
        comp_def)
qed

lemma parse_oid_range: "ParseObjectIdentifier s = Ok oid \<Longrightarrow> n \<in> set oid \<Longrightarrow> int64_range n"
proof -
  assume "ParseObjectIdentifier s = Ok oid" and n: "n \<in> set oid"
  then have "list_all2 (\<lambda>node n. atoi node = Ok n) (split_on CHR ''.'' s) oid"
    by (auto simp: ParseObjectIdentifier_def rmap_Ok_iff split: if_splits elim: list_all2_mono)
  then show "int64_range n"
    using n by (induction rule: list_all2_induct) (auto dest: atoi_range)
qed

lemma value_set_aux:
  "set (fold (\<lambda>v m. if v \<in> set m then m else m @ [v]) vals acc) = set vals \<union> set acc"
  "distinct acc \<Longrightarrow> distinct (fold (\<lambda>v m. if v \<in> set m then m else m @ [v]) vals acc)"
  by (induction vals arbitrary: acc) auto

lemma parse_not_panic [simp]: "ParseObjectIdentifier s \<noteq> Panic p"
  by (auto simp: ParseObjectIdentifier_def dest!: rmap_Panic split: if_splits)

lemma set_value_set [simp]: "set (value_set vals) = set vals"
  by (simp add: value_set_def value_set_aux)

lemma distinct_value_set [simp]: "distinct (value_set vals)"
  by (simp add: value_set_def value_set_aux)

text \<open>All the configured pairs of an object identifier's text and its values, in the order in
  which they are put into the map.\<close>

definition matcher_pairs :: "OIDMatchers \<Rightarrow> (string \<times> string list) list" where
  "matcher_pairs om =
     map (\<lambda>m. (oid_String (oe_ObjectIdentifier m), oe_ExtensionValues m))
       (om_OIDExtensions om @ RenderFulcioOIDMatchers (om_FulcioExtensions om)) @
     map (\<lambda>c. (ce_ObjectIdentifier c, ce_ExtensionValues c)) (om_CustomExtensions om)"

lemma fold_put_map: "fold (\<lambda>m. put_values (f m) (g m)) xs acc = fold (\<lambda>(k, v). put_values k v) (map (\<lambda>m. (f m, g m)) xs) acc"
  by (induction xs arbitrary: acc) auto

lemma oid_map_pairs: "oid_map om = fold (\<lambda>(k, v). put_values k v) (matcher_pairs om) []"
  by (simp add: oid_map_def matcher_pairs_def fold_put_map Let_def)

lemma fold_put_lookup:
  "map_of (fold (\<lambda>(k, v). put_values k v) ps acc) k =
     (case map_of (rev ps) k of Some vs \<Rightarrow> Some (value_set vs) | None \<Rightarrow> map_of acc k)"
  by (induction ps arbitrary: acc)
    (auto simp: put_values_def update_conv' map_add_def split: option.splits)

lemma fold_put_distinct:
  "distinct (map fst acc) \<Longrightarrow> distinct (map fst (fold (\<lambda>(k, v). put_values k v) ps acc))"
  by (induction ps arbitrary: acc) (auto simp: put_values_def distinct_update)

lemma fold_put_keys:
  "fst ` set (fold (\<lambda>(k, v). put_values k v) ps acc) = fst ` set ps \<union> fst ` set acc"
  by (induction ps arbitrary: acc) (simp_all add: put_values_def dom_update split_beta)

lemma distinct_oid_map: "distinct (map fst (oid_map om))"
  by (simp add: oid_map_pairs fold_put_distinct)

lemma oid_map_in:
  "(k, vs) \<in> set (oid_map om) \<longleftrightarrow>
     (\<exists>us. map_of (rev (matcher_pairs om)) k = Some us \<and> vs = value_set us)"
proof -
  have "(k, vs) \<in> set (oid_map om) \<longleftrightarrow> map_of (oid_map om) k = Some vs"
    by (simp add: distinct_oid_map)
  then show ?thesis
    by (auto simp: oid_map_pairs fold_put_lookup split: option.splits)
qed

lemma length_oid_map: "length (oid_map om) = card (fst ` set (matcher_pairs om))"
proof -
  have "card (set (map fst (oid_map om))) = length (map fst (oid_map om))"
    by (rule distinct_card) (rule distinct_oid_map)
  then show ?thesis by (simp add: oid_map_pairs fold_put_keys)
qed

lemma fulcio_matcher_in:
  "m \<in> set (fulcio_matcher oid vals) \<Longrightarrow>
     oe_ObjectIdentifier m = oid \<and> oe_ExtensionValues m = vals \<and> vals \<noteq> []"
  by (auto simp: fulcio_matcher_def split: if_splits)

text \<open>Every matcher that is rendered for Fulcio has an object identifier under the Fulcio
  prefix, and no two have the same one.\<close>

definition fulcio_oids :: "ObjectIdentifier list" where
  "fulcio_oids =
     [OIDIssuer, OIDGitHubWorkflowTrigger, OIDGitHubWorkflowSHA, OIDGitHubWorkflowName,
      OIDGitHubWorkflowRepository, OIDGitHubWorkflowRef, OIDIssuerV2, OIDBuildSignerURI,
      OIDBuildSignerDigest, OIDRunnerEnvironment, OIDSourceRepositoryURI,
      OIDSourceRepositoryDigest, OIDSourceRepositoryRef, OIDSourceRepositoryIdentifier,
      OIDSourceRepositoryOwnerURI, OIDSourceRepositoryOwnerIdentifier, OIDBuildConfigURI,
      OIDBuildConfigDigest, OIDBuildTrigger, OIDRunInvocationURI,
      OIDSourceRepositoryVisibilityAtSigning]"

lemma distinct_fulcio_oids: "distinct fulcio_oids"
  by (simp add: fulcio_oids_def oid_defs)

lemma fulcio_oids_range: "oid \<in> set fulcio_oids \<Longrightarrow> oid \<noteq> [] \<and> (\<forall>n \<in> set oid. int64_range n)"
  by (auto simp: fulcio_oids_def oid_defs int64_range_def)

lemma subseq_fulcio_matcher: "subseq xs ys \<Longrightarrow>
  subseq (map oe_ObjectIdentifier (fulcio_matcher oid vals) @ xs) (oid # ys)"
  by (simp add: fulcio_matcher_def list_emb_Cons)

lemma rendered_oids: "subseq (map oe_ObjectIdentifier (RenderFulcioOIDMatchers e)) fulcio_oids"
  unfolding RenderFulcioOIDMatchers_def fulcio_oids_def map_append append_assoc
  by (intro subseq_fulcio_matcher) (simp add: fulcio_matcher_def)

lemma subseq_set_distinct:
  "subseq xs ys \<Longrightarrow> set xs \<subseteq> set ys \<and> (distinct ys \<longrightarrow> distinct xs)"
  by (induction rule: list_emb.induct) auto

lemma distinct_rendered: "distinct (map oe_ObjectIdentifier (RenderFulcioOIDMatchers e))"
  using subseq_set_distinct [OF rendered_oids] distinct_fulcio_oids by blast

lemma rendered_oid_in:
  "m \<in> set (RenderFulcioOIDMatchers e) \<Longrightarrow> oe_ObjectIdentifier m \<in> set fulcio_oids"
  using subseq_set_distinct [OF rendered_oids [of e]] by auto

lemma rendered_parse:
  "m \<in> set (RenderFulcioOIDMatchers e) \<Longrightarrow>
   ParseObjectIdentifier (oid_String (oe_ObjectIdentifier m)) = Ok (oe_ObjectIdentifier m)"
  using fulcio_oids_range [OF rendered_oid_in] by (intro parse_oid_String) auto

lemma inj_fulcio_String: "inj_on oid_String (set fulcio_oids)"
  using fulcio_oids_range
  by (intro inj_on_inverseI [where g = "\<lambda>s. case ParseObjectIdentifier s of Ok oid \<Rightarrow> oid"])
    (simp add: parse_oid_String)

lemma distinct_rendered_String:
  "distinct (map (\<lambda>m. oid_String (oe_ObjectIdentifier m)) (RenderFulcioOIDMatchers e))"
proof -
  have "distinct (map oid_String (map oe_ObjectIdentifier (RenderFulcioOIDMatchers e)))"
    by (subst distinct_map)
      (auto simp: distinct_rendered intro!: inj_on_subset [OF inj_fulcio_String] rendered_oid_in)
  then show ?thesis by (simp add: comp_def)
qed

section \<open>A small configuration\<close>

definition no_fulcio :: FulcioExtensions where
  "no_fulcio = \<lparr>fe_Issuer = [], fe_GithubWorkflowTrigger = [], fe_GithubWorkflowSHA = [],
     fe_GithubWorkflowName = [], fe_GithubWorkflowRepository = [], fe_GithubWorkflowRef = [],
     fe_BuildSignerURI = [], fe_BuildSignerDigest = [], fe_RunnerEnvironment = [],
     fe_SourceRepositoryURI = [], fe_SourceRepositoryDigest = [], fe_SourceRepositoryRef = [],
     fe_SourceRepositoryIdentifier = [], fe_SourceRepositoryOwnerURI = [], fe_SourceRepositoryOwnerIdentifier = [],
     fe_BuildConfigURI = [], fe_BuildConfigDigest = [], fe_BuildTrigger = [],
     fe_RunInvocationURI = [], fe_SourceRepositoryVisibilityAtSigning = []\<rparr>"

definition demo_matchers :: OIDMatchers where
  "demo_matchers =
     \<lparr>om_OIDExtensions = [\<lparr>oe_ObjectIdentifier = [1, 2], oe_ExtensionValues = [''a'']\<rparr>],
      om_FulcioExtensions = no_fulcio,
      om_CustomExtensions =
        [\<lparr>ce_ObjectIdentifier = ''1.2'', ce_ExtensionValues = [''b'']\<rparr>,
         \<lparr>ce_ObjectIdentifier = ''1.3'', ce_ExtensionValues = [''c'', ''c'']\<rparr>]\<rparr>"

lemma demo_no_fulcio: "RenderFulcioOIDMatchers no_fulcio = []"
  by (simp add: RenderFulcioOIDMatchers_def no_fulcio_def fulcio_matcher_def)

lemma demo_parse:
  "oid_String [1, 2] = ''1.2''" "ParseObjectIdentifier ''1.2'' = Ok [1, 2]"
  "ParseObjectIdentifier ''1.3'' = Ok [1, 3]"
proof -
  show s: "oid_String [1, 2] = ''1.2''"
    by (simp add: oid_String_def itoa_def show_nat.simps)
  have "oid_String [1, 3] = ''1.3''"
    by (simp add: oid_String_def itoa_def show_nat.simps)
  moreover have "ParseObjectIdentifier (oid_String [1, 2]) = Ok [1, 2]"
    "ParseObjectIdentifier (oid_String [1, 3]) = Ok [1, 3]"
    by (rule parse_oid_String; auto simp: int64_range_def)+
  ultimately show "ParseObjectIdentifier ''1.2'' = Ok [1, 2]"
    "ParseObjectIdentifier ''1.3'' = Ok [1, 3]"
    using s by simp_all
qed

text \<open>What is rendered: one matcher for each key, with the values of its last pair.\<close>

lemma RenderOIDMatchers_in:
  assumes "range_order ordK" and "RenderOIDMatchers ordK ordV om = Ok ms"
  shows "m \<in> set ms \<longleftrightarrow> (\<exists>k us oid. map_of (rev (matcher_pairs om)) k = Some us \<and>
      ParseObjectIdentifier k = Ok oid \<and>
      m = \<lparr>oe_ObjectIdentifier = oid, oe_ExtensionValues = ordV (value_set us)\<rparr>)"
    and "length ms = card (fst ` set (matcher_pairs om))"
proof -
  let ?f = "\<lambda>(k, vs). rbind (rwrap ''error parsing OID from extension: '' (ParseObjectIdentifier k))
      (\<lambda>oid. Ok \<lparr>oe_ObjectIdentifier = oid, oe_ExtensionValues = ordV vs\<rparr>)"
  have all2: "list_all2 (\<lambda>p m. ?f p = Ok m) (ordK (oid_map om)) ms"
    using assms(2) by (simp add: RenderOIDMatchers_def rmap_Ok_iff)
  then show "length ms = card (fst ` set (matcher_pairs om))"
    using length_oid_map range_order_length [OF assms(1)] by (metis list_all2_lengthD)
  have "m \<in> set ms \<longleftrightarrow> (\<exists>p \<in> set (oid_map om). ?f p = Ok m)"
    using list_all2_Ok_set [OF all2] range_order_set [OF assms(1)] by simp
  also have "\<dots> \<longleftrightarrow> (\<exists>k vs. (k, vs) \<in> set (oid_map om) \<and> ?f (k, vs) = Ok m)"
    by (simp add: Bex_def split_paired_Ex)
  finally show "m \<in> set ms \<longleftrightarrow> (\<exists>k us oid. map_of (rev (matcher_pairs om)) k = Some us \<and>
      ParseObjectIdentifier k = Ok oid \<and>
      m = \<lparr>oe_ObjectIdentifier = oid, oe_ExtensionValues = ordV (value_set us)\<rparr>)"
    by (auto simp: oid_map_in res_simps)
qed

lemma RenderOIDMatchers_values:
  assumes "range_order ordK" and "range_order ordV" and "RenderOIDMatchers ordK ordV om = Ok ms"
  shows "(\<exists>m \<in> set ms. oe_ObjectIdentifier m = oid \<and> set (oe_ExtensionValues m) = V) \<longleftrightarrow>
      (\<exists>k vs. map_of (rev (matcher_pairs om)) k = Some vs \<and> ParseObjectIdentifier k = Ok oid \<and> V = set vs)"
    and "m \<in> set ms \<Longrightarrow> distinct (oe_ExtensionValues m)"
proof -
  note ms = RenderOIDMatchers_in(1) [OF assms(1,3)]
  have vals: "set (ordV (value_set us)) = set us" "distinct (ordV (value_set us))" for us
    using assms(2) by (simp_all add: range_order_set range_order_distinct)
  show "(\<exists>m \<in> set ms. oe_ObjectIdentifier m = oid \<and> set (oe_ExtensionValues m) = V) \<longleftrightarrow>
      (\<exists>k vs. map_of (rev (matcher_pairs om)) k = Some vs \<and> ParseObjectIdentifier k = Ok oid \<and> V = set vs)"
    by (auto simp: ms vals Bex_def) (metis OIDExtension.select_convs vals(1))+
  show "distinct (oe_ExtensionValues m)" if "m \<in> set ms"
    using that vals(2) unfolding ms by auto
qed

lemma RenderOIDMatchers_Fail:
  assumes "range_order ordK" and "RenderOIDMatchers ordK ordV om = Fail e"
  shows "\<exists>k \<in> fst ` set (matcher_pairs om). \<exists>d. ParseObjectIdentifier k = Fail d \<and>
    e = Errorf ''error parsing OID from extension: '' d"
proof -
  obtain k vs where "(k, vs) \<in> set (oid_map om)" and
    "rbind (rwrap ''error parsing OID from extension: '' (ParseObjectIdentifier k))
      (\<lambda>oid. Ok \<lparr>oe_ObjectIdentifier = oid, oe_ExtensionValues = ordV vs\<rparr>) = Fail e"
    using assms(2) range_order_set [OF assms(1)] by (auto simp: RenderOIDMatchers_def dest!: rmap_Fail)
  moreover from this(1) have "k \<in> fst ` set (matcher_pairs om)"
    by (metis fold_put_keys fst_conv image_eqI oid_map_pairs sup_bot_right image_empty list.set(1))
  ultimately show ?thesis by (auto simp: res_simps)
qed

lemma RenderOIDMatchers_no_panic: "RenderOIDMatchers ordK ordV om \<noteq> Panic p"
proof
  assume "RenderOIDMatchers ordK ordV om = Panic p"
  then obtain k where "ParseObjectIdentifier k = Panic p"
    by (auto simp: RenderOIDMatchers_def res_simps dest!: rmap_Panic)
  then show False by simp
qed

section \<open>Properties\<close>

text \<open>C37. Parsing the dot notation that \<open>ObjectIdentifier.String\<close> prints gives back the object
  identifier, for every identifier but the empty one.\<close>

theorem parse_print_roundtrip:
  assumes "oid \<noteq> []" and "\<forall>n \<in> set oid. int64_range n"
  shows "ParseObjectIdentifier (oid_String oid) = Ok oid"
  using assms by (intro parse_oid_String) auto

theorem parse_print_roundtrip_witness:
  "ParseObjectIdentifier ''1.3.6.1.4.1.57264.1.9'' = Ok OIDBuildSignerURI"
proof -
  have r: "OIDBuildSignerURI \<noteq> []" "\<forall>n \<in> set OIDBuildSignerURI. int64_range n"
    by (simp_all add: oid_defs int64_range_def)
  have "oid_String OIDBuildSignerURI = ''1.3.6.1.4.1.57264.1.9''"
    by (simp add: oid_defs oid_String_def itoa_def show_nat.simps)
  then show ?thesis using parse_print_roundtrip [OF r] by simp
qed

text \<open>C36. What \<open>RenderOIDMatchers\<close> returns, in whatever order the maps are ranged over: one
  matcher for each distinct object identifier text that is configured, with the parsed
  identifier and, without duplicates, exactly the values of the last entry configured for
  that text; it fails exactly if one of the texts does not parse.\<close>

theorem render_matchers_spec:
  assumes "range_order ordK" and "range_order ordV"
  shows "case RenderOIDMatchers ordK ordV om of
      Ok ms \<Rightarrow>
        (\<forall>oid V. (\<exists>m \<in> set ms. oe_ObjectIdentifier m = oid \<and> set (oe_ExtensionValues m) = V) \<longleftrightarrow>
           (\<exists>k vs. map_of (rev (matcher_pairs om)) k = Some vs \<and>
              ParseObjectIdentifier k = Ok oid \<and> V = set vs)) \<and>
        length ms = card (fst ` set (matcher_pairs om)) \<and>
        (\<forall>m \<in> set ms. distinct (oe_ExtensionValues m))
    | Fail e \<Rightarrow> \<exists>k \<in> fst ` set (matcher_pairs om). \<exists>d. ParseObjectIdentifier k = Fail d \<and>
        e = Errorf ''error parsing OID from extension: '' d
    | Panic s \<Rightarrow> False"
  using RenderOIDMatchers_in(2) [OF assms(1)] RenderOIDMatchers_values [OF assms]
    RenderOIDMatchers_Fail [OF assms(1)] RenderOIDMatchers_no_panic
  by (auto split: res.splits)

theorem render_matchers_spec_witness:
  "\<exists>ms. RenderOIDMatchers rev rev demo_matchers = Ok ms \<and>
     (\<forall>m \<in> set ms. distinct (oe_ExtensionValues m)) \<and>
     length ms = card (fst ` set (matcher_pairs demo_matchers)) \<and>
     (\<exists>m \<in> set ms. oe_ObjectIdentifier m = [1, 2] \<and> set (oe_ExtensionValues m) = {''b''})"
proof -
  have run: "RenderOIDMatchers rev rev demo_matchers =
      Ok [\<lparr>oe_ObjectIdentifier = [1, 3], oe_ExtensionValues = [''c'']\<rparr>,
          \<lparr>oe_ObjectIdentifier = [1, 2], oe_ExtensionValues = [''b'']\<rparr>]"
    using demo_parse demo_no_fulcio
    by (simp add: RenderOIDMatchers_def demo_matchers_def oid_map_def put_values_def value_set_def)
  show ?thesis
    using render_matchers_spec [OF range_order_rev range_order_rev, of demo_matchers]
    by (simp add: run)
qed

text \<open>Two \<open>oidExtensions\<close> entries for the same object identifier are not merged: the values
  of the first are not monitored.\<close>

theorem render_drops_first_values:
  assumes "oid \<noteq> []" and "\<forall>n \<in> set oid. int64_range n" and "range_order ordK"
  shows "RenderOIDMatchers ordK ordV
      \<lparr>om_OIDExtensions = [\<lparr>oe_ObjectIdentifier = oid, oe_ExtensionValues = vs\<rparr>,
         \<lparr>oe_ObjectIdentifier = oid, oe_ExtensionValues = ws\<rparr>],
       om_FulcioExtensions = no_fulcio, om_CustomExtensions = []\<rparr> =
    Ok [\<lparr>oe_ObjectIdentifier = oid, oe_ExtensionValues = ordV (value_set ws)\<rparr>]"
proof -
  have one: "ordK [x] = [x]" for x
    using assms(3) by (metis mset_single_iff_right range_order_def mset.simps(1,2) mset_single_iff)
  show ?thesis
    using assms(1,2)
    by (simp add: RenderOIDMatchers_def oid_map_def put_values_def one parse_oid_String
        demo_no_fulcio)
qed

theorem render_drops_first_values_witness:
  "RenderOIDMatchers rev rev
      \<lparr>om_OIDExtensions = [\<lparr>oe_ObjectIdentifier = [1, 2], oe_ExtensionValues = [''a'']\<rparr>,
         \<lparr>oe_ObjectIdentifier = [1, 2], oe_ExtensionValues = [''b'']\<rparr>],
       om_FulcioExtensions = no_fulcio, om_CustomExtensions = []\<rparr> =
    Ok [\<lparr>oe_ObjectIdentifier = [1, 2], oe_ExtensionValues = [''b'']\<rparr>]"
  using render_drops_first_values [of "[1, 2]" rev rev "[''a'']" "[''b'']"]
  by (simp add: int64_range_def range_order_rev value_set_def)

text \<open>With Fulcio extensions only, rendering cannot fail: every rendered object identifier
  is one of the Fulcio identifiers, each at most once, and its values are the ones configured.\<close>

theorem render_fulcio_total:
  assumes "range_order ordK" and "range_order ordV"
  shows "\<exists>ms. RenderOIDMatchers ordK ordV
      \<lparr>om_OIDExtensions = [], om_FulcioExtensions = e, om_CustomExtensions = []\<rparr> = Ok ms \<and>
    distinct (map oe_ObjectIdentifier ms) \<and>
    (\<forall>oid V. (\<exists>m \<in> set ms. oe_ObjectIdentifier m = oid \<and> set (oe_ExtensionValues m) = V) \<longleftrightarrow>
       (\<exists>m \<in> set (RenderFulcioOIDMatchers e). oe_ObjectIdentifier m = oid \<and>
          set (oe_ExtensionValues m) = V))"
proof -
  let ?om = "\<lparr>om_OIDExtensions = [], om_FulcioExtensions = e, om_CustomExtensions = []\<rparr>"
  let ?R = "RenderFulcioOIDMatchers e"
  let ?key = "\<lambda>m. oid_String (oe_ObjectIdentifier m)"
  have pairs: "matcher_pairs ?om = map (\<lambda>m. (?key m, oe_ExtensionValues m)) ?R"
    by (simp add: matcher_pairs_def)
  have parse: "ParseObjectIdentifier (?key m) = Ok (oe_ObjectIdentifier m)" if "m \<in> set ?R" for m
    using that by (rule rendered_parse)
  have keys: "distinct (map ?key ?R)" by (rule distinct_rendered_String)
  have look: "map_of (rev (matcher_pairs ?om)) k = Some vs \<longleftrightarrow>
      (\<exists>m \<in> set ?R. k = ?key m \<and> vs = oe_ExtensionValues m)" for k vs
  proof -
    have "distinct (map fst (rev (matcher_pairs ?om)))"
      using keys by (simp add: pairs comp_def rev_map [symmetric] del: rev_map)
    from map_of_eq_Some_iff [OF this] show ?thesis by (auto simp: pairs)
  qed
  show ?thesis
  proof (cases "RenderOIDMatchers ordK ordV ?om")
    case (Ok ms)
    have vals: "(\<exists>m \<in> set ms. oe_ObjectIdentifier m = oid \<and> set (oe_ExtensionValues m) = V) \<longleftrightarrow>
       (\<exists>m \<in> set ?R. oe_ObjectIdentifier m = oid \<and> set (oe_ExtensionValues m) = V)" for oid V
    proof -
      have "(\<exists>m \<in> set ms. oe_ObjectIdentifier m = oid \<and> set (oe_ExtensionValues m) = V) \<longleftrightarrow>
        (\<exists>k vs. (\<exists>m \<in> set ?R. k = ?key m \<and> vs = oe_ExtensionValues m) \<and>
           ParseObjectIdentifier k = Ok oid \<and> V = set vs)"
        using RenderOIDMatchers_values(1) [OF assms Ok] by (simp add: look)
      then show ?thesis using parse by (metis res.inject(1))
    qed
    have "oe_ObjectIdentifier ` set ms = oe_ObjectIdentifier ` set ?R"
      using vals by (auto simp: image_iff) metis+
    moreover have "length ms = length ?R"
    proof -
      have "fst ` set (matcher_pairs ?om) = set (map ?key ?R)"
        by (simp add: pairs image_image)
      then have "card (fst ` set (matcher_pairs ?om)) = length ?R"
        using distinct_card [OF keys] by (simp del: set_map)
      with RenderOIDMatchers_in(2) [OF assms(1) Ok] show ?thesis by simp
    qed
    ultimately have "distinct (map oe_ObjectIdentifier ms)"
      using distinct_rendered by (metis card_distinct distinct_card length_map list.set_map)
    with Ok vals show ?thesis by blast
  next
    case (Fail d)
    then show ?thesis using RenderOIDMatchers_Fail [OF assms(1) Fail] parse by (auto simp: pairs)
  next
    case (Panic s)
    then show ?thesis using RenderOIDMatchers_no_panic by simp
  qed
qed

theorem render_fulcio_total_witness:
  "\<exists>ms. RenderOIDMatchers rev rev
      \<lparr>om_OIDExtensions = [], om_FulcioExtensions = no_fulcio\<lparr>fe_Issuer := [''i'']\<rparr>,
       om_CustomExtensions = []\<rparr> = Ok ms \<and>
    (\<exists>m \<in> set ms. oe_ObjectIdentifier m = OIDIssuer \<and> set (oe_ExtensionValues m) = {''i''}) \<and>
    (\<exists>m \<in> set ms. oe_ObjectIdentifier m = OIDIssuerV2 \<and> set (oe_ExtensionValues m) = {''i''})"
proof -
  have "set (RenderFulcioOIDMatchers (no_fulcio\<lparr>fe_Issuer := [''i'']\<rparr>)) =
      {\<lparr>oe_ObjectIdentifier = OIDIssuer, oe_ExtensionValues = [''i'']\<rparr>,
       \<lparr>oe_ObjectIdentifier = OIDIssuerV2, oe_ExtensionValues = [''i'']\<rparr>}"
    by (simp add: RenderFulcioOIDMatchers_def no_fulcio_def fulcio_matcher_def)
  then show ?thesis
    using render_fulcio_total [OF range_order_rev range_order_rev,
        of "no_fulcio\<lparr>fe_Issuer := [''i'']\<rparr>"] by auto
qed

end
