(* ===== verification/Identity.thy ===== *)
theory Identity
  imports Extensions GoOs
begin

text \<open>
  \<open>pkg/identity/identity.go\<close>: the monitored values, the entries found for them, the grouping of
  found entries by identity, and the policy that decides whether a certificate matches. Regular
  expressions, ASN.1 and X.509 verification are the parameter \<open>certlib\<close>.
\<close>

section \<open>Data\<close>

definition certExtensionOIDCIssuer :: ObjectIdentifier where
  "certExtensionOIDCIssuer = [1, 3, 6, 1, 4, 1, 57264, 1, 1]"

definition certExtensionOIDCIssuerV2 :: ObjectIdentifier where
  "certExtensionOIDCIssuerV2 = [1, 3, 6, 1, 4, 1, 57264, 1, 8]"

record CertificateIdentity =
  ci_CertSubject :: string
  ci_Issuers :: "string list"

record MonitoredValues =
  mv_CertificateIdentities :: "CertificateIdentity list"
  mv_Fingerprints :: "string list"
  mv_Subjects :: "string list"
  mv_OIDMatchers :: "OIDExtension list"

type_synonym MatchedIdentityType = string

definition MatchedIdentityTypeCertSubject :: MatchedIdentityType where
  "MatchedIdentityTypeCertSubject = ''certSubject''"

definition MatchedIdentityTypeExtensionValue :: MatchedIdentityType where
  "MatchedIdentityTypeExtensionValue = ''extensionValue''"

definition MatchedIdentityTypeFingerprint :: MatchedIdentityType where
  "MatchedIdentityTypeFingerprint = ''fingerprint''"

definition MatchedIdentityTypeSubject :: MatchedIdentityType where
  "MatchedIdentityTypeSubject = ''subject''"

lemmas identity_type_defs =
  MatchedIdentityTypeCertSubject_def MatchedIdentityTypeExtensionValue_def
  MatchedIdentityTypeFingerprint_def MatchedIdentityTypeSubject_def

record LogEntry =
  le_MatchedIdentity :: string
  le_MatchedIdentityType :: MatchedIdentityType
  le_CertSubject :: string
  le_Issuer :: string
  le_Fingerprint :: string
  le_Subject :: string
  le_Index :: int64
  le_UUID :: string
  le_OIDExtension :: ObjectIdentifier
  le_ExtensionValue :: string

text \<open>The zero value: the fields a composite literal leaves out.\<close>

definition zero_LogEntry :: LogEntry where
  "zero_LogEntry =
     \<lparr>le_MatchedIdentity = [], le_MatchedIdentityType = [], le_CertSubject = [], le_Issuer = [],
      le_Fingerprint = [], le_Subject = [], le_Index = 0, le_UUID = [], le_OIDExtension = [],
      le_ExtensionValue = []\<rparr>"

definition LogEntry_String :: "LogEntry \<Rightarrow> string" where
  "LogEntry_String e =
     join '' '' (filter (\<lambda>s. trim_space s \<noteq> [])
       [le_CertSubject e, le_Issuer e, le_Fingerprint e, le_Subject e, itoa (le_Index e),
        le_UUID e, oid_String (le_OIDExtension e), le_ExtensionValue e])"

record FailedLogEntry =
  fl_Index :: int64
  fl_UUID :: string
  fl_Error :: string

record MonitoredIdentity =
  mi_Identity :: string
  mi_FoundIdentityEntries :: "LogEntry list"

section \<open>Monitored values\<close>

definition CreateIdentitiesList :: "MonitoredValues \<Rightarrow> string list" where
  "CreateIdentitiesList mvs =
     concat (map (\<lambda>certID. ci_CertSubject certID # ci_Issuers certID)
       (mv_CertificateIdentities mvs)) @
     mv_Fingerprints mvs @ mv_Subjects mvs @
     concat (map oe_ExtensionValues (mv_OIDMatchers mvs))"

definition MonitoredValuesExist :: "MonitoredValues \<Rightarrow> bool" where
  "MonitoredValuesExist mvs =
     (if length (mv_CertificateIdentities mvs) > 0 then True
      else if length (mv_Fingerprints mvs) > 0 then True
      else if length (mv_OIDMatchers mvs) > 0 then True
      else if length (mv_Subjects mvs) > 0 then True
      else False)"

text \<open>A check of one value that must not be empty.\<close>

definition not_empty :: "string \<Rightarrow> 'a list \<Rightarrow> go_error option" where
  "not_empty msg s = (if length s = 0 then Some (Err msg) else None)"

definition verifyMonitoredOIDs :: "MonitoredValues \<Rightarrow> go_error option" where
  "verifyMonitoredOIDs mvs =
     first_error (\<lambda>oidMatcher.
         case not_empty ''oid extension empty'' (oe_ObjectIdentifier oidMatcher) of
           Some e \<Rightarrow> Some e
         | None \<Rightarrow>
             (case not_empty ''oid matched values empty'' (oe_ExtensionValues oidMatcher) of
                Some e \<Rightarrow> Some e
              | None \<Rightarrow>
                  first_error (not_empty ''oid matched value empty'') (oe_ExtensionValues oidMatcher)))
       (mv_OIDMatchers mvs)"

definition VerifyMonitoredValues :: "MonitoredValues \<Rightarrow> go_error option" where
  "VerifyMonitoredValues mvs =
     (if \<not> MonitoredValuesExist mvs then Some (Err ''no identities provided to monitor'')
      else case first_error (\<lambda>certID.
               case not_empty ''certificate subject empty'' (ci_CertSubject certID) of
                 Some e \<Rightarrow> Some e
               | None \<Rightarrow> first_error (not_empty ''issuer empty'') (ci_Issuers certID))
             (mv_CertificateIdentities mvs) of
        Some e \<Rightarrow> Some e
      | None \<Rightarrow>
          (case first_error (not_empty ''fingerprint empty'') (mv_Fingerprints mvs) of
             Some e \<Rightarrow> Some e
           | None \<Rightarrow>
               (case first_error (not_empty ''subject empty'') (mv_Subjects mvs) of
                  Some e \<Rightarrow> Some e
                | None \<Rightarrow> verifyMonitoredOIDs mvs)))"

section \<open>Grouping the found entries\<close>

text \<open>The value of a found entry that the \<open>switch\<close> selects by its type.\<close>

definition identity_value :: "LogEntry \<Rightarrow> string" where
  "identity_value idEntry =
     (if le_MatchedIdentityType idEntry = MatchedIdentityTypeCertSubject
        then le_CertSubject idEntry
      else if le_MatchedIdentityType idEntry = MatchedIdentityTypeExtensionValue
        then le_ExtensionValue idEntry
      else if le_MatchedIdentityType idEntry = MatchedIdentityTypeFingerprint
        then le_Fingerprint idEntry
      else if le_MatchedIdentityType idEntry = MatchedIdentityTypeSubject
        then le_Subject idEntry
      else [])"

text \<open>One round of the loop over the found entries.\<close>

definition group_entry ::
  "string list \<Rightarrow> LogEntry \<Rightarrow> (string \<times> LogEntry list) list \<Rightarrow> (string \<times> LogEntry list) list" where
  "group_entry identityMap idEntry m =
     (if le_MatchedIdentity idEntry \<notin> set identityMap then m
      else (let identityValue = identity_value idEntry
            in case map_of m identityValue of
                 Some es \<Rightarrow> AList.update identityValue (es @ [idEntry]) m
               | None \<Rightarrow> AList.update identityValue [idEntry] m))"

definition CreateMonitoredIdentities ::
  "((string \<times> LogEntry list) list \<Rightarrow> (string \<times> LogEntry list) list) \<Rightarrow>
   LogEntry list \<Rightarrow> string list \<Rightarrow> MonitoredIdentity list"
where
  "CreateMonitoredIdentities ord inputIdentityEntries monitoredIdentities =
     map (\<lambda>(id, idEntries). \<lparr>mi_Identity = id, mi_FoundIdentityEntries = idEntries\<rparr>)
       (ord (fold (group_entry monitoredIdentities) inputIdentityEntries []))"

section \<open>Certificates\<close>

text \<open>
  A certificate, as far as the monitor reads it: the subject alternative names (IP addresses
  and URIs by their \<open>String()\<close>), the extensions with their raw values, the start of validity
  and the raw bytes. The code has the types \<open>x509.Certificate\<close> and \<open>google_x509.Certificate\<close>
  and chooses by a type switch.
\<close>

record extension =
  ext_Id :: ObjectIdentifier
  ext_Critical :: bool
  ext_Value :: string

record x509_cert =
  DNSNames :: "string list"
  EmailAddresses :: "string list"
  IPAddresses :: "string list"
  URIs :: "string list"
  Extensions :: "extension list"
  NotBefore :: int64
  cert_Raw :: string

datatype certificate = X509 x509_cert | GoogleX509 x509_cert

datatype ExtKeyUsage = ExtKeyUsageCodeSigning

text \<open>A pool of certificates is the PEM text it was filled from; \<open>None\<close> is the nil pool.\<close>

record VerifyOptions =
  vo_CurrentTime :: int64
  vo_Roots :: "string option"
  vo_Intermediates :: "string option"
  vo_KeyUsages :: "ExtKeyUsage list"

record GoogleVerifyOptions = VerifyOptions +
  DisableTimeChecks :: bool
  DisableCriticalExtensionChecks :: bool
  DisableEKUChecks :: bool
  DisablePathLenChecks :: bool
  DisableNameConstraintChecks :: bool
  DisableNameChecks :: bool

text \<open>
  Code outside the repository: \<open>regexp.Compile\<close> with the \<open>MatchString\<close> of the result,
  \<open>asn1.Unmarshal\<close> into a string (the string and the rest), \<open>cryptoutils.UnmarshalOtherNameSAN\<close>
  (its two results), \<open>AppendCertsFromPEM\<close>, \<open>pem.Decode\<close> (true for a block) and the two \<open>Verify\<close> methods (true for a nil error).
\<close>

record certlib =
  regexp_Compile :: "string \<Rightarrow> (string \<Rightarrow> bool) res"
  asn1_Unmarshal :: "string \<Rightarrow> (string \<times> string) res"
  UnmarshalOtherNameSAN :: "extension list \<Rightarrow> string \<times> go_error option"
  AppendCertsFromPEM :: "string \<Rightarrow> bool"
  pem_Decode :: "string \<Rightarrow> bool"
  x509_Verify :: "VerifyOptions \<Rightarrow> x509_cert \<Rightarrow> bool"
  google_Verify :: "GoogleVerifyOptions \<Rightarrow> x509_cert \<Rightarrow> bool"

fun get_extension_loop :: "certlib \<Rightarrow> ObjectIdentifier \<Rightarrow> extension list \<Rightarrow> string res" where
  "get_extension_loop lib oid [] = Ok []"
| "get_extension_loop lib oid (ext # exts) =
     (if ext_Id ext \<noteq> oid then get_extension_loop lib oid exts
      else rbind (rwrap [] (asn1_Unmarshal lib (ext_Value ext)))
        (\<lambda>(extValue, rest).
           if length rest \<noteq> 0
           then Fail (Err (''unmarshalling extension had rest for oid '' @ oid_String oid))
           else Ok extValue))"

definition getExtension :: "certlib \<Rightarrow> certificate \<Rightarrow> ObjectIdentifier \<Rightarrow> string res" where
  "getExtension lib certificate oid =
     (case certificate of
        X509 cert \<Rightarrow> get_extension_loop lib oid (Extensions cert)
      | GoogleX509 cert \<Rightarrow> get_extension_loop lib oid (Extensions cert))"

fun get_raw_extension :: "ObjectIdentifier \<Rightarrow> extension list \<Rightarrow> string" where
  "get_raw_extension oid [] = []"
| "get_raw_extension oid (ext # exts) =
     (if ext_Id ext = oid then ext_Value ext else get_raw_extension oid exts)"

definition getDeprecatedExtension :: "certificate \<Rightarrow> ObjectIdentifier \<Rightarrow> string res" where
  "getDeprecatedExtension certificate oid =
     (case certificate of
        X509 cert \<Rightarrow> Ok (get_raw_extension oid (Extensions cert))
      | GoogleX509 cert \<Rightarrow> Ok (get_raw_extension oid (Extensions cert)))"

definition OIDMatchesPolicy ::
  "certlib \<Rightarrow> certificate \<Rightarrow> ObjectIdentifier \<Rightarrow> string list \<Rightarrow> (bool \<times> ObjectIdentifier \<times> string) res"
where
  "OIDMatchesPolicy lib cert oid extensionValues =
     rbind (rwrap ''error getting extension value: '' (getExtension lib cert oid))
       (\<lambda>extValue.
          if extValue = [] then Ok (False, [], [])
          else if list_ex (\<lambda>extensionValue. extValue = extensionValue) extensionValues
            then Ok (True, oid, extValue)
          else Ok (False, [], []))"

definition getSubjectAlternateNames :: "certlib \<Rightarrow> certificate \<Rightarrow> string list" where
  "getSubjectAlternateNames lib certificate =
     (case certificate of
        X509 cert \<Rightarrow>
          (let otherName = fst (UnmarshalOtherNameSAN lib (Extensions cert))
           in DNSNames cert @ EmailAddresses cert @ IPAddresses cert @ URIs cert @
              (if length otherName > 0 then [otherName] else []))
      | GoogleX509 cert \<Rightarrow>
          (let pkixExts = map (\<lambda>googleExt. \<lparr>ext_Id = ext_Id googleExt,
                 ext_Critical = ext_Critical googleExt, ext_Value = ext_Value googleExt\<rparr>)
                 (Extensions cert);
               otherName = fst (UnmarshalOtherNameSAN lib pkixExts)
           in DNSNames cert @ EmailAddresses cert @ IPAddresses cert @ URIs cert @
              (if length otherName > 0 then [otherName] else [])))"

text \<open>The issuer that the policy compares: the V2 extension, or the deprecated one when that is
  absent, empty or malformed.\<close>

definition policy_issuer :: "certlib \<Rightarrow> certificate \<Rightarrow> string res" where
  "policy_issuer lib cert =
     (case getExtension lib cert certExtensionOIDCIssuerV2 of
        Ok issuer \<Rightarrow>
          (if issuer = [] then getDeprecatedExtension cert certExtensionOIDCIssuer else Ok issuer)
      | Fail err \<Rightarrow> getDeprecatedExtension cert certExtensionOIDCIssuer
      | Panic s \<Rightarrow> Panic s)"

text \<open>The loop over the expected issuers: every expression is compiled, even after a match.\<close>

definition issuer_matches :: "certlib \<Rightarrow> string \<Rightarrow> string list \<Rightarrow> bool res" where
  "issuer_matches lib issuer expectedIssuers =
     rbind (rmap (\<lambda>expectedIss.
         rbind (rwrap ''malformed issuer regex: '' (regexp_Compile lib expectedIss))
           (\<lambda>regex. Ok (regex issuer))) expectedIssuers)
       (\<lambda>ms. Ok (list_ex (\<lambda>m. m) ms))"

definition CertMatchesPolicy ::
  "certlib \<Rightarrow> certificate \<Rightarrow> string \<Rightarrow> string list \<Rightarrow> (bool \<times> string \<times> string) res"
where
  "CertMatchesPolicy lib cert expectedSub expectedIssuers =
     (let sans = getSubjectAlternateNames lib cert
      in rbind (policy_issuer lib cert)
        (\<lambda>issuer.
           if issuer = [] then Ok (False, [], [])
           else rbind (rwrap ''malformed subject regex: '' (regexp_Compile lib expectedSub))
             (\<lambda>regex.
                let (subjectMatches, matchedSub) =
                      fold (\<lambda>sub (m, s). if regex sub then (True, sub) else (m, s)) sans (False, [])
                in if length expectedIssuers = 0 then Ok (subjectMatches, matchedSub, issuer)
                   else rbind (issuer_matches lib issuer expectedIssuers)
                     (\<lambda>issuerMatches. Ok (subjectMatches \<and> issuerMatches, matchedSub, issuer)))))"

section \<open>Chain validation\<close>

definition quoted :: "string \<Rightarrow> string" where
  "quoted s = [CHR 0x22] @ s @ [CHR 0x22]"

definition getCertPool :: "certlib \<Rightarrow> 'a os_scheme \<Rightarrow> string \<Rightarrow> string res" where
  "getCertPool lib w pemFile =
     rbind (rwrap (''failed to read trusted CA file '' @ quoted pemFile @ '': '')
         (os_ReadFile pemFile w))
       (\<lambda>caBytes.
          if \<not> AppendCertsFromPEM lib caBytes
          then Fail (Err (''failed to append trusted CA certificate in '' @ quoted pemFile))
          else Ok caBytes)"

text \<open>The pool of a file name that may be empty.\<close>

definition optional_pool :: "certlib \<Rightarrow> 'a os_scheme \<Rightarrow> string \<Rightarrow> string option res" where
  "optional_pool lib w f =
     (if f \<noteq> [] then rbind (getCertPool lib w f) (\<lambda>p. Ok (Some p)) else Ok None)"

definition no_trusted_CA :: go_error where
  "no_trusted_CA = Err ''no certificate in the chain is signed by a trusted CA''"

definition ValidateCertificateChain ::
  "certlib \<Rightarrow> 'a os_scheme \<Rightarrow> x509_cert list \<Rightarrow> string \<Rightarrow> string \<Rightarrow> unit res"
where
  "ValidateCertificateChain lib w certs caRoots caIntermediates =
     (if (caRoots = [] \<and> caIntermediates = []) \<or> length certs = 0 then Ok ()
      else rbind (optional_pool lib w caRoots) (\<lambda>roots.
        rbind (optional_pool lib w caIntermediates) (\<lambda>intermediates.
          if list_ex (\<lambda>cert. x509_Verify lib
               \<lparr>vo_CurrentTime = NotBefore cert, vo_Roots = roots,
                vo_Intermediates = intermediates, vo_KeyUsages = [ExtKeyUsageCodeSigning]\<rparr> cert)
             certs
          then Ok () else Fail no_trusted_CA)))"

definition ValidatePreCertificateChain ::
  "certlib \<Rightarrow> 'a os_scheme \<Rightarrow> int64 \<Rightarrow> x509_cert list \<Rightarrow> string \<Rightarrow> string \<Rightarrow> unit res"
where
  "ValidatePreCertificateChain lib w now certs caRoots caIntermediates =
     (if (caRoots = [] \<and> caIntermediates = []) \<or> length certs = 0 then Ok ()
      else rbind (optional_pool lib w caRoots) (\<lambda>roots.
        rbind (optional_pool lib w caIntermediates) (\<lambda>intermediates.
          if list_ex (\<lambda>cert. google_Verify lib
               \<lparr>vo_CurrentTime = now, vo_Roots = roots, vo_Intermediates = intermediates,
                vo_KeyUsages = [ExtKeyUsageCodeSigning], DisableTimeChecks = True,
                DisableCriticalExtensionChecks = True, DisableEKUChecks = True,
                DisablePathLenChecks = True, DisableNameConstraintChecks = True,
                DisableNameChecks = False\<rparr> cert)
             certs
          then Ok () else Fail no_trusted_CA)))"

section \<open>Lemmas\<close>

lemma not_empty_None [simp]: "not_empty msg s = None \<longleftrightarrow> s \<noteq> []"
  by (simp add: not_empty_def)

lemma first_error_not_empty_None: "first_error (not_empty msg) xs = None \<longleftrightarrow> [] \<notin> set xs"
  by (auto simp: first_error_None_iff)

lemma error_chain_None:
  "(case a of None \<Rightarrow> b | Some e \<Rightarrow> Some e) = None \<longleftrightarrow> a = None \<and> b = None"
  by (cases a) auto

definition accepted :: "string list \<Rightarrow> LogEntry \<Rightarrow> bool" where
  "accepted ids e \<longleftrightarrow> le_MatchedIdentity e \<in> set ids"

lemma group_entry_eq:
  "group_entry ids e m =
     (if accepted ids e
      then AList.update (identity_value e)
        ((case map_of m (identity_value e) of None \<Rightarrow> [] | Some es \<Rightarrow> es) @ [e]) m
      else m)"
  by (simp add: group_entry_def accepted_def Let_def split: option.splits)

lemma group_distinct: "distinct (map fst (fold (group_entry ids) es []))"
  by (induction es rule: rev_induct) (auto simp: group_entry_eq distinct_update)

lemma group_lookup:
  "map_of (fold (group_entry ids) es []) v =
     (let fs = filter (\<lambda>e. accepted ids e \<and> identity_value e = v) es
      in if fs = [] then None else Some fs)"
proof (induction es rule: rev_induct)
  case (snoc e es)
  then show ?case
    by (auto simp: group_entry_eq update_conv' Let_def split: option.splits if_splits)
qed simp

lemma group_in:
  "(v, gs) \<in> set (fold (group_entry ids) es []) \<longleftrightarrow>
     gs = filter (\<lambda>e. accepted ids e \<and> identity_value e = v) es \<and> gs \<noteq> []"
  using map_of_eq_Some_iff [OF group_distinct, of ids es v gs]
  by (auto simp add: group_lookup Let_def simp del: map_of_eq_Some_iff split: if_splits)

lemma monitored_identity_in:
  "range_order ord \<Longrightarrow> mi \<in> set (CreateMonitoredIdentities ord es ids) \<longleftrightarrow>
     mi_FoundIdentityEntries mi =
       filter (\<lambda>e. accepted ids e \<and> identity_value e = mi_Identity mi) es \<and>
     mi_FoundIdentityEntries mi \<noteq> []"
proof -
  assume "range_order ord"
  then have "mi \<in> set (CreateMonitoredIdentities ord es ids) \<longleftrightarrow>
      (\<exists>v gs. (v, gs) \<in> set (fold (group_entry ids) es []) \<and>
         mi = \<lparr>mi_Identity = v, mi_FoundIdentityEntries = gs\<rparr>)"
    by (auto simp: CreateMonitoredIdentities_def range_order_set image_iff Bex_def)
  also have "\<dots> \<longleftrightarrow> (mi_Identity mi, mi_FoundIdentityEntries mi) \<in> set (fold (group_entry ids) es [])"
    by (cases mi) auto
  finally show ?thesis
    by (simp add: group_in)
qed

lemma monitored_identity_distinct:
  assumes "range_order ord"
  shows "distinct (map mi_Identity (CreateMonitoredIdentities ord es ids))"
proof -
  let ?m = "fold (group_entry ids) es []"
  have "map mi_Identity (CreateMonitoredIdentities ord es ids) = map fst (ord ?m)"
    by (simp add: CreateMonitoredIdentities_def comp_def split_beta)
  moreover have "mset (map fst (ord ?m)) = mset (map fst ?m)"
    using assms by (simp add: range_order_def)
  ultimately show ?thesis
    using group_distinct by (metis mset_eq_imp_distinct_iff)
qed

text \<open>Grouping neither loses nor doubles an accepted entry.\<close>

lemma update_adds:
  "distinct (map fst m) \<Longrightarrow>
   mset (concat (map snd (AList.update k ((case map_of m k of None \<Rightarrow> [] | Some es \<Rightarrow> es) @ [e]) m))) =
   add_mset e (mset (concat (map snd m)))"
  by (induction m) auto

lemma group_mset:
  "mset (concat (map snd (fold (group_entry ids) es []))) = mset (filter (accepted ids) es)"
proof (induction es rule: rev_induct)
  case (snoc e es)
  then show ?case
    by (simp add: group_entry_eq [of ids e] update_adds [OF group_distinct] del: mset_concat)
qed simp

lemma mset_concat_map: "mset (concat (map f xs)) = (\<Sum>x\<in>#mset xs. mset (f x))"
  by (induction xs) auto

lemma reported_mset:
  assumes "range_order ord"
  shows "mset (concat (map mi_FoundIdentityEntries (CreateMonitoredIdentities ord es ids))) =
    mset (filter (accepted ids) es)"
proof -
  let ?m = "fold (group_entry ids) es []"
  have "map mi_FoundIdentityEntries (CreateMonitoredIdentities ord es ids) = map snd (ord ?m)"
    by (simp add: CreateMonitoredIdentities_def comp_def split_beta)
  then have "mset (concat (map mi_FoundIdentityEntries (CreateMonitoredIdentities ord es ids))) =
      (\<Sum>x\<in>#mset (ord ?m). mset (snd x))"
    by (simp add: mset_concat_map)
  also have "\<dots> = mset (concat (map snd ?m))"
    using assms by (simp add: range_order_def mset_concat_map)
  finally show ?thesis
    by (simp add: group_mset)
qed

lemma last_match_fold:
  "fold (\<lambda>sub (m, s). if rx sub then (True, sub) else (m, s)) sans (b, t) =
     (if filter rx sans = [] then (b, t) else (True, last (filter rx sans)))"
  by (induction sans arbitrary: b t) auto

lemma issuer_matches_Ok:
  "issuer_matches lib iss exps = Ok b \<longleftrightarrow>
     list_all (\<lambda>i. is_ok (regexp_Compile lib i)) exps \<and>
     b = list_ex (\<lambda>i. case regexp_Compile lib i of Ok rx \<Rightarrow> rx iss | _ \<Rightarrow> False) exps"
proof (induction exps arbitrary: b)
  case Nil
  then show ?case by (auto simp: issuer_matches_def)
next
  case (Cons i exps)
  have step: "issuer_matches lib iss (i # exps) =
      rbind (rwrap ''malformed issuer regex: '' (regexp_Compile lib i))
        (\<lambda>rx. rbind (issuer_matches lib iss exps) (\<lambda>c. Ok (rx iss \<or> c)))"
    by (cases "regexp_Compile lib i") (simp_all add: issuer_matches_def rbind_assoc)
  show ?case
    by (cases "regexp_Compile lib i") (auto simp: step rbind_Ok_iff Cons.IH is_ok_def)
qed

lemma extension_kinds [simp]:
  "getExtension lib (GoogleX509 c) oid = getExtension lib (X509 c) oid"
  "getDeprecatedExtension (GoogleX509 c) oid = getDeprecatedExtension (X509 c) oid"
  "getSubjectAlternateNames lib (GoogleX509 c) = getSubjectAlternateNames lib (X509 c)"
  by (simp_all add: getExtension_def getDeprecatedExtension_def getSubjectAlternateNames_def
      map_idI)

lemma policy_issuer_kinds [simp]: "policy_issuer lib (GoogleX509 c) = policy_issuer lib (X509 c)"
  by (simp add: policy_issuer_def split: res.splits)

lemma getDeprecatedExtension_Ok: "\<exists>v. getDeprecatedExtension cert oid = Ok v"
  by (simp add: getDeprecatedExtension_def split: certificate.splits)

lemma OIDMatchesPolicy_True:
  "OIDMatchesPolicy lib cert oid vals = Ok (True, oid', v) \<longleftrightarrow>
     oid' = oid \<and> v \<noteq> [] \<and> v \<in> set vals \<and> getExtension lib cert oid = Ok v"
  by (auto simp: OIDMatchesPolicy_def res_simps list_ex_iff split: if_splits)

section \<open>Properties\<close>

text \<open>C32. When a certificate matches: it names a non-empty OIDC issuer, some subject
  alternative name matches the subject expression (the last one is reported), and either no
  issuer is expected, or every expected issuer is a well-formed expression and one of them
  matches the issuer.\<close>

theorem cert_matches_spec:
  "CertMatchesPolicy lib cert sub issuers = Ok (True, matched, iss) \<longleftrightarrow>
     policy_issuer lib cert = Ok iss \<and> iss \<noteq> [] \<and>
     (\<exists>rx. regexp_Compile lib sub = Ok rx \<and>
        filter rx (getSubjectAlternateNames lib cert) \<noteq> [] \<and>
        matched = last (filter rx (getSubjectAlternateNames lib cert))) \<and>
     (issuers = [] \<or>
        list_all (\<lambda>i. is_ok (regexp_Compile lib i)) issuers \<and>
        list_ex (\<lambda>i. case regexp_Compile lib i of Ok rx \<Rightarrow> rx iss | _ \<Rightarrow> False) issuers)"
  unfolding CertMatchesPolicy_def Let_def rbind_Ok_iff rwrap_Ok_iff last_match_fold
  by (cases "issuers = []")
    (auto simp: rbind_Ok_iff rwrap_Ok_iff issuer_matches_Ok split: if_splits)

text \<open>The two certificate types of the code get the same verdicts.\<close>

theorem certificate_kinds_agree:
  "CertMatchesPolicy lib (GoogleX509 c) sub issuers = CertMatchesPolicy lib (X509 c) sub issuers \<and>
   OIDMatchesPolicy lib (GoogleX509 c) oid vals = OIDMatchesPolicy lib (X509 c) oid vals"
  by (simp add: CertMatchesPolicy_def OIDMatchesPolicy_def)

lemma verifyMonitoredOIDs_None:
  "verifyMonitoredOIDs mvs = None \<longleftrightarrow>
     (\<forall>m \<in> set (mv_OIDMatchers mvs). oe_ObjectIdentifier m \<noteq> [] \<and>
        oe_ExtensionValues m \<noteq> [] \<and> [] \<notin> set (oe_ExtensionValues m))"
proof -
  have "(case not_empty ''oid extension empty'' (oe_ObjectIdentifier m) of
           Some e \<Rightarrow> Some e
         | None \<Rightarrow>
             (case not_empty ''oid matched values empty'' (oe_ExtensionValues m) of
                Some e \<Rightarrow> Some e
              | None \<Rightarrow>
                  first_error (not_empty ''oid matched value empty'') (oe_ExtensionValues m))) = None
      \<longleftrightarrow> oe_ObjectIdentifier m \<noteq> [] \<and> oe_ExtensionValues m \<noteq> [] \<and>
          [] \<notin> set (oe_ExtensionValues m)" for m :: OIDExtension
    by (force simp: not_empty_def first_error_None_iff)
  then show ?thesis
    by (simp add: verifyMonitoredOIDs_def first_error_None_iff)
qed

lemma certificate_identities_None:
  "first_error (\<lambda>certID. case not_empty msg (ci_CertSubject certID) of
       Some e \<Rightarrow> Some e
     | None \<Rightarrow> first_error (not_empty msg') (ci_Issuers certID)) cis = None \<longleftrightarrow>
     [] \<notin> set (concat (map (\<lambda>certID. ci_CertSubject certID # ci_Issuers certID) cis))"
  by (auto simp: error_chain_None first_error_not_empty_None first_error_None_iff)

text \<open>\<open>VerifyMonitoredValues\<close> accepts exactly the values that exist, list no empty identity
  and give every matcher an object identifier and a value.\<close>

theorem verify_monitored_values_spec:
  "VerifyMonitoredValues mvs = None \<longleftrightarrow>
     MonitoredValuesExist mvs \<and> [] \<notin> set (CreateIdentitiesList mvs) \<and>
     list_all (\<lambda>m. oe_ObjectIdentifier m \<noteq> [] \<and> oe_ExtensionValues m \<noteq> []) (mv_OIDMatchers mvs)"
proof (cases "MonitoredValuesExist mvs")
  case True
  then have "VerifyMonitoredValues mvs = None \<longleftrightarrow>
      [] \<notin> set (concat (map (\<lambda>certID. ci_CertSubject certID # ci_Issuers certID)
        (mv_CertificateIdentities mvs))) \<and>
      [] \<notin> set (mv_Fingerprints mvs) \<and> [] \<notin> set (mv_Subjects mvs) \<and>
      verifyMonitoredOIDs mvs = None"
    unfolding VerifyMonitoredValues_def
    by (simp add: error_chain_None certificate_identities_None first_error_not_empty_None del: set_concat)
  with True show ?thesis
    by (auto simp: verifyMonitoredOIDs_None CreateIdentitiesList_def list_all_iff)
qed (simp add: VerifyMonitoredValues_def)

text \<open>C33. Grouping: in whatever order the map is ranged over, no identity is reported twice,
  the entries reported for an identity are exactly the found entries with that value whose
  matched identity is monitored, in the order they were found, and every such entry is
  reported.\<close>

theorem monitored_identities_spec:
  assumes "range_order ord"
  shows "distinct (map mi_Identity (CreateMonitoredIdentities ord es ids)) \<and>
    (\<forall>mi \<in> set (CreateMonitoredIdentities ord es ids).
       mi_FoundIdentityEntries mi = filter (\<lambda>e. le_MatchedIdentity e \<in> set ids \<and>
         identity_value e = mi_Identity mi) es \<and> mi_FoundIdentityEntries mi \<noteq> []) \<and>
    (\<forall>e \<in> set es. le_MatchedIdentity e \<in> set ids \<longrightarrow>
       (\<exists>mi \<in> set (CreateMonitoredIdentities ord es ids). e \<in> set (mi_FoundIdentityEntries mi)))"
proof -
  let ?mis = "CreateMonitoredIdentities ord es ids"
  note mem = monitored_identity_in [OF assms, of _ es ids, unfolded accepted_def]
  have "\<exists>mi \<in> set ?mis. e \<in> set (mi_FoundIdentityEntries mi)"
    if e: "e \<in> set es" "le_MatchedIdentity e \<in> set ids" for e
  proof
    let ?mi = "\<lparr>mi_Identity = identity_value e, mi_FoundIdentityEntries =
        filter (\<lambda>d. le_MatchedIdentity d \<in> set ids \<and> identity_value d = identity_value e) es\<rparr>"
    show in_mi: "e \<in> set (mi_FoundIdentityEntries ?mi)"
      using e by simp
    then show "?mi \<in> set ?mis"
      by (subst mem) (auto simp: filter_empty_conv)
  qed
  moreover have "distinct (map mi_Identity ?mis)"
    by (rule monitored_identity_distinct [OF assms])
  ultimately show ?thesis
    by (blast dest: mem [THEN iffD1])
qed

definition demo_entry :: "string \<Rightarrow> int64 \<Rightarrow> LogEntry" where
  "demo_entry s i = zero_LogEntry\<lparr>le_MatchedIdentity := s,
     le_MatchedIdentityType := MatchedIdentityTypeSubject, le_Subject := s, le_Index := i\<rparr>"

theorem monitored_identities_spec_witness:
  "\<exists>mi \<in> set (CreateMonitoredIdentities rev
       [demo_entry ''a'' 1, demo_entry ''b'' 2, demo_entry ''a'' 3] [''a'']).
     demo_entry ''a'' 3 \<in> set (mi_FoundIdentityEntries mi)"
proof -
  let ?es = "[demo_entry ''a'' 1, demo_entry ''b'' 2, demo_entry ''a'' 3]"
  have "demo_entry ''a'' 3 \<in> set ?es \<and> le_MatchedIdentity (demo_entry ''a'' 3) \<in> set [''a'']"
    by (simp add: demo_entry_def)
  then show ?thesis
    using monitored_identities_spec [OF range_order_rev, of ?es "[''a'']"] by blast
qed

text \<open>What chain validation accepts: everything if no CA file is configured or the entry
  has no certificate, and otherwise only entries for which the configured CA files can be
  read as certificates and at least one certificate verifies against them for code signing at
  the start of its validity.\<close>

theorem validate_chain_spec:
  "ValidateCertificateChain lib w certs caRoots caIntermediates = Ok () \<longleftrightarrow>
     (caRoots = [] \<and> caIntermediates = []) \<or> certs = [] \<or>
     (\<exists>roots intermediates.
        optional_pool lib w caRoots = Ok roots \<and>
        optional_pool lib w caIntermediates = Ok intermediates \<and>
        list_ex (\<lambda>cert. x509_Verify lib
          \<lparr>vo_CurrentTime = NotBefore cert, vo_Roots = roots,
           vo_Intermediates = intermediates, vo_KeyUsages = [ExtKeyUsageCodeSigning]\<rparr> cert) certs)"
  by (auto simp: ValidateCertificateChain_def rbind_Ok_iff split: if_splits)

end
