(* ===== verification/LogFile.thy ===== *)
theory LogFile
  imports Identity
begin

text \<open>
  \<open>pkg/util/file/file.go\<close>: the files the monitor keeps. The log info file holds the last
  verified checkpoint (or signed tree head) on one line, the identities file one line for each
  found entry, the metadata file the index of the last entry searched. How a checkpoint is
  turned into text and back is the parameter \<open>codec\<close>.
\<close>

section \<open>Data\<close>

text \<open>A signature of a signed note, and the three types the log info file can hold:
  \<open>util.SignedCheckpoint\<close> of Rekor v1, \<open>log.Checkpoint\<close> of Rekor v2, \<open>ct.SignedTreeHead\<close>.\<close>

record note_signature =
  ns_Name :: string
  ns_Hash :: int
  ns_Base64 :: string

record SignedCheckpoint =
  sc_Origin :: string
  sc_Size :: int
  sc_Hash :: string
  sc_OtherContent :: "string list"
  sc_Note :: string
  sc_Signatures :: "note_signature list"

record Checkpoint =
  cp_Origin :: string
  cp_Size :: int
  cp_Hash :: string

record SignedTreeHead =
  sth_Version :: int
  sth_TreeSize :: int
  sth_Timestamp :: int
  sth_SHA256RootHash :: string
  sth_TreeHeadSignature :: string
  sth_LogID :: string

record IdentityMetadata =
  LatestIndex :: int64

definition IdentityMetadata_String :: "IdentityMetadata \<Rightarrow> string" where
  "IdentityMetadata_String idMetadata = itoa (LatestIndex idMetadata)"

text \<open>
  Code outside the repository: the text formats of the two checkpoint types, the JSON of a
  signed tree head (its type has methods of its own), and what \<open>encoding/json\<close> makes of a found
  entry and reads from a metadata file that is not in the form \<open>WriteIdentityMetadata\<close> gives it.
\<close>

record codec =
  sc_MarshalText :: "SignedCheckpoint \<Rightarrow> string res"
  sc_UnmarshalText :: "string \<Rightarrow> SignedCheckpoint res"
  cp_Marshal :: "Checkpoint \<Rightarrow> string"
  cp_Unmarshal :: "string \<Rightarrow> Checkpoint res"
  sth_Marshal :: "SignedTreeHead \<Rightarrow> string res"
  sth_Unmarshal :: "string \<Rightarrow> SignedTreeHead res"
  entry_Marshal :: "LogEntry \<Rightarrow> string res"
  other_metadata :: "string \<Rightarrow> IdentityMetadata res"

section \<open>One line for a text with newlines\<close>

definition backslash_n :: string where
  "backslash_n = [CHR 0x5C, CHR ''n'']"

definition flatten :: "string \<Rightarrow> string" where
  "flatten s = replace_all s [newline] backslash_n"

definition unflatten :: "string \<Rightarrow> string" where
  "unflatten s = replace_all s backslash_n [newline]"

section \<open>Reading\<close>

definition readLastCheckpoint :: "string \<Rightarrow> 'a os_scheme \<Rightarrow> string res" where
  "readLastCheckpoint logInfoFile w =
     rbind (os_ReadFile logInfoFile w) (\<lambda>content.
     rbind (scan_lines content) (\<lambda>ls.
       let line = (if ls = [] then [] else last ls)
       in Ok (unflatten line)))"

definition ReadLatestCheckpointRekorV1 ::
  "codec \<Rightarrow> string \<Rightarrow> 'a os_scheme \<Rightarrow> SignedCheckpoint res" where
  "ReadLatestCheckpointRekorV1 cd logInfoFile w =
     rbind (readLastCheckpoint logInfoFile w) (sc_UnmarshalText cd)"

definition ReadLatestCheckpointRekorV2 ::
  "codec \<Rightarrow> string \<Rightarrow> 'a os_scheme \<Rightarrow> Checkpoint res" where
  "ReadLatestCheckpointRekorV2 cd logInfoFile w =
     rbind (readLastCheckpoint logInfoFile w) (cp_Unmarshal cd)"

definition ReadLatestCTSignedTreeHead ::
  "codec \<Rightarrow> string \<Rightarrow> 'a os_scheme \<Rightarrow> SignedTreeHead res" where
  "ReadLatestCTSignedTreeHead cd logInfoFile w =
     rbind (os_ReadFile logInfoFile w) (\<lambda>signedTreeHead. sth_Unmarshal cd (unflatten signedTreeHead))"

section \<open>Writing\<close>

text \<open>The current value is not nil; \<open>prev\<close> is \<open>None\<close> for a nil pointer.\<close>

definition writeCheckpointBytes :: "string \<Rightarrow> string \<Rightarrow> ('a os_scheme, unit) io" where
  "writeCheckpointBytes checkpoint logInfoFile =
     io_wrap ''failed to write to file: ''
       (os_WriteFile logInfoFile (flatten checkpoint @ [newline]))"

definition WriteCTSignedTreeHead ::
  "codec \<Rightarrow> SignedTreeHead \<Rightarrow> SignedTreeHead option \<Rightarrow> string \<Rightarrow> bool \<Rightarrow> ('a os_scheme, unit) io"
where
  "WriteCTSignedTreeHead cd sth prev logInfoFile force =
     (if sth_TreeSize sth = 0 then io_return ()
      else if force \<or> (case prev of None \<Rightarrow> True | Some p \<Rightarrow> sth_TreeSize p \<noteq> sth_TreeSize sth) then
        io_bind (io_res (sth_Marshal cd sth)) (\<lambda>marshalledSTH.
          io_wrap ''failed to write to file: ''
            (os_WriteFile logInfoFile (flatten marshalledSTH @ [newline])))
      else io_return ())"

definition WriteCheckpointRekorV1 ::
  "codec \<Rightarrow> SignedCheckpoint \<Rightarrow> SignedCheckpoint option \<Rightarrow> string \<Rightarrow> bool \<Rightarrow> ('a os_scheme, unit) io"
where
  "WriteCheckpointRekorV1 cd checkpoint prev logInfoFile force =
     (if sc_Size checkpoint = 0 then io_return ()
      else if force \<or> (case prev of None \<Rightarrow> True | Some p \<Rightarrow> sc_Size p \<noteq> sc_Size checkpoint) then
        io_bind (io_res (rwrap ''failed to marshal checkpoint: '' (sc_MarshalText cd checkpoint)))
          (\<lambda>s. writeCheckpointBytes s logInfoFile)
      else io_return ())"

definition WriteCheckpointRekorV2 ::
  "codec \<Rightarrow> Checkpoint \<Rightarrow> Checkpoint option \<Rightarrow> string \<Rightarrow> bool \<Rightarrow> ('a os_scheme, unit) io"
where
  "WriteCheckpointRekorV2 cd checkpoint prev logInfoFile force =
     (if cp_Size checkpoint = 0 then io_return ()
      else if force \<or> (case prev of None \<Rightarrow> True | Some p \<Rightarrow>
          cp_Origin p \<noteq> cp_Origin checkpoint \<or> cp_Size p \<noteq> cp_Size checkpoint)
        then writeCheckpointBytes (cp_Marshal cd checkpoint) logInfoFile
      else io_return ())"

text \<open>An identities format other than \<open>text\<close> and \<open>json\<close> writes nothing.\<close>

definition WriteIdentity :: "codec \<Rightarrow> string \<Rightarrow> string \<Rightarrow> LogEntry \<Rightarrow> ('a os_scheme, unit) io" where
  "WriteIdentity cd idFile idFileFormat idEntry =
     io_bind (io_wrap ''failed to open identities file: '' (os_open_write False idFile)) (\<lambda>_.
       if idFileFormat = ''text'' then
         io_wrap ''failed to write to file: ''
           (os_write idFile (LogEntry_String idEntry @ [newline]))
       else if idFileFormat = ''json'' then
         io_bind (io_res (rwrap ''failed to marshal identity: '' (entry_Marshal cd idEntry)))
           (\<lambda>marshalled. io_wrap ''failed to write to file: ''
              (os_write idFile (marshalled @ [newline])))
       else io_return ())"

definition metadata_prefix :: string where
  "metadata_prefix = CHR ''{'' # quoted ''latestIndex'' @ '':''"

definition metadata_Marshal :: "IdentityMetadata \<Rightarrow> string" where
  "metadata_Marshal m = metadata_prefix @ itoa (LatestIndex m) @ ''}''"

text \<open>\<open>json.Unmarshal\<close> into an \<open>IdentityMetadata\<close>: on the text \<open>metadata_Marshal\<close> gives it is its
  inverse, other texts are left to the library.\<close>

definition metadata_Unmarshal :: "codec \<Rightarrow> string \<Rightarrow> IdentityMetadata res" where
  "metadata_Unmarshal cd s =
     (case atoi (butlast (drop (length metadata_prefix) s)) of
        Ok n \<Rightarrow>
          (if s = metadata_Marshal \<lparr>LatestIndex = n\<rparr> then Ok \<lparr>LatestIndex = n\<rparr>
           else other_metadata cd s)
      | _ \<Rightarrow> other_metadata cd s)"

definition WriteIdentityMetadata :: "string \<Rightarrow> IdentityMetadata \<Rightarrow> ('a os_scheme, unit) io" where
  "WriteIdentityMetadata metadataFile idMetadata =
     io_wrap ''failed to write to file: ''
       (os_WriteFile metadataFile (metadata_Marshal idMetadata))"

definition ReadIdentityMetadata :: "codec \<Rightarrow> string \<Rightarrow> 'a os_scheme \<Rightarrow> IdentityMetadata res" where
  "ReadIdentityMetadata cd metadataFile w =
     rbind (os_ReadFile metadataFile w) (metadata_Unmarshal cd)"

definition WriteMatchedIdentityEntries ::
  "codec \<Rightarrow> string \<Rightarrow> string \<Rightarrow> LogEntry list \<Rightarrow> string option \<Rightarrow> int64 \<Rightarrow> ('a os_scheme, unit) io"
where
  "WriteMatchedIdentityEntries cd identitiesFile identitiesFileFormat matchedEntries idMetadataFile
     endIndex =
     io_bind (io_each (\<lambda>idEntry. io_wrap ''failed to write entry: ''
         (WriteIdentity cd identitiesFile identitiesFileFormat idEntry)) matchedEntries) (\<lambda>_.
       case idMetadataFile of
         None \<Rightarrow> io_return ()
       | Some f \<Rightarrow>
           io_wrap ''failed to write identity metadata: ''
             (WriteIdentityMetadata f \<lparr>LatestIndex = endIndex\<rparr>))"

section \<open>Flattening\<close>

lemma flatten_eq: "flatten s = concat (map (\<lambda>c. if c = newline then backslash_n else [c]) s)"
proof (induction s)
  case (Cons c s)
  then show ?case
    by (subst flatten_def, subst replace_all.simps) (simp add: flatten_def [symmetric])
qed (simp add: flatten_def replace_all.simps)

lemma flatten_simps [simp]:
  "flatten [] = []"
  "flatten (c # s) = (if c = newline then backslash_n else [c]) @ flatten s"
  "flatten (s @ t) = flatten s @ flatten t"
  by (simp_all add: flatten_eq)

lemma newline_flatten: "newline \<notin> set (flatten s)"
  by (induction s) (auto simp: backslash_n_def newline_def)

lemma unflatten_nil [simp]: "unflatten [] = []"
  by (simp add: unflatten_def replace_all.simps)

lemma backslash_n_nonempty [simp]: "backslash_n \<noteq> []"
  by (simp add: backslash_n_def)

lemma unflatten_pair [simp]: "unflatten (backslash_n @ t) = newline # unflatten t"
  unfolding unflatten_def by (subst replace_all.simps) simp

lemma unflatten_other [simp]: "\<not> prefix backslash_n (c # t) \<Longrightarrow> unflatten (c # t) = c # unflatten t"
  unfolding unflatten_def by (subst replace_all.simps) simp

lemma unflatten_singleton [simp]: "unflatten [c] = [c]"
  by (rule trans [OF unflatten_other]) (simp_all add: backslash_n_def)

lemma prefix_backslash_n:
  "prefix backslash_n (c # t) \<longleftrightarrow> c = CHR 0x5C \<and> (\<exists>u. t = CHR ''n'' # u)"
  by (auto simp: backslash_n_def prefix_def)

lemma unflatten_cases:
  obtains (nil) "s = []" | (pair) t where "s = backslash_n @ t"
    | (other) c t where "s = c # t" "\<not> prefix backslash_n (c # t)"
  by (cases s) (auto simp: prefix_def)

text \<open>No occurrence of a backslash with an \<open>n\<close> is left, nor can one come about.\<close>

lemma hd_unflatten_n:
  "unflatten s = CHR ''n'' # u \<Longrightarrow> \<exists>t. s = CHR ''n'' # t"
  by (cases s rule: unflatten_cases) (auto simp: newline_def)

lemma unflatten_no_backslash_n: "\<not> sublist backslash_n (unflatten s)"
proof (induction "length s" arbitrary: s rule: less_induct)
  case less
  show ?case
  proof (cases s rule: unflatten_cases)
    case nil
    then show ?thesis by (simp add: backslash_n_def)
  next
    case (pair t)
    with less [of t] show ?thesis
      by (auto simp: sublist_Cons_right prefix_backslash_n newline_def)
  next
    case (other c t)
    with less [of t] show ?thesis
      by (auto simp: sublist_Cons_right prefix_backslash_n dest!: hd_unflatten_n)
  qed
qed

lemma unflatten_flatten_append:
  "\<not> sublist backslash_n s \<Longrightarrow> \<not> (\<exists>u. t = CHR ''n'' # u) \<Longrightarrow>
   unflatten (flatten s @ t) = s @ unflatten t"
proof (induction s)
  case (Cons c s)
  from Cons.prems have IH: "unflatten (flatten s @ t) = s @ unflatten t"
    by (intro Cons.IH) (auto simp: sublist_Cons_right)
  show ?case
  proof (cases "c = newline")
    case False
    have "\<not> prefix backslash_n (c # flatten s @ t)"
      using Cons.prems
      by (cases s) (auto simp: sublist_Cons_right prefix_backslash_n split: if_splits,
        auto simp: backslash_n_def)
    with False IH show ?thesis by simp
  qed (simp add: IH)
qed simp

section \<open>What a written line reads back as\<close>

text \<open>A text that survives the trip through one line of the file.\<close>

definition storable :: "string \<Rightarrow> bool" where
  "storable s \<longleftrightarrow> \<not> str_contains s backslash_n \<and> length (flatten s) < max_scan_token \<and>
     (s = [] \<or> last s \<noteq> CHR 0x0D)"

lemma last_flatten: "s \<noteq> [] \<Longrightarrow> last s \<noteq> CHR 0x0D \<Longrightarrow> last (flatten s) \<noteq> CHR 0x0D"
  by (cases s rule: rev_cases) (auto simp: backslash_n_def)

lemma drop_cr_flatten: "s = [] \<or> last s \<noteq> CHR 0x0D \<Longrightarrow> drop_cr (flatten s) = flatten s"
  using last_flatten [of s] by (cases "s = []") (auto simp: drop_cr_def)

lemma read_stored_line:
  assumes "storable s" and "os_open_err w f = None" and "os_files w f = Some (flatten s @ [newline])"
  shows "readLastCheckpoint f w = Ok s"
  using assms unflatten_flatten_append [of s "[]"]
  by (auto simp: readLastCheckpoint_def os_ReadFile_def scan_lines_def raw_lines_one newline_flatten
      drop_cr_flatten storable_def str_contains_def)

lemma read_empty_file:
  "os_open_err w f = None \<Longrightarrow> os_files w f = Some [] \<Longrightarrow> readLastCheckpoint f w = Ok []"
  by (simp add: readLastCheckpoint_def os_ReadFile_def scan_lines_def)

lemma unflatten_stored_file: "storable s \<Longrightarrow> unflatten (flatten s @ [newline]) = s @ [newline]"
  by (simp add: storable_def str_contains_def unflatten_flatten_append newline_def)

section \<open>The contract of the log info file\<close>

text \<open>
  What the consistency checks and the monitor loop rely on for each of the three logs. A value
  with size 0, or one that is the \<open>same\<close> as the previous value, is not written.
\<close>

locale log_store =
  fixes size_of :: "'c \<Rightarrow> int" and same :: "'c \<Rightarrow> 'c \<Rightarrow> bool"
    and encode :: "'c \<Rightarrow> string res" and decode :: "string \<Rightarrow> 'c res"
    and read_log :: "string \<Rightarrow> 'a os_scheme \<Rightarrow> 'c res"
    and write_log :: "'c \<Rightarrow> 'c option \<Rightarrow> string \<Rightarrow> bool \<Rightarrow> ('a os_scheme, unit) io"
  assumes write_skips:
      "size_of c = 0 \<or> \<not> force \<and> (\<exists>p. prev = Some p \<and> same p c) \<Longrightarrow>
       write_log c prev f force w = (Ok (), w)"
    and write_stores:
      "size_of c \<noteq> 0 \<Longrightarrow> force \<or> \<not> (\<exists>p. prev = Some p \<and> same p c) \<Longrightarrow>
       write_log c prev f force w =
         io_bind (io_res (encode c)) (\<lambda>s. io_wrap ''failed to write to file: ''
           (os_WriteFile f (flatten s @ [newline]))) w"
    and read_line:
      "storable s \<Longrightarrow> os_open_err w f = None \<Longrightarrow> os_files w f = Some (flatten s @ [newline]) \<Longrightarrow>
       read_log f w = decode s"
begin

definition skips :: "'c \<Rightarrow> 'c option \<Rightarrow> bool \<Rightarrow> bool" where
  "skips c prev force \<longleftrightarrow> size_of c = 0 \<or> \<not> force \<and> (\<exists>p. prev = Some p \<and> same p c)"

lemma write_eq:
  "write_log c prev f force w =
     (if skips c prev force then (Ok (), w)
      else io_bind (io_res (encode c)) (\<lambda>s. io_wrap ''failed to write to file: ''
        (os_WriteFile f (flatten s @ [newline]))) w)"
  using write_skips [of c force prev f w] write_stores [of c force prev f w]
  by (auto simp: skips_def)

lemma write_frame:
  "write_log c prev f force w = (r, w') \<Longrightarrow>
   (\<forall>q. q \<noteq> f \<longrightarrow> os_files w' q = os_files w q) \<and> os.more w' = os.more w \<and>
   os_open_err w' = os_open_err w \<and> os_write_cap w' = os_write_cap w"
  by (cases "encode c")
    (auto simp: write_eq io_bind_def io_res_def io_wrap_def split: prod.splits if_splits
      dest: os_WriteFile_frame)

lemma write_then_read:
  assumes "writable w f" and "encode c = Ok s" and "decode s = Ok c" and "storable s"
    and "\<not> skips c prev force"
  shows "\<exists>w'. write_log c prev f force w = (Ok (), w') \<and> read_log f w' = Ok c"
proof -
  let ?w = "w\<lparr>os_files := (os_files w)(f \<mapsto> flatten s @ [newline])\<rparr>"
  have "write_log c prev f force w = (Ok (), ?w)"
    using assms by (simp add: write_eq io_bind_def io_res_def io_wrap_def os_WriteFile_ok)
  moreover have "read_log f ?w = Ok c"
    using assms read_line [of s ?w f] by (simp add: writable_def)
  ultimately show ?thesis by blast
qed

text \<open>When a device is full, the file is lost: it was truncated before it is written.\<close>

lemma write_full:
  assumes "os_open_err w f = None" and "os_write_cap w f = Some 0" and "encode c = Ok s"
    and "\<not> skips c prev force"
  shows "write_log c prev f force w =
    (Fail (Errorf ''failed to write to file: '' (ErrWrite f)), w\<lparr>os_files := (os_files w)(f \<mapsto> [])\<rparr>)"
  using assms os_WriteFile_short [of w f 0 "flatten s @ [newline]"]
  by (simp add: write_eq io_bind_def io_res_def io_wrap_def)

text \<open>The stored value is always as recent as the last value that was written.\<close>

lemma write_latest:
  assumes "writable w f" and "encode c = Ok s" and "decode s = Ok c" and "storable s"
    and "\<And>p. prev = Some p \<Longrightarrow> read_log f w = Ok p"
  shows "\<exists>w'. write_log c prev f force w = (Ok (), w') \<and>
    (if skips c prev force then w' = w else read_log f w' = Ok c) \<and>
    (size_of c \<noteq> 0 \<longrightarrow> (\<exists>c'. read_log f w' = Ok c' \<and> (c' = c \<or> same c' c)))"
proof (cases "skips c prev force")
  case True
  with assms(5) show ?thesis by (auto simp: write_eq skips_def)
next
  case False
  with write_then_read [OF assms(1-4)] show ?thesis by fastforce
qed

end

interpretation v1_log: log_store sc_Size "\<lambda>p c. sc_Size p = sc_Size c"
  "\<lambda>c. rwrap ''failed to marshal checkpoint: '' (sc_MarshalText cd c)" "sc_UnmarshalText cd"
  "ReadLatestCheckpointRekorV1 cd" "WriteCheckpointRekorV1 cd" for cd
  by unfold_locales
    (auto simp: WriteCheckpointRekorV1_def writeCheckpointBytes_def io_return_def
      ReadLatestCheckpointRekorV1_def read_stored_line split: option.splits)

interpretation v2_log: log_store cp_Size "\<lambda>p c. cp_Origin p = cp_Origin c \<and> cp_Size p = cp_Size c"
  "\<lambda>c. Ok (cp_Marshal cd c)" "cp_Unmarshal cd"
  "ReadLatestCheckpointRekorV2 cd" "WriteCheckpointRekorV2 cd" for cd
  by unfold_locales
    (auto simp: WriteCheckpointRekorV2_def writeCheckpointBytes_def io_return_def io_res_def
      io_bind_def ReadLatestCheckpointRekorV2_def read_stored_line split: option.splits)

interpretation ct_log: log_store sth_TreeSize "\<lambda>p c. sth_TreeSize p = sth_TreeSize c"
  "sth_Marshal cd" "\<lambda>s. sth_Unmarshal cd (s @ [newline])"
  "ReadLatestCTSignedTreeHead cd" "WriteCTSignedTreeHead cd" for cd
  by unfold_locales
    (auto simp: WriteCTSignedTreeHead_def io_return_def ReadLatestCTSignedTreeHead_def os_ReadFile_def
      unflatten_stored_file split: option.splits)

section \<open>The identities file\<close>

lemma metadata_roundtrip:
  "int64_range (LatestIndex m) \<Longrightarrow> metadata_Unmarshal cd (metadata_Marshal m) = Ok m"
  by (cases m) (simp add: metadata_Unmarshal_def metadata_Marshal_def butlast_append atoi_itoa)

text \<open>The line of one entry.\<close>

definition identity_line :: "codec \<Rightarrow> string \<Rightarrow> LogEntry \<Rightarrow> string" where
  "identity_line cd fmt e =
     (if fmt = ''text'' then LogEntry_String e @ [newline]
      else if fmt = ''json'' then (case entry_Marshal cd e of Ok s \<Rightarrow> s @ [newline] | _ \<Rightarrow> [])
      else [])"

definition old_content :: "'a os_scheme \<Rightarrow> string \<Rightarrow> string" where
  "old_content w f = (case os_files w f of None \<Rightarrow> [] | Some c \<Rightarrow> c)"

definition append_file :: "string \<Rightarrow> string \<Rightarrow> 'a os_scheme \<Rightarrow> 'a os_scheme" where
  "append_file f d w = w\<lparr>os_files := (os_files w)(f \<mapsto> old_content w f @ d)\<rparr>"

lemma append_file_twice [simp]: "append_file f y (append_file f x w) = append_file f (x @ y) w"
  by (simp add: append_file_def old_content_def)

lemma append_file_simps [simp]:
  "writable (append_file f x w) q = writable w q"
  "os_files (append_file f x w) q = (if q = f then Some (old_content w f @ x) else os_files w q)"
  by (simp_all add: append_file_def writable_def)

lemma WriteIdentity_ok:
  assumes "writable w f" and "fmt = ''json'' \<Longrightarrow> is_ok (entry_Marshal cd e)"
  shows "WriteIdentity cd f fmt e w = (Ok (), append_file f (identity_line cd fmt e) w)"
  using assms
  by (cases "entry_Marshal cd e")
    (auto simp: WriteIdentity_def io_bind_def io_wrap_def os_open_write_def os_write_def writable_def
      identity_line_def old_content_def append_file_def io_res_def io_return_def is_ok_def
      split: option.splits)

lemma WriteIdentity_all:
  assumes "writable w f" and "fmt = ''json'' \<Longrightarrow> list_all (\<lambda>e. is_ok (entry_Marshal cd e)) es"
    and "es \<noteq> []"
  shows "io_each (\<lambda>e. io_wrap p (WriteIdentity cd f fmt e)) es w =
    (Ok (), append_file f (concat (map (identity_line cd fmt) es)) w)"
  using assms
proof (induction es arbitrary: w)
  case (Cons e es)
  have first: "WriteIdentity cd f fmt e w = (Ok (), append_file f (identity_line cd fmt e) w)"
    using Cons.prems by (intro WriteIdentity_ok) simp_all
  show ?case
  proof (cases "es = []")
    case False
    with Cons.IH [of "append_file f (identity_line cd fmt e) w"] Cons.prems show ?thesis
      by (simp add: io_bind_def io_wrap_def first)
  qed (simp add: io_bind_def io_wrap_def first io_return_def)
qed simp

text \<open>Writing the results leaves every other file alone, also when it fails.\<close>

lemma os_write_keeps:
  "idFile \<noteq> q \<Longrightarrow> keeps (same_file q u) (os_open_write trunc idFile)"
  "idFile \<noteq> q \<Longrightarrow> keeps (same_file q u) (os_write idFile data)"
  by (auto simp: keeps_def same_file_def os_open_write_def os_write_def Let_def split: option.splits)

lemma WriteIdentity_keeps: "idFile \<noteq> q \<Longrightarrow> keeps (same_file q u) (WriteIdentity cd idFile fmt e)"
  unfolding WriteIdentity_def by (intro keeps_intros os_write_keeps)

lemma WriteMatchedIdentityEntries_keeps:
  assumes "idFile \<noteq> q" and "metadataFile \<noteq> Some q"
  shows "keeps (same_file q u) (WriteMatchedIdentityEntries cd idFile fmt es metadataFile endIndex)"
  unfolding WriteMatchedIdentityEntries_def WriteIdentityMetadata_def os_WriteFile_def
  using assms by (intro keeps_intros WriteIdentity_keeps os_write_keeps) auto

section \<open>Properties\<close>

text \<open>A checkpoint survives being put on one line exactly if it does not itself contain a
  backslash followed by the letter n.\<close>

theorem flatten_roundtrip:
  "unflatten (flatten s) = s \<longleftrightarrow> \<not> str_contains s backslash_n"
  using unflatten_flatten_append [of s "[]"] unflatten_no_backslash_n [of "flatten s"]
  by (auto simp: str_contains_def)

text \<open>C29. The log info file of Rekor v1: with a disk that works, writing a checkpoint after a
  check against the stored one succeeds; the file then holds a checkpoint of the new size,
  the new one unless the write was skipped, in which case nothing changed; no other file and
  nothing else changes. A checkpoint of size 0 is never written.\<close>

theorem checkpoint_stored_v1:
  assumes "writable w f" and "sc_MarshalText cd c = Ok s" and "sc_UnmarshalText cd s = Ok c"
    and "storable s" and "\<And>p. prev = Some p \<Longrightarrow> ReadLatestCheckpointRekorV1 cd f w = Ok p"
  shows "\<exists>w'. WriteCheckpointRekorV1 cd c prev f force w = (Ok (), w') \<and>
    (if sc_Size c = 0 \<or> \<not> force \<and> (\<exists>p. prev = Some p \<and> sc_Size p = sc_Size c) then w' = w
     else ReadLatestCheckpointRekorV1 cd f w' = Ok c) \<and>
    (sc_Size c \<noteq> 0 \<longrightarrow> (\<exists>c'. ReadLatestCheckpointRekorV1 cd f w' = Ok c' \<and> sc_Size c' = sc_Size c)) \<and>
    (\<forall>q. q \<noteq> f \<longrightarrow> os_files w' q = os_files w q) \<and> os.more w' = os.more w"
  using v1_log.write_latest [of w f cd c s prev force] assms v1_log.write_frame
  unfolding v1_log.skips_def by fastforce

definition demo_checkpoint :: SignedCheckpoint where
  "demo_checkpoint = \<lparr>sc_Origin = ''rekor'', sc_Size = 7, sc_Hash = ''h'', sc_OtherContent = [],
     sc_Note = [], sc_Signatures = []\<rparr>"

definition demo_codec :: codec where
  "demo_codec =
     \<lparr>sc_MarshalText = (\<lambda>c. Ok ([newline] @ itoa (sc_Size c))),
      sc_UnmarshalText = (\<lambda>s. if s = [] then Fail (Err ''empty'')
        else rbind (atoi (tl s)) (\<lambda>n. Ok (demo_checkpoint\<lparr>sc_Size := n\<rparr>))),
      cp_Marshal = (\<lambda>c. cp_Origin c @ newline # itoa (cp_Size c)),
      cp_Unmarshal = (\<lambda>s. case split_on newline s of
           [orig, n] \<Rightarrow> rbind (atoi n) (\<lambda>k. Ok \<lparr>cp_Origin = orig, cp_Size = k, cp_Hash = []\<rparr>)
         | _ \<Rightarrow> Fail (Err ''malformed'')),
      sth_Marshal = (\<lambda>s. Ok (itoa (sth_TreeSize s))), sth_Unmarshal = (\<lambda>s. Fail (Err s)),
      entry_Marshal = (\<lambda>e. Ok (le_Subject e)), other_metadata = (\<lambda>s. Fail (Err s))\<rparr>"

definition demo_os :: os where
  "demo_os = \<lparr>os_files = Map.empty, os_open_err = (\<lambda>_. None), os_write_cap = (\<lambda>_. None)\<rparr>"

theorem checkpoint_stored_v1_witness:
  "\<exists>w'. WriteCheckpointRekorV1 demo_codec demo_checkpoint None ''log'' False demo_os = (Ok (), w') \<and>
     ReadLatestCheckpointRekorV1 demo_codec ''log'' w' = Ok demo_checkpoint"
proof -
  have "sc_MarshalText demo_codec demo_checkpoint = Ok ([newline] @ ''7'')"
    and "sc_UnmarshalText demo_codec ([newline] @ ''7'') = Ok demo_checkpoint"
    and "storable ([newline] @ ''7'')" and "writable demo_os ''log''"
    by (simp_all add: demo_codec_def demo_checkpoint_def itoa_def show_nat.simps atoi_def is_digit_def
        digit_val_def int64_range_def storable_def str_contains_def backslash_n_def newline_def
        max_scan_token_def sublist_Cons_right writable_def demo_os_def)
  from checkpoint_stored_v1 [OF this(4,1,2,3), of None False] show ?thesis
    by (auto simp: demo_checkpoint_def)
qed

text \<open>The log info file of Rekor v2: as for v1, but a checkpoint of another origin is also
  written when the sizes agree, so the stored origin is always the current one.\<close>

theorem checkpoint_stored_v2:
  assumes "writable w f" and "cp_Unmarshal cd (cp_Marshal cd c) = Ok c"
    and "storable (cp_Marshal cd c)"
    and "\<And>p. prev = Some p \<Longrightarrow> ReadLatestCheckpointRekorV2 cd f w = Ok p"
  shows "\<exists>w'. WriteCheckpointRekorV2 cd c prev f force w = (Ok (), w') \<and>
    (if cp_Size c = 0 \<or>
        \<not> force \<and> (\<exists>p. prev = Some p \<and> cp_Origin p = cp_Origin c \<and> cp_Size p = cp_Size c)
     then w' = w else ReadLatestCheckpointRekorV2 cd f w' = Ok c) \<and>
    (cp_Size c \<noteq> 0 \<longrightarrow> (\<exists>c'. ReadLatestCheckpointRekorV2 cd f w' = Ok c' \<and>
       cp_Origin c' = cp_Origin c \<and> cp_Size c' = cp_Size c)) \<and>
    (\<forall>q. q \<noteq> f \<longrightarrow> os_files w' q = os_files w q) \<and> os.more w' = os.more w"
  using v2_log.write_latest [of w f cd c "cp_Marshal cd c" prev force] assms v2_log.write_frame
  unfolding v2_log.skips_def by fastforce

theorem checkpoint_stored_v2_witness:
  "\<exists>w'. WriteCheckpointRekorV2 demo_codec \<lparr>cp_Origin = ''b'', cp_Size = 7, cp_Hash = []\<rparr>
       (Some \<lparr>cp_Origin = ''a'', cp_Size = 7, cp_Hash = []\<rparr>) ''log'' False
       (demo_os\<lparr>os_files := [''log'' \<mapsto> ''a'' @ backslash_n @ ''7'' @ [newline]]\<rparr>) = (Ok (), w') \<and>
     ReadLatestCheckpointRekorV2 demo_codec ''log'' w' = Ok \<lparr>cp_Origin = ''b'', cp_Size = 7, cp_Hash = []\<rparr>"
proof -
  let ?a = "\<lparr>cp_Origin = ''a'', cp_Size = 7, cp_Hash = []\<rparr>"
  let ?b = "\<lparr>cp_Origin = ''b'', cp_Size = 7, cp_Hash = []\<rparr>"
  let ?w = "demo_os\<lparr>os_files := [''log'' \<mapsto> ''a'' @ backslash_n @ ''7'' @ [newline]]\<rparr>"
  note eval = demo_codec_def itoa_def show_nat.simps atoi_def is_digit_def digit_val_def
    int64_range_def storable_def str_contains_def backslash_n_def newline_def max_scan_token_def
    sublist_Cons_right writable_def demo_os_def
  have b: "cp_Unmarshal demo_codec (cp_Marshal demo_codec ?b) = Ok ?b"
    "storable (cp_Marshal demo_codec ?b)" "writable ?w ''log''"
    "cp_Unmarshal demo_codec (''a'' @ newline # ''7'') = Ok ?a" "storable (''a'' @ newline # ''7'')"
    by (simp_all add: eval)
  have "readLastCheckpoint ''log'' ?w = Ok (''a'' @ newline # ''7'')"
    by (rule read_stored_line [OF b(5)]) (simp_all add: demo_os_def newline_def)
  with b(4) have "ReadLatestCheckpointRekorV2 demo_codec ''log'' ?w = Ok ?a"
    by (simp add: ReadLatestCheckpointRekorV2_def)
  then show ?thesis
    using checkpoint_stored_v2 [OF b(3,1,2), of "Some ?a" False] by auto
qed

text \<open>C31. The results of a search: on a disk that works, every found entry is appended to the
  identities file, one line each, in the order found, after what the file held, and the
  metadata file then reads back as the end index; the other files are left alone.\<close>

theorem matched_entries_written:
  assumes "writable w f" and "writable w m" and "f \<noteq> m" and "int64_range endIndex"
    and "fmt = ''json'' \<Longrightarrow> list_all (\<lambda>e. is_ok (entry_Marshal cd e)) es" and "es \<noteq> []"
  shows "\<exists>w'. WriteMatchedIdentityEntries cd f fmt es (Some m) endIndex w = (Ok (), w') \<and>
    os_files w' f = Some ((case os_files w f of None \<Rightarrow> [] | Some c \<Rightarrow> c) @
      concat (map (identity_line cd fmt) es)) \<and>
    ReadIdentityMetadata cd m w' = Ok \<lparr>LatestIndex = endIndex\<rparr> \<and>
    (\<forall>q. q \<noteq> f \<longrightarrow> q \<noteq> m \<longrightarrow> os_files w' q = os_files w q)"
proof -
  let ?w = "append_file f (concat (map (identity_line cd fmt) es)) w"
  let ?w' = "?w\<lparr>os_files := (os_files ?w)(m \<mapsto> metadata_Marshal \<lparr>LatestIndex = endIndex\<rparr>)\<rparr>"
  let ?each = "io_each (\<lambda>e. io_wrap ''failed to write entry: '' (WriteIdentity cd f fmt e)) es"
  have each: "?each w = (Ok (), ?w)"
    using assms by (intro WriteIdentity_all) auto
  have "WriteMatchedIdentityEntries cd f fmt es (Some m) endIndex w = (Ok (), ?w')"
    using assms(2) unfolding WriteMatchedIdentityEntries_def
    by (simp add: io_bind_run(1) [of ?each, OF each] WriteIdentityMetadata_def io_wrap_apply
        os_WriteFile_ok)
  moreover have "ReadIdentityMetadata cd m ?w' = Ok \<lparr>LatestIndex = endIndex\<rparr>"
    using assms(2,4) by (simp add: ReadIdentityMetadata_def os_ReadFile_def metadata_roundtrip
        append_file_def writable_def)
  ultimately show ?thesis
    using assms(3) by (intro exI [of _ ?w']) (simp add: old_content_def)
qed

theorem matched_entries_written_witness:
  "\<exists>w'. WriteMatchedIdentityEntries demo_codec ''ids'' ''text'' [demo_entry ''a'' 4] (Some ''md'') 9
       (demo_os\<lparr>os_files := [''ids'' \<mapsto> ''x'' @ [newline]]\<rparr>) = (Ok (), w') \<and>
     os_files w' ''ids'' = Some (''x'' @ [newline] @ ''a 4'' @ [newline]) \<and>
     ReadIdentityMetadata demo_codec ''md'' w' = Ok \<lparr>LatestIndex = 9\<rparr>"
proof -
  have line: "identity_line demo_codec ''text'' (demo_entry ''a'' 4) = ''a 4'' @ [newline]"
    by (simp add: identity_line_def LogEntry_String_def demo_entry_def zero_LogEntry_def oid_String_def
        trim_space_graphic graphic_def trim_space_nil itoa_def show_nat.simps)
  show ?thesis
    using matched_entries_written [of "demo_os\<lparr>os_files := [''ids'' \<mapsto> ''x'' @ [newline]]\<rparr>" "''ids''" "''md''" 9
        "''text''" demo_codec "[demo_entry ''a'' 4]"]
    by (auto simp: line writable_def demo_os_def int64_range_def)
qed

end
