(* ===== verification/Notifications.thy ===== *)
theory Notifications
  imports LogFile
begin

text \<open>
  \<open>pkg/notifications\<close>: the configuration of a monitor run and its validation, the payloads and
  the platforms they are sent to. The clients of the platforms are the parameter
  \<open>platform_lib\<close>; they change the state of type \<open>'n\<close> outside the program.
\<close>

section \<open>What is sent\<close>

record NotificationContext =
  nc_MonitorType :: string
  nc_Subject :: string

definition CreateNotificationContext :: "string \<Rightarrow> string \<Rightarrow> NotificationContext" where
  "CreateNotificationContext monitorType subject =
     \<lparr>nc_MonitorType = monitorType, nc_Subject = subject\<rparr>"

text \<open>The two types that implement \<open>NotificationBodyConverter\<close>.\<close>

datatype payload =
    MonitoredIdentityList "MonitoredIdentity list"
  | FailedLogEntryList "FailedLogEntry list"

record NotificationData =
  nd_Context :: NotificationContext
  nd_Payload :: payload

text \<open>Messages and requests the platforms' clients take.\<close>

record email_message =
  em_From :: "string \<times> string"
  em_To :: "string \<times> string"
  em_Subject :: string
  em_HTML :: string

record IssueRequest =
  ir_Title :: string
  ir_Body :: string
  ir_Labels :: "string list"
  ir_Assignee :: string

datatype github_client = TokenClient string | CustomClient nat

text \<open>
  Code outside the repository: \<open>json.MarshalIndent\<close> of the payloads; the check of an address by
  \<open>go-mail\<close>, its client (host, user name, password, custom options) and the delivery; the
  GitHub, SendGrid and Mailgun clients.
\<close>

record ('n, 'o) platform_lib =
  json_Identities :: "MonitoredIdentity list \<Rightarrow> string res"
  json_Failed :: "FailedLogEntry list \<Rightarrow> string res"
  mail_Address :: "string \<Rightarrow> unit res"
  mail_NewClient :: "string \<Rightarrow> string \<Rightarrow> string \<Rightarrow> 'o list \<Rightarrow> unit res"
  mail_DialAndSend :: "string \<Rightarrow> string \<Rightarrow> string \<Rightarrow> 'o list \<Rightarrow> email_message \<Rightarrow> ('n, unit) io"
  Issues_Create :: "github_client \<Rightarrow> string \<Rightarrow> string \<Rightarrow> IssueRequest \<Rightarrow> ('n, unit) io"
  sendgrid_Send :: "string \<Rightarrow> email_message \<Rightarrow> ('n, unit) io"
  mailgun_Send :: "string \<Rightarrow> string \<Rightarrow> email_message \<Rightarrow> ('n, unit) io"

definition PrintMonitoredIdentities ::
  "('n, 'o) platform_lib \<Rightarrow> MonitoredIdentity list \<Rightarrow> string res" where
  "PrintMonitoredIdentities pl monitoredIdentities =
     rbind (json_Identities pl monitoredIdentities) (\<lambda>jsonBody. Ok jsonBody)"

definition ToNotificationBody :: "('n, 'o) platform_lib \<Rightarrow> payload \<Rightarrow> string res" where
  "ToNotificationBody pl p =
     (case p of
        MonitoredIdentityList identities \<Rightarrow> PrintMonitoredIdentities pl identities
      | FailedLogEntryList failedEntries \<Rightarrow>
          rbind (json_Failed pl failedEntries) (\<lambda>jsonBody. Ok jsonBody))"

definition ToNotificationHeader :: "payload \<Rightarrow> string" where
  "ToNotificationHeader p =
     (case p of
        MonitoredIdentityList _ \<Rightarrow>
          ''Found the following pairs of monitored identities and matching log entries: ''
      | FailedLogEntryList _ \<Rightarrow> ''Failed to parse the following log entries: '')"

section \<open>The platforms\<close>

record GitHubIssueInput =
  gi_AssigneeUsername :: string
  gi_RepositoryOwner :: string
  gi_RepositoryName :: string
  gi_AuthenticationToken :: string
  gi_GitHubClient :: "nat option"

record 'o EmailNotificationInput =
  ei_RecipientEmailAddress :: string
  ei_SenderEmailAddress :: string
  ei_SenderSMTPUsername :: string
  ei_SenderSMTPPassword :: string
  ei_SMTPHostURL :: string
  ei_SMTPCustomOptions :: "'o list"

record SendGridNotificationInput =
  sg_RecipientName :: string
  sg_RecipientEmailAddress :: string
  sg_SenderName :: string
  sg_SenderEmailAddress :: string
  sg_SendGridAPIKey :: string

record MailgunNotificationInput =
  mg_RecipientEmailAddress :: string
  mg_SenderEmailAddress :: string
  mg_MailgunAPIKey :: string
  mg_MailgunDomainName :: string

datatype 'o NotificationPlatform =
    GitHub GitHubIssueInput
  | SMTP "'o EmailNotificationInput"
  | SendGrid SendGridNotificationInput
  | Mailgun MailgunNotificationInput

definition generateEmailBody :: "('n, 'o) platform_lib \<Rightarrow> NotificationData \<Rightarrow> string res" where
  "generateEmailBody pl data =
     (let header = ToNotificationHeader (nd_Payload data)
      in rbind (ToNotificationBody pl (nd_Payload data)) (\<lambda>body.
           Ok (join [newline] [header, ''<pre>'' @ body @ ''</pre>''])))"

definition generateGitHubIssueBody :: "('n, 'o) platform_lib \<Rightarrow> NotificationData \<Rightarrow> string res"
where
  "generateGitHubIssueBody pl data =
     (let header = ToNotificationHeader (nd_Payload data);
          fence = replicate 3 (CHR 0x60)
      in rbind (ToNotificationBody pl (nd_Payload data)) (\<lambda>body.
           Ok (join [newline] [header, fence @ [newline] @ body @ [newline] @ fence])))"

definition Send_GitHub ::
  "('n, 'o) platform_lib \<Rightarrow> GitHubIssueInput \<Rightarrow> NotificationData \<Rightarrow> ('n, unit) io" where
  "Send_GitHub pl gi data =
     (let issueTitle = nc_Subject (nd_Context data)
      in io_bind (io_res (generateGitHubIssueBody pl data)) (\<lambda>issueBody.
           let client = (case gi_GitHubClient gi of
                 None \<Rightarrow> TokenClient (gi_AuthenticationToken gi)
               | Some c \<Rightarrow> CustomClient c);
               labels = [nc_MonitorType (nd_Context data), ''automatically generated'']
           in Issues_Create pl client (gi_RepositoryOwner gi) (gi_RepositoryName gi)
                \<lparr>ir_Title = issueTitle, ir_Body = issueBody, ir_Labels = labels,
                 ir_Assignee = gi_AssigneeUsername gi\<rparr>))"

definition Send_SMTP ::
  "('n, 'o) platform_lib \<Rightarrow> 'o EmailNotificationInput \<Rightarrow> NotificationData \<Rightarrow> ('n, unit) io" where
  "Send_SMTP pl ei data =
     io_bind (io_res (mail_Address pl (ei_SenderEmailAddress ei))) (\<lambda>_.
     io_bind (io_res (mail_Address pl (ei_RecipientEmailAddress ei))) (\<lambda>_.
     io_bind (io_res (generateEmailBody pl data)) (\<lambda>emailBody.
     io_bind (io_res (mail_NewClient pl (ei_SMTPHostURL ei) (ei_SenderSMTPUsername ei)
         (ei_SenderSMTPPassword ei) (ei_SMTPCustomOptions ei))) (\<lambda>_.
     mail_DialAndSend pl (ei_SMTPHostURL ei) (ei_SenderSMTPUsername ei)
       (ei_SenderSMTPPassword ei) (ei_SMTPCustomOptions ei)
       \<lparr>em_From = ([], ei_SenderEmailAddress ei), em_To = ([], ei_RecipientEmailAddress ei),
        em_Subject = nc_Subject (nd_Context data), em_HTML = emailBody\<rparr>))))"

definition Send_SendGrid ::
  "('n, 'o) platform_lib \<Rightarrow> SendGridNotificationInput \<Rightarrow> NotificationData \<Rightarrow> ('n, unit) io" where
  "Send_SendGrid pl sg data =
     io_bind (io_res (generateEmailBody pl data)) (\<lambda>emailHTMLBody.
       sendgrid_Send pl (sg_SendGridAPIKey sg)
         \<lparr>em_From = (sg_SenderName sg, sg_SenderEmailAddress sg),
          em_To = (sg_RecipientName sg, sg_RecipientEmailAddress sg),
          em_Subject = nc_Subject (nd_Context data), em_HTML = emailHTMLBody\<rparr>)"

definition Send_Mailgun ::
  "('n, 'o) platform_lib \<Rightarrow> MailgunNotificationInput \<Rightarrow> NotificationData \<Rightarrow> ('n, unit) io" where
  "Send_Mailgun pl mg data =
     io_bind (io_res (generateEmailBody pl data)) (\<lambda>emailHTMLBody.
       mailgun_Send pl (mg_MailgunDomainName mg) (mg_MailgunAPIKey mg)
         \<lparr>em_From = ([], mg_SenderEmailAddress mg), em_To = ([], mg_RecipientEmailAddress mg),
          em_Subject = nc_Subject (nd_Context data), em_HTML = emailHTMLBody\<rparr>)"

fun Send ::
  "('n, 'o) platform_lib \<Rightarrow> 'o NotificationPlatform \<Rightarrow> NotificationData \<Rightarrow> ('n, unit) io" where
  "Send pl (GitHub gi) data = Send_GitHub pl gi data"
| "Send pl (SMTP ei) data = Send_SMTP pl ei data"
| "Send pl (SendGrid sg) data = Send_SendGrid pl sg data"
| "Send pl (Mailgun mg) data = Send_Mailgun pl mg data"

definition TriggerNotifications ::
  "('n, 'o) platform_lib \<Rightarrow> 'o NotificationPlatform list \<Rightarrow> NotificationData \<Rightarrow> ('n, unit) io" where
  "TriggerNotifications pl notificationPlatforms data =
     io_each (\<lambda>notificationPlatform.
         io_wrap ''error sending notification from platform: '' (Send pl notificationPlatform data))
       notificationPlatforms"

section \<open>Configuration\<close>

record ConfigMonitoredValues =
  cm_CertificateIdentities :: "CertificateIdentity list"
  cm_Fingerprints :: "string list"
  cm_Subjects :: "string list"
  cm_OIDMatchers :: OIDMatchers

record 'o IdentityMonitorConfiguration =
  StartIndex :: "int64 option"
  EndIndex :: "int64 option"
  MonitoredValues_of :: ConfigMonitoredValues
  OutputIdentitiesFile :: string
  OutputIdentitiesFormat :: string
  LogInfoFile :: string
  IdentityMetadataFile :: "string option"
  GitHubIssue :: "GitHubIssueInput option"
  EmailNotificationSMTP :: "'o EmailNotificationInput option"
  EmailNotificationMailgun :: "MailgunNotificationInput option"
  EmailNotificationSendGrid :: "SendGridNotificationInput option"
  CARootsFile :: string
  CAIntermediatesFile :: string

definition CreateNotificationPool :: "'o IdentityMonitorConfiguration \<Rightarrow> 'o NotificationPlatform list"
where
  "CreateNotificationPool config =
     (case GitHubIssue config of None \<Rightarrow> [] | Some i \<Rightarrow> [GitHub i]) @
     (case EmailNotificationSMTP config of None \<Rightarrow> [] | Some i \<Rightarrow> [SMTP i]) @
     (case EmailNotificationSendGrid config of None \<Rightarrow> [] | Some i \<Rightarrow> [SendGrid i]) @
     (case EmailNotificationMailgun config of None \<Rightarrow> [] | Some i \<Rightarrow> [Mailgun i])"

definition validatePEMFile :: "certlib \<Rightarrow> 'a os_scheme \<Rightarrow> string \<Rightarrow> unit res" where
  "validatePEMFile lib w pemFile =
     (if pemFile = [] then Ok ()
      else rbind (rwrap (''invalid trusted CA file '' @ pemFile @ '': '') (os_Stat pemFile w)) (\<lambda>_.
        rbind (rwrap (''failed to read trusted CA file '' @ pemFile @ '': '') (os_ReadFile pemFile w))
          (\<lambda>caBytes.
             if \<not> pem_Decode lib caBytes
             then Fail (Err (''invalid trusted CA file '' @ pemFile @ '': not a valid PEM file''))
             else Ok ())))"

text \<open>One expression of the configuration: \<open>what\<close> names it in the error.\<close>

definition check_regex :: "certlib \<Rightarrow> string \<Rightarrow> string \<Rightarrow> unit res" where
  "check_regex lib what expr =
     rbind (rwrap (''invalid '' @ what @ '' regex '' @ expr @ '': '') (regexp_Compile lib expr)) (\<lambda>_. Ok ())"

text \<open>\<open>Validate\<close>: \<open>Ok ()\<close> for a nil error.\<close>

definition Validate ::
  "certlib \<Rightarrow> 'a os_scheme \<Rightarrow> 'o IdentityMonitorConfiguration \<Rightarrow> unit res" where
  "Validate lib w c =
     rbind (rmap (\<lambda>certIdentity.
         rbind (check_regex lib ''certSubject'' (ci_CertSubject certIdentity)) (\<lambda>_.
           rmap (check_regex lib ''issuer'') (ci_Issuers certIdentity)))
       (cm_CertificateIdentities (MonitoredValues_of c))) (\<lambda>_.
     rbind (rmap (check_regex lib ''subject'') (cm_Subjects (MonitoredValues_of c))) (\<lambda>_.
     if CAIntermediatesFile c \<noteq> [] \<and> CARootsFile c = []
     then Fail (Err ''intermediates CA file is set but roots CA file is not set'')
     else
     rbind (rwrap (''invalid CARoots file '' @ CARootsFile c @ '': '')
         (validatePEMFile lib w (CARootsFile c))) (\<lambda>_.
     rbind (rwrap (''invalid CAIntermediates file '' @ CAIntermediatesFile c @ '': '')
         (validatePEMFile lib w (CAIntermediatesFile c))) (\<lambda>_.
     if OutputIdentitiesFormat c \<in> {''text'', ''json'', []} then Ok ()
     else Fail (Err (''invalid OutputIdentitiesFormat '' @ OutputIdentitiesFormat c @
       '': must be '' @ [CHR 0x27] @ ''text'' @ [CHR 0x27] @ '' or '' @ [CHR 0x27] @ ''json'' @ [CHR 0x27]))))))"

section \<open>Lemmas\<close>

lemma io_each_append:
  "io_each f xs w = (Ok (), w') \<Longrightarrow> io_each f (xs @ ys) w = io_each f ys w'"
  by (induction xs arbitrary: w) (auto simp: io_bind_def io_return_def split: prod.splits res.splits)

lemma io_each_stops:
  "f x w = (Fail e, w') \<Longrightarrow> io_each f (x # xs) w = (Fail e, w')"
  by (simp add: io_bind_def)

lemma check_regex_Ok [simp]: "check_regex lib what e = Ok () \<longleftrightarrow> is_ok (regexp_Compile lib e)"
  by (cases "regexp_Compile lib e") (simp_all add: check_regex_def is_ok_def)

lemma list_all2_unit: "list_all2 (\<lambda>x (y::unit). P x) xs ys \<longleftrightarrow> length ys = length xs \<and> list_all P xs"
  by (induction xs arbitrary: ys) (auto simp: list_all2_Cons1 length_Suc_conv)

lemma rmap_ok_iff: "(\<exists>ys. rmap f xs = Ok ys) \<longleftrightarrow> list_all (\<lambda>x. \<exists>y. f x = Ok y) xs"
  by (induction xs) (auto simp: res_simps list_all2_Cons1)

text \<open>A list of expressions that all compile.\<close>

definition regexes_ok :: "certlib \<Rightarrow> string list \<Rightarrow> bool" where
  "regexes_ok lib es \<longleftrightarrow> list_all (\<lambda>e. is_ok (regexp_Compile lib e)) es"

lemma rmap_check_regex:
  "(\<exists>us. rmap (check_regex lib what) es = Ok us) \<longleftrightarrow> regexes_ok lib es"
  by (simp add: rmap_ok_iff regexes_ok_def)

lemma cert_identities_check:
  "(\<exists>us. rmap (\<lambda>ci. rbind (check_regex lib a (ci_CertSubject ci)) (\<lambda>_.
       rmap (check_regex lib b) (ci_Issuers ci))) (cis :: CertificateIdentity list) = Ok us) \<longleftrightarrow>
   regexes_ok lib (concat (map (\<lambda>ci. ci_CertSubject ci # ci_Issuers ci) cis))"
proof -
  have "(\<exists>y. rbind (check_regex lib a (ci_CertSubject ci)) (\<lambda>_.
       rmap (check_regex lib b) (ci_Issuers ci)) = Ok y) \<longleftrightarrow>
    regexes_ok lib (ci_CertSubject ci # ci_Issuers ci)" for ci :: CertificateIdentity
    using rmap_check_regex [of lib b "ci_Issuers ci"]
    by (auto simp: rbind_Ok_iff regexes_ok_def)
  then show ?thesis
    unfolding rmap_ok_iff by (induction cis) (simp_all add: regexes_ok_def)
qed

text \<open>A CA file that \<open>Validate\<close> accepts.\<close>

definition pem_file_ok :: "certlib \<Rightarrow> 'a os_scheme \<Rightarrow> string \<Rightarrow> bool" where
  "pem_file_ok lib w f \<longleftrightarrow> f = [] \<or>
     (case os_ReadFile f w of Ok c \<Rightarrow> pem_Decode lib c | _ \<Rightarrow> False)"

lemma validatePEMFile_Ok: "validatePEMFile lib w f = Ok () \<longleftrightarrow> pem_file_ok lib w f"
  by (auto simp: validatePEMFile_def pem_file_ok_def res_simps os_Stat_def os_ReadFile_def
      split: option.splits)

lemma Validate_Ok:
  "Validate lib w c = Ok () \<longleftrightarrow>
     regexes_ok lib (concat (map (\<lambda>ci. ci_CertSubject ci # ci_Issuers ci)
       (cm_CertificateIdentities (MonitoredValues_of c)))) \<and>
     regexes_ok lib (cm_Subjects (MonitoredValues_of c)) \<and>
     \<not> (CAIntermediatesFile c \<noteq> [] \<and> CARootsFile c = []) \<and>
     pem_file_ok lib w (CARootsFile c) \<and> pem_file_ok lib w (CAIntermediatesFile c) \<and>
     OutputIdentitiesFormat c \<in> {''text'', ''json'', []}"
  unfolding Validate_def rbind_Ok_iff
  using cert_identities_check [of lib "''certSubject''" "''issuer''"] rmap_check_regex [of lib "''subject''"]
  by (auto simp: rbind_Ok_iff rwrap_Ok_iff validatePEMFile_Ok split: if_splits)

section \<open>Properties\<close>

text \<open>C34. \<open>Validate\<close> accepts a configuration exactly if every regular expression of the
  certificate identities and subjects compiles, an intermediates file comes with a roots file,
  both files (if given) can be read and hold PEM data, and the output format is text, JSON or
  left out.\<close>

theorem validate_spec:
  "Validate lib w c = Ok () \<longleftrightarrow>
     regexes_ok lib (concat (map (\<lambda>ci. ci_CertSubject ci # ci_Issuers ci)
       (cm_CertificateIdentities (MonitoredValues_of c)))) \<and>
     regexes_ok lib (cm_Subjects (MonitoredValues_of c)) \<and>
     \<not> (CAIntermediatesFile c \<noteq> [] \<and> CARootsFile c = []) \<and>
     pem_file_ok lib w (CARootsFile c) \<and> pem_file_ok lib w (CAIntermediatesFile c) \<and>
     OutputIdentitiesFormat c \<in> {''text'', ''json'', []}"
  by (rule Validate_Ok)

text \<open>The kinds of platforms, in the order in which the pool is made.\<close>

datatype platform_kind = GitHubKind | SMTPKind | SendGridKind | MailgunKind

fun kind_of :: "'o NotificationPlatform \<Rightarrow> platform_kind" where
  "kind_of (GitHub i) = GitHubKind"
| "kind_of (SMTP i) = SMTPKind"
| "kind_of (SendGrid i) = SendGridKind"
| "kind_of (Mailgun i) = MailgunKind"

fun place :: "platform_kind \<Rightarrow> nat" where
  "place GitHubKind = 0"
| "place SMTPKind = 1"
| "place SendGridKind = 2"
| "place MailgunKind = 3"

lemma place_inj: "place a = place b \<Longrightarrow> a = b"
  by (cases a; cases b) simp_all

instantiation platform_kind :: linorder
begin

definition less_eq_platform_kind :: "platform_kind \<Rightarrow> platform_kind \<Rightarrow> bool" where
  "less_eq_platform_kind a b \<longleftrightarrow> place a \<le> place b"

definition less_platform_kind :: "platform_kind \<Rightarrow> platform_kind \<Rightarrow> bool" where
  "less_platform_kind a b \<longleftrightarrow> place a < place b"

instance
  by standard (auto simp: less_eq_platform_kind_def less_platform_kind_def intro: place_inj)

end

definition configured_kinds :: "'o IdentityMonitorConfiguration \<Rightarrow> platform_kind set" where
  "configured_kinds config =
     {k. case k of
        GitHubKind \<Rightarrow> GitHubIssue config \<noteq> None
      | SMTPKind \<Rightarrow> EmailNotificationSMTP config \<noteq> None
      | SendGridKind \<Rightarrow> EmailNotificationSendGrid config \<noteq> None
      | MailgunKind \<Rightarrow> EmailNotificationMailgun config \<noteq> None}"

lemma pool_kinds:
  "sorted_wrt (<) (map kind_of (CreateNotificationPool config)) \<and>
   set (map kind_of (CreateNotificationPool config)) = configured_kinds config"
  by (auto simp: CreateNotificationPool_def configured_kinds_def less_platform_kind_def
      split: option.splits platform_kind.splits)

text \<open>C35. Notifications go to the configured platforms in the order GitHub, SMTP, SendGrid,
  Mailgun. If all of them accept, the call succeeds; the first that fails ends it with its
  error, and the platforms after it are not contacted.\<close>

theorem notifications_in_order:
  assumes "CreateNotificationPool config = ps @ qs"
    and "io_each (\<lambda>p. Send pl p data) ps n = (Ok (), n1)"
  shows "(qs = [] \<longrightarrow> TriggerNotifications pl (CreateNotificationPool config) data n = (Ok (), n1)) \<and>
    (\<forall>q rest e n2. qs = q # rest \<and> Send pl q data n1 = (Fail e, n2) \<longrightarrow>
       TriggerNotifications pl (CreateNotificationPool config) data n =
         (Fail (Errorf ''error sending notification from platform: '' e), n2)) \<and>
    sorted_wrt (<) (map kind_of (ps @ qs)) \<and> set (map kind_of (ps @ qs)) = configured_kinds config"
proof -
  let ?f = "\<lambda>p. io_wrap ''error sending notification from platform: '' (Send pl p data)"
  have "io_each ?f ps n = (Ok (), n1)"
    using assms(2)
    by (induction ps arbitrary: n) (auto simp: io_bind_def io_return_def io_wrap_def split: prod.splits res.splits)
  then have run: "TriggerNotifications pl (CreateNotificationPool config) data n = io_each ?f qs n1"
    unfolding TriggerNotifications_def assms(1) by (rule io_each_append)
  have "sorted_wrt (<) (map kind_of (ps @ qs))" "set (map kind_of (ps @ qs)) = configured_kinds config"
    unfolding assms(1) [symmetric] by (simp_all only: pool_kinds)
  then show ?thesis by (auto simp: run io_return_def io_bind_def io_wrap_def)
qed

text \<open>A library that counts what it delivers and whose mail server is down.\<close>

definition demo_platforms :: "(string list, unit) platform_lib" where
  "demo_platforms =
     \<lparr>json_Identities = (\<lambda>_. Ok ''[]''), json_Failed = (\<lambda>_. Ok ''[]''),
      mail_Address = (\<lambda>_. Ok ()), mail_NewClient = (\<lambda>_ _ _ _. Ok ()),
      mail_DialAndSend = (\<lambda>_ _ _ _ m n. (Fail (Err ''down''), n)),
      Issues_Create = (\<lambda>_ _ _ r n. (Ok (), ir_Title r # n)),
      sendgrid_Send = (\<lambda>_ m n. (Ok (), em_Subject m # n)),
      mailgun_Send = (\<lambda>_ _ m n. (Ok (), em_Subject m # n))\<rparr>"

definition demo_config :: "unit IdentityMonitorConfiguration" where
  "demo_config =
     \<lparr>StartIndex = None, EndIndex = None,
      MonitoredValues_of = \<lparr>cm_CertificateIdentities = [], cm_Fingerprints = [], cm_Subjects = [],
        cm_OIDMatchers = demo_matchers\<rparr>,
      OutputIdentitiesFile = ''ids'', OutputIdentitiesFormat = ''text'', LogInfoFile = ''log'',
      IdentityMetadataFile = None,
      GitHubIssue = Some \<lparr>gi_AssigneeUsername = ''a'', gi_RepositoryOwner = ''o'',
        gi_RepositoryName = ''r'', gi_AuthenticationToken = ''t'', gi_GitHubClient = None\<rparr>,
      EmailNotificationSMTP = Some \<lparr>ei_RecipientEmailAddress = ''x'', ei_SenderEmailAddress = ''y'',
        ei_SenderSMTPUsername = ''u'', ei_SenderSMTPPassword = ''p'', ei_SMTPHostURL = ''h'',
        ei_SMTPCustomOptions = []\<rparr>,
      EmailNotificationMailgun = None,
      EmailNotificationSendGrid = Some \<lparr>sg_RecipientName = ''n'', sg_RecipientEmailAddress = ''x'',
        sg_SenderName = ''s'', sg_SenderEmailAddress = ''y'', sg_SendGridAPIKey = ''k''\<rparr>,
      CARootsFile = [], CAIntermediatesFile = []\<rparr>"

theorem notifications_in_order_witness:
  "TriggerNotifications demo_platforms (CreateNotificationPool demo_config)
     \<lparr>nd_Context = CreateNotificationContext ''m'' ''s'', nd_Payload = MonitoredIdentityList []\<rparr> [] =
   (Fail (Errorf ''error sending notification from platform: '' (Err ''down'')), [''s''])"
proof -
  obtain p q r where pool: "CreateNotificationPool demo_config = [p] @ [q, r]"
    and p: "p = GitHub (the (GitHubIssue demo_config))"
    and q: "q = SMTP (the (EmailNotificationSMTP demo_config))"
    by (simp add: CreateNotificationPool_def demo_config_def)
  let ?d = "\<lparr>nd_Context = CreateNotificationContext ''m'' ''s'', nd_Payload = MonitoredIdentityList []\<rparr>"
  have "io_each (\<lambda>p. Send demo_platforms p ?d) [p] [] = (Ok (), [''s''])"
    and "Send demo_platforms q ?d [''s''] = (Fail (Err ''down''), [''s''])"
    by (simp_all add: p q Send_GitHub_def Send_SMTP_def generateGitHubIssueBody_def generateEmailBody_def
        ToNotificationBody_def PrintMonitoredIdentities_def demo_platforms_def demo_config_def
        CreateNotificationContext_def io_bind_def io_res_def io_return_def Let_def)
  then show ?thesis
    using notifications_in_order [OF pool, of demo_platforms ?d "[]" "[''s'']"] by blast
qed

end
