(* ===== verification/Scan.thy ===== *)
theory Scan
  imports Notifications
begin

text \<open>
  What the searches of the three logs share. A search scans the entries one by one; an entry
  yields found entries and at most one failure, and later matchers of an entry are skipped
  after a failure. The locale \<open>entry_scan\<close> is the contract between the scan of one entry and
  the report that is made of the whole search.
\<close>

section \<open>The found entries\<close>

text \<open>The composite literals of the matchers; fields they leave out are zero.\<close>

definition fingerprint_entry :: "string \<Rightarrow> string \<Rightarrow> int64 \<Rightarrow> string \<Rightarrow> LogEntry" where
  "fingerprint_entry monitoredFp fp index uuid = zero_LogEntry
     \<lparr>le_MatchedIdentity := monitoredFp, le_MatchedIdentityType := MatchedIdentityTypeFingerprint,
      le_Fingerprint := fp, le_Index := index, le_UUID := uuid\<rparr>"

definition cert_entry :: "string \<Rightarrow> string \<Rightarrow> string \<Rightarrow> int64 \<Rightarrow> string \<Rightarrow> LogEntry" where
  "cert_entry monitoredSubject sub iss index uuid = zero_LogEntry
     \<lparr>le_MatchedIdentity := monitoredSubject,
      le_MatchedIdentityType := MatchedIdentityTypeCertSubject,
      le_CertSubject := sub, le_Issuer := iss, le_Index := index, le_UUID := uuid\<rparr>"

definition subject_entry :: "string \<Rightarrow> string \<Rightarrow> int64 \<Rightarrow> string \<Rightarrow> LogEntry" where
  "subject_entry monitoredSub sub index uuid = zero_LogEntry
     \<lparr>le_MatchedIdentity := monitoredSub, le_MatchedIdentityType := MatchedIdentityTypeSubject,
      le_Subject := sub, le_Index := index, le_UUID := uuid\<rparr>"

definition extension_entry :: "ObjectIdentifier \<Rightarrow> string \<Rightarrow> int64 \<Rightarrow> string \<Rightarrow> LogEntry" where
  "extension_entry oid extValue index uuid = zero_LogEntry
     \<lparr>le_MatchedIdentity := extValue,
      le_MatchedIdentityType := MatchedIdentityTypeExtensionValue,
      le_Index := index, le_UUID := uuid, le_OIDExtension := oid, le_ExtensionValue := extValue\<rparr>"

lemma found_entry_fields [simp]:
  "le_MatchedIdentity (fingerprint_entry a b i u) = a"
  "le_Index (fingerprint_entry a b i u) = i" "le_UUID (fingerprint_entry a b i u) = u"
  "le_MatchedIdentity (cert_entry a b c i u) = a"
  "le_Index (cert_entry a b c i u) = i" "le_UUID (cert_entry a b c i u) = u"
  "le_MatchedIdentity (subject_entry a b i u) = a"
  "le_Index (subject_entry a b i u) = i" "le_UUID (subject_entry a b i u) = u"
  "le_MatchedIdentity (extension_entry oid v i u) = v"
  "le_Index (extension_entry oid v i u) = i" "le_UUID (extension_entry oid v i u) = u"
  by (simp_all add: fingerprint_entry_def cert_entry_def subject_entry_def extension_entry_def)

section \<open>Scanning\<close>

type_synonym scan = "LogEntry list \<times> FailedLogEntry list"

text \<open>An entry that could not be read: one failure, no found entries.\<close>

definition scan_failed :: "FailedLogEntry res \<Rightarrow> scan res" where
  "scan_failed r = rbind r (\<lambda>f. Ok ([], [f]))"

text \<open>The matchers of an entry in turn: the found entries are appended; the first error adds a
  failure with the message of that matcher and ends the entry (\<open>continue\<close>).\<close>

fun match_steps ::
  "(string \<Rightarrow> go_error \<Rightarrow> FailedLogEntry res) \<Rightarrow> (string \<times> LogEntry list res) list \<Rightarrow> scan res"
where
  "match_steps failed [] = Ok ([], [])"
| "match_steps failed ((msg, r) # rs) =
     rcatch r (\<lambda>err. scan_failed (failed msg err))
       (\<lambda>ms. rbind (match_steps failed rs) (\<lambda>(ms', fs). Ok (ms @ ms', fs)))"

text \<open>The loop over the entries.\<close>

definition scan_all :: "('e \<Rightarrow> scan res) \<Rightarrow> 'e list \<Rightarrow> scan res" where
  "scan_all scan_one es = rbind (rmap scan_one es) (\<lambda>rs. Ok (concat (map fst rs), concat (map snd rs)))"

section \<open>What a scan is to find\<close>

text \<open>
  The specification of the matchers: the found entries that an entry of index \<open>i\<close> has to yield, given
  the identities in it. The fingerprints come first and cannot fail; the others are the matches of
  the subjects, of the certificates and of their extensions.
\<close>

definition fingerprint_matches :: "MonitoredValues \<Rightarrow> string list \<Rightarrow> int64 \<Rightarrow> string \<Rightarrow> LogEntry set" where
  "fingerprint_matches mvs fps i uuid =
     (\<lambda>fp. fingerprint_entry fp fp i uuid) ` (set fps \<inter> set (mv_Fingerprints mvs))"

definition subject_matches :: "certlib \<Rightarrow> MonitoredValues \<Rightarrow> string list \<Rightarrow> int64 \<Rightarrow> string \<Rightarrow> LogEntry set" where
  "subject_matches lib mvs subjects i uuid =
     {subject_entry r s i uuid | r s rx. s \<in> set subjects \<and> r \<in> set (mv_Subjects mvs) \<and>
        regexp_Compile lib r = Ok rx \<and> rx s}"

definition cert_matches :: "certlib \<Rightarrow> MonitoredValues \<Rightarrow> certificate list \<Rightarrow> int64 \<Rightarrow> string \<Rightarrow> LogEntry set" where
  "cert_matches lib mvs certs i uuid =
     {cert_entry (ci_CertSubject ci) sub iss i uuid | ci sub iss cert.
        cert \<in> set certs \<and> ci \<in> set (mv_CertificateIdentities mvs) \<and>
        CertMatchesPolicy lib cert (ci_CertSubject ci) (ci_Issuers ci) = Ok (True, sub, iss)}"

definition extension_matches :: "certlib \<Rightarrow> MonitoredValues \<Rightarrow> certificate list \<Rightarrow> int64 \<Rightarrow> string \<Rightarrow> LogEntry set" where
  "extension_matches lib mvs certs i uuid =
     {extension_entry oid v i uuid | oid v om cert.
        cert \<in> set certs \<and> om \<in> set (mv_OIDMatchers mvs) \<and>
        OIDMatchesPolicy lib cert (oe_ObjectIdentifier om) (oe_ExtensionValues om) = Ok (True, oid, v)}"

definition policy_matches ::
  "certlib \<Rightarrow> MonitoredValues \<Rightarrow> string list \<Rightarrow> certificate list \<Rightarrow> int64 \<Rightarrow> string \<Rightarrow> LogEntry set"
where
  "policy_matches lib mvs subjects certs i uuid = subject_matches lib mvs subjects i uuid \<union>
     cert_matches lib mvs certs i uuid \<union> extension_matches lib mvs certs i uuid"

text \<open>The scan of one entry meets the specification: it finds the fingerprints and nothing that is
  not specified, and unless it has recorded a failure of the entry it finds all the rest.\<close>

definition scan_meets :: "LogEntry set \<Rightarrow> LogEntry set \<Rightarrow> int64 \<Rightarrow> string \<Rightarrow> scan \<Rightarrow> bool" where
  "scan_meets must others i uuid r \<longleftrightarrow> (case r of (ms, fs) \<Rightarrow>
     must \<subseteq> set ms \<and> set ms \<subseteq> must \<union> others \<and>
     (others \<subseteq> set ms \<or> (\<exists>f \<in> set fs. fl_Index f = i \<and> fl_UUID f = uuid)))"

section \<open>Lemmas\<close>

lemma scan_failed_Ok [res_simps]:
  "scan_failed r = Ok s \<longleftrightarrow> (\<exists>f. r = Ok f \<and> s = ([], [f]))"
  by (auto simp: scan_failed_def res_simps)

lemma match_steps_found:
  "match_steps failed rs = Ok (ms, fs) \<Longrightarrow> m \<in> set ms \<Longrightarrow> \<exists>msg xs. (msg, Ok xs) \<in> set rs \<and> m \<in> set xs"
proof (induction rs arbitrary: ms fs)
  case (Cons p rs)
  obtain msg r where p: "p = (msg, r)" by fastforce
  show ?case
  proof (cases r)
    case (Ok xs)
    with Cons.prems obtain ms' where "match_steps failed rs = Ok (ms', fs)" "ms = xs @ ms'"
      by (auto simp: p res_simps)
    with Cons.IH [of ms' fs] Cons.prems(2) Ok show ?thesis by (auto simp: p)
  qed (use Cons.prems in \<open>auto simp: p res_simps\<close>)
qed simp

lemma match_three_found:
  assumes "match_steps failed [(a, r1), (b, r2), (c, r3)] = Ok (ms, fs)" and "m \<in> set ms"
  obtains xs where "r1 = Ok xs" and "m \<in> set xs" | xs where "r2 = Ok xs" and "m \<in> set xs"
    | xs where "r3 = Ok xs" and "m \<in> set xs"
proof -
  obtain msg xs where "(msg, Ok xs) \<in> set [(a, r1), (b, r2), (c, r3)]" "m \<in> set xs"
    using match_steps_found [OF assms] by (elim exE conjE)
  then consider "r1 = Ok xs" "m \<in> set xs" | "r2 = Ok xs" "m \<in> set xs" | "r3 = Ok xs" "m \<in> set xs"
    by auto
  then show thesis using that by cases
qed

lemma match_steps_failures:
  "match_steps failed rs = Ok (ms, fs) \<Longrightarrow>
     fs = [] \<and> (\<forall>(msg, r) \<in> set rs. \<exists>xs. r = Ok xs \<and> set xs \<subseteq> set ms) \<or>
     (\<exists>f msg e. fs = [f] \<and> (msg, Fail e) \<in> set rs \<and> failed msg e = Ok f)"
proof (induction rs arbitrary: ms fs)
  case (Cons p rs)
  obtain msg r where p: "p = (msg, r)" by fastforce
  show ?case
  proof (cases r)
    case (Ok xs)
    with Cons.prems obtain ms' where ms: "match_steps failed rs = Ok (ms', fs)" "ms = xs @ ms'"
      by (auto simp: p res_simps)
    from Cons.IH [OF ms(1)] show ?thesis
    proof
      assume a: "fs = [] \<and> (\<forall>(msg, r) \<in> set rs. \<exists>xs. r = Ok xs \<and> set xs \<subseteq> set ms')"
      have "\<exists>xs. r' = Ok xs \<and> set xs \<subseteq> set ms" if in_rs: "(msg', r') \<in> set (p # rs)" for msg' r'
      proof (cases "(msg', r') = p")
        case True
        then show ?thesis using Ok ms(2) p by simp
      next
        case False
        with in_rs a obtain xs where "r' = Ok xs" "set xs \<subseteq> set ms'" by auto
        then show ?thesis using ms(2) by auto
      qed
      with a show ?thesis by blast
    next
      assume "\<exists>f msg e. fs = [f] \<and> (msg, Fail e) \<in> set rs \<and> failed msg e = Ok f"
      then show ?thesis by (metis list.set_intros(2))
    qed
  next
    case (Fail e)
    with Cons.prems obtain f where "failed msg e = Ok f" "fs = [f]"
      by (auto simp: p scan_failed_Ok)
    moreover have "(msg, Fail e) \<in> set (p # rs)" using p Fail by simp
    ultimately show ?thesis by blast
  next
    case (Panic s)
    with Cons.prems have False by (simp add: p)
    then show ?thesis ..
  qed
next
  case Nil
  then have "fs = []" by simp
  then show ?case by simp
qed

lemma scan_all_Ok:
  "scan_all scan_one es = Ok (ms, fs) \<Longrightarrow>
     (\<forall>m \<in> set ms. \<exists>e \<in> set es. \<exists>ms1 fs1. scan_one e = Ok (ms1, fs1) \<and> m \<in> set ms1) \<and>
     (\<forall>f \<in> set fs. \<exists>e \<in> set es. \<exists>ms1 fs1. scan_one e = Ok (ms1, fs1) \<and> f \<in> set fs1) \<and>
     (\<forall>e \<in> set es. \<exists>ms1 fs1. scan_one e = Ok (ms1, fs1) \<and> set ms1 \<subseteq> set ms \<and> set fs1 \<subseteq> set fs)"
proof -
  assume "scan_all scan_one es = Ok (ms, fs)"
  then obtain rs where rs: "list_all2 (\<lambda>x y. scan_one x = Ok y) es rs"
    and "ms = concat (map fst rs)" "fs = concat (map snd rs)"
    by (auto simp: scan_all_def res_simps)
  then show ?thesis
  proof (induction arbitrary: ms fs rule: list_all2_induct)
    case (Cons e es r rs)
    obtain ms1 fs1 where r: "r = (ms1, fs1)" by fastforce
    note IH = Cons.IH [OF refl refl]
    have head: "scan_one e = Ok (ms1, fs1)" using Cons.hyps(1) r by simp
    show ?case
    proof (intro conjI ballI)
      fix m
      assume "m \<in> set ms"
      then have "m \<in> set ms1 \<or> m \<in> set (concat (map fst rs))" by (simp add: Cons.prems r)
      with head IH show "\<exists>x \<in> set (e # es). \<exists>ms1 fs1. scan_one x = Ok (ms1, fs1) \<and> m \<in> set ms1"
        by (metis list.set_intros)
    next
      fix f
      assume "f \<in> set fs"
      then have "f \<in> set fs1 \<or> f \<in> set (concat (map snd rs))" by (simp add: Cons.prems r)
      with head IH show "\<exists>x \<in> set (e # es). \<exists>ms1 fs1. scan_one x = Ok (ms1, fs1) \<and> f \<in> set fs1"
        by (metis list.set_intros)
    next
      fix x
      assume "x \<in> set (e # es)"
      then consider "x = e" | "x \<in> set es" by auto
      then show "\<exists>ms1 fs1. scan_one x = Ok (ms1, fs1) \<and> set ms1 \<subseteq> set ms \<and> set fs1 \<subseteq> set fs"
      proof cases
        case 1
        with head show ?thesis by (auto simp: Cons.prems r)
      next
        case 2
        with IH obtain ms2 fs2 where "scan_one x = Ok (ms2, fs2)"
          "set ms2 \<subseteq> set (concat (map fst rs))" "set fs2 \<subseteq> set (concat (map snd rs))"
          by blast
        then show ?thesis by (auto simp: Cons.prems r)
      qed
    qed
  qed simp
qed

text \<open>Matchers in turn meet the specification if each finds only what it should and, when none has
  failed, they find everything.\<close>

lemma match_steps_meets:
  assumes "match_steps failed rs = Ok (ms, fs)"
    and sound: "\<And>msg ys. (msg, Ok ys) \<in> set rs \<Longrightarrow> set ys \<subseteq> others"
    and complete: "\<forall>(msg, r) \<in> set rs. \<exists>ys. r = Ok ys \<and> set ys \<subseteq> set ms \<Longrightarrow> others \<subseteq> set ms"
    and failed: "\<And>msg e f. failed msg e = Ok f \<Longrightarrow> fl_Index f = i \<and> fl_UUID f = uuid"
  shows "scan_meets (set xs) others i uuid (xs @ ms, fs)"
proof -
  have "set ms \<subseteq> others"
    using match_steps_found [OF assms(1)] sound by (meson subsetD subsetI)
  moreover have "others \<subseteq> set ms \<or> (\<exists>f \<in> set fs. fl_Index f = i \<and> fl_UUID f = uuid)"
    using match_steps_failures [OF assms(1)] complete failed by auto
  ultimately show ?thesis by (auto simp: scan_meets_def)
qed

lemma scan_all_failed_length:
  assumes "scan_all scan_one es = Ok (ms, fs)"
    and "\<And>e ms fs. scan_one e = Ok (ms, fs) \<Longrightarrow> length fs \<le> 1"
  shows "length fs \<le> length es"
proof -
  obtain rs where rs: "list_all2 (\<lambda>x y. scan_one x = Ok y) es rs" and fs: "fs = concat (map snd rs)"
    using assms(1) by (auto simp: scan_all_def res_simps)
  from rs have "length (concat (map snd rs)) \<le> length es"
  proof (induction rule: list_all2_induct)
    case (Cons e es r rs)
    with assms(2) [of e "fst r" "snd r"] show ?case by simp
  qed simp
  with fs show ?thesis by simp
qed

section \<open>The contract of a search\<close>

locale entry_scan =
  fixes scan_one :: "'e \<Rightarrow> scan res" and origin :: "'e \<Rightarrow> int64 option \<times> string"
    and ids :: "string list"
  assumes found_monitored:
      "scan_one e = Ok (ms, fs) \<Longrightarrow> m \<in> set ms \<Longrightarrow> le_MatchedIdentity m \<in> set ids"
    and found_origin:
      "scan_one e = Ok (ms, fs) \<Longrightarrow> m \<in> set ms \<Longrightarrow> origin e = (Some (le_Index m), le_UUID m)"
    and failed_origin:
      "scan_one e = Ok (ms, fs) \<Longrightarrow> f \<in> set fs \<Longrightarrow> origin e = (Some (fl_Index f), fl_UUID f)"
    and failed_once: "scan_one e = Ok (ms, fs) \<Longrightarrow> length fs \<le> 1"
begin

text \<open>What a search finds comes from a scanned entry and is a monitored identity; an entry
  fails at most once.\<close>

lemma search_sound:
  assumes "scan_all scan_one es = Ok (ms, fs)"
  shows "(\<forall>m \<in> set ms. le_MatchedIdentity m \<in> set ids \<and>
      (\<exists>e \<in> set es. origin e = (Some (le_Index m), le_UUID m))) \<and>
    (\<forall>f \<in> set fs. \<exists>e \<in> set es. origin e = (Some (fl_Index f), fl_UUID f)) \<and>
    length fs \<le> length es"
proof (intro conjI ballI)
  note all = scan_all_Ok [OF assms]
  fix m
  assume "m \<in> set ms"
  with all obtain e ms1 fs1 where "e \<in> set es" "scan_one e = Ok (ms1, fs1)" "m \<in> set ms1"
    by blast
  then show "le_MatchedIdentity m \<in> set ids"
    and "\<exists>e \<in> set es. origin e = (Some (le_Index m), le_UUID m)"
    by (auto dest: found_monitored found_origin)
next
  fix f
  assume "f \<in> set fs"
  with scan_all_Ok [OF assms] obtain e ms1 fs1
    where "e \<in> set es" "scan_one e = Ok (ms1, fs1)" "f \<in> set fs1"
    by blast
  then show "\<exists>e \<in> set es. origin e = (Some (fl_Index f), fl_UUID f)"
    by (auto dest: failed_origin)
qed (rule scan_all_failed_length [OF assms failed_once])

text \<open>The report holds every found entry exactly once.\<close>

lemma search_reported:
  assumes "scan_all scan_one es = Ok (ms, fs)" and "range_order ord"
  shows "mset (concat (map mi_FoundIdentityEntries (CreateMonitoredIdentities ord ms ids))) = mset ms"
proof -
  have "filter (accepted ids) ms = ms"
    using search_sound [OF assms(1)] by (simp add: accepted_def)
  with reported_mset [OF assms(2), of ms ids] show ?thesis by simp
qed

end

section \<open>Matched identities are monitored\<close>

lemma monitored_fingerprint: "s \<in> set (mv_Fingerprints mvs) \<Longrightarrow> s \<in> set (CreateIdentitiesList mvs)"
  by (simp add: CreateIdentitiesList_def)

lemma monitored_subject: "s \<in> set (mv_Subjects mvs) \<Longrightarrow> s \<in> set (CreateIdentitiesList mvs)"
  by (simp add: CreateIdentitiesList_def)

lemma monitored_cert_subject:
  "c \<in> set (mv_CertificateIdentities mvs) \<Longrightarrow> ci_CertSubject c \<in> set (CreateIdentitiesList mvs)"
  by (auto simp: CreateIdentitiesList_def)

lemma monitored_extension_value:
  "m \<in> set (mv_OIDMatchers mvs) \<Longrightarrow> v \<in> set (oe_ExtensionValues m) \<Longrightarrow>
   v \<in> set (CreateIdentitiesList mvs)"
  by (auto simp: CreateIdentitiesList_def)

lemmas monitored_intros =
  monitored_fingerprint monitored_subject monitored_cert_subject monitored_extension_value

end
