(* ===== verification/RekorV1.thy ===== *)
theory RekorV1
  imports Retry GoEncoding Scan
begin

text \<open>
  \<open>pkg/rekor/v1\<close>: the client of a Rekor v1 log (\<open>client.go\<close>), the verification of its
  checkpoints (\<open>verifier.go\<close>) and the search for monitored identities (\<open>identity.go\<close>). The
  generated client, the signature and proof libraries and the entry types are the parameters
  \<open>v1_client\<close>, \<open>sig_lib\<close> and \<open>entry_lib\<close>.
\<close>

section \<open>Data\<close>

text \<open>The types of \<open>models\<close>; a pointer field is a \<open>ptr\<close>.\<close>

record InactiveShard =
  is_TreeSize :: "int64 ptr"

record LogInfo =
  li_InactiveShards :: "InactiveShard ptr list"
  li_SignedTreeHead :: "string ptr"
  li_TreeID :: "string ptr"

text \<open>The \<open>any\<close> value of an entry's body: a string or something else.\<close>

datatype body = BodyString string | BodyOther

record LogEntryAnon =
  lea_Body :: body
  lea_LogIndex :: "int64 ptr"

type_synonym models_LogEntry = "(string \<times> LogEntryAnon) list"

text \<open>A key or certificate of an entry, by the results of its methods.\<close>

datatype crypto = CryptoCertificate x509_cert | CryptoOther

record pki_identity =
  id_Fingerprint :: string
  id_Crypto :: crypto

record public_key =
  pk_Subjects :: "string list"
  pk_Identities :: "pki_identity list res"

record TransparencyLog =
  tl_PublicKey :: string
  tl_HashFunc :: int

text \<open>Code outside the repository. \<open>sc_String\<close> is the \<open>%v\<close> of a checkpoint.\<close>

record 'n v1_client =
  rpc_GetLogInfo :: "('n, LogInfo ptr) io"
  rpc_SearchLogQuery :: "int64 list \<Rightarrow> ('n, models_LogEntry list) io"
  ProveConsistency :: "SignedCheckpoint \<Rightarrow> SignedCheckpoint \<Rightarrow> string \<Rightarrow> ('n, unit) io"

record 'k sig_lib =
  LoadVerifier :: "string \<Rightarrow> int \<Rightarrow> 'k res"
  Verify :: "'k \<Rightarrow> SignedCheckpoint \<Rightarrow> bool"
  sc_String :: "SignedCheckpoint \<Rightarrow> string"

record ('p, 'e) entry_lib =
  corrupt_offset :: "string \<Rightarrow> nat"
  UnmarshalProposedEntry :: "string \<Rightarrow> 'p res"
  UnmarshalEntry :: "'p \<Rightarrow> 'e res"
  Verifiers :: "'e \<Rightarrow> public_key list res"

section \<open>The client\<close>

definition GetLogInfo :: "'n clock \<Rightarrow> 'n v1_client \<Rightarrow> ('n world, LogInfo ptr) io" where
  "GetLogInfo M rekorClient = rpc M (rpc_GetLogInfo rekorClient)"

definition computeMin :: "int64 \<Rightarrow> int64 \<Rightarrow> int64" where
  "computeMin a b = (if a < b then a else b)"

text \<open>
  The loop over the batches. Its index wraps around near the largest \<open>int64\<close> and the loop then
  runs on, so it is a partial function: \<open>None\<close> is a loop that does not end.
\<close>

partial_function (option) entries_loop ::
  "'n clock \<Rightarrow> 'n v1_client \<Rightarrow> int64 \<Rightarrow> int64 \<Rightarrow> models_LogEntry list \<Rightarrow> 'n world \<Rightarrow>
   (models_LogEntry list res \<times> 'n world) option"
where
  "entries_loop M cl end i logEntries w =
     (if i \<le> end then
        (case clk_done M (net w) of
           Some err \<Rightarrow> Some (Fail err, w)
         | None \<Rightarrow>
             (let minVal = computeMin (i64 (i + 10)) (i64 (end + 1));
                  logIndices = upto i (minVal - 1)
              in case rpc M (rpc_SearchLogQuery cl logIndices) w of
                   (Ok resp, w') \<Rightarrow> entries_loop M cl end (i64 (i + 10)) (logEntries @ resp) w'
                 | (Fail err, w') \<Rightarrow> Some (Fail err, w')
                 | (Panic s, w') \<Rightarrow> Some (Panic s, w')))
      else Some (Ok logEntries, w))"

text \<open>A call that does not return, as a result: no other code of the program runs after it.\<close>

definition run_forever :: string where
  "run_forever = ''does not return''"

definition or_forever :: "('w \<Rightarrow> ('a res \<times> 'w) option) \<Rightarrow> ('w, 'a) io" where
  "or_forever m = (\<lambda>w. case m w of None \<Rightarrow> (Panic run_forever, w) | Some x \<Rightarrow> x)"

definition GetEntriesByIndexRange ::
  "'n clock \<Rightarrow> 'n v1_client \<Rightarrow> int64 \<Rightarrow> int64 \<Rightarrow> ('n world, models_LogEntry list) io"
where
  "GetEntriesByIndexRange M cl start end =
     (if start > end then
        io_fail (Err (''start ('' @ itoa start @ '') must be less than or equal to end ('' @ itoa end @ '')''))
      else or_forever (entries_loop M cl end (i64 (start + 1)) []))"

section \<open>The verifier\<close>

definition ReadLatestCheckpoint :: "codec \<Rightarrow> LogInfo ptr \<Rightarrow> SignedCheckpoint res" where
  "ReadLatestCheckpoint cd logInfo =
     rbind (deref logInfo) (\<lambda>li.
     rbind (deref (li_SignedTreeHead li)) (\<lambda>sth.
       rwrap ''unmarshalling logInfo.SignedTreeHead to Checkpoint: '' (sc_UnmarshalText cd sth)))"

text \<open>The loop over the trusted logs: the last one whose identifier starts with the key
  identifier. Slicing an identifier of fewer than four bytes panics.\<close>

fun matching_log ::
  "string \<Rightarrow> (string \<times> TransparencyLog option) list \<Rightarrow> TransparencyLog option \<Rightarrow>
   TransparencyLog option res"
where
  "matching_log keyID [] found = Ok found"
| "matching_log keyID ((k, v) # rest) found =
     rbind (hex_decode k) (\<lambda>logID.
       if length logID < 4
       then Panic (''runtime error: slice bounds out of range [:4] with capacity '' @ itoa (length logID))
       else matching_log keyID rest (if take 4 logID = keyID then v else found))"

definition GetLogVerifier ::
  "'n clock \<Rightarrow> codec \<Rightarrow> 'k sig_lib \<Rightarrow> 'n v1_client \<Rightarrow>
   ((string \<times> TransparencyLog option) list \<Rightarrow> (string \<times> TransparencyLog option) list) \<Rightarrow>
   (string \<times> TransparencyLog option) list \<Rightarrow> ('n world, 'k) io"
where
  "GetLogVerifier M cd sl rekorClient ord rekorLogs =
     io_bind (GetLogInfo M rekorClient) (\<lambda>logInfo. io_res (
       rbind (ReadLatestCheckpoint cd logInfo) (\<lambda>latestCheckpoint.
         case sc_Signatures latestCheckpoint of
           [] \<Rightarrow> Fail (Err (''couldn'' @ [CHR 0x27] @ ''t get signatures from checkpoint '' @
                   sc_String sl latestCheckpoint))
         | sig0 # _ \<Rightarrow>
             (let keyID = put_uint32 (ns_Hash sig0)
              in rbind (matching_log keyID (ord rekorLogs) None) (\<lambda>matchingLogInstance.
                   case matchingLogInstance of
                     None \<Rightarrow> Fail (Err (''couldn'' @ [CHR 0x27] @
                       ''t find matching log instance with keyID '' @ fmt_bytes keyID))
                   | Some inst \<Rightarrow> LoadVerifier sl (tl_PublicKey inst) (tl_HashFunc inst))))))"

definition verify_failed :: "SignedCheckpoint \<Rightarrow> go_error" where
  "verify_failed checkpoint =
     Err (''verifying checkpoint (size '' @ itoa (sc_Size checkpoint) @ '', hash '' @
       hex_encode (sc_Hash checkpoint) @ '') failed'')"

definition verifyLatestCheckpointSignature ::
  "codec \<Rightarrow> 'k sig_lib \<Rightarrow> LogInfo ptr \<Rightarrow> 'k \<Rightarrow> SignedCheckpoint res" where
  "verifyLatestCheckpointSignature cd sl logInfo verifier =
     rbind (rwrap ''unmarshalling logInfo.SignedTreeHead to Checkpoint: ''
         (ReadLatestCheckpoint cd logInfo)) (\<lambda>checkpoint.
       if \<not> Verify sl verifier checkpoint then Fail (verify_failed checkpoint) else Ok checkpoint)"

definition verifyCheckpointConsistency ::
  "codec \<Rightarrow> 'k sig_lib \<Rightarrow> string \<Rightarrow> SignedCheckpoint \<Rightarrow> string \<Rightarrow> 'n v1_client \<Rightarrow> 'k \<Rightarrow>
   ('n world, SignedCheckpoint) io"
where
  "verifyCheckpointConsistency cd sl logInfoFile checkpoint treeID rekorClient verifier =
     io_bind (io_wrap ''reading checkpoint log: ''
         (io_read (ReadLatestCheckpointRekorV1 cd logInfoFile))) (\<lambda>prevCheckpoint.
       if \<not> Verify sl verifier prevCheckpoint then io_fail (verify_failed checkpoint)
       else io_bind (io_wrap ''failed to verify log consistency: ''
           (net_call (ProveConsistency rekorClient prevCheckpoint checkpoint treeID))) (\<lambda>_.
         io_return prevCheckpoint))"

text \<open>Whether the log info file is there and not empty.\<close>

definition has_log_info :: "string \<Rightarrow> 'a os_scheme \<Rightarrow> bool" where
  "has_log_info logInfoFile w = (case os_Stat logInfoFile w of Ok n \<Rightarrow> n \<noteq> 0 | _ \<Rightarrow> False)"

definition RunConsistencyCheck ::
  "'n clock \<Rightarrow> codec \<Rightarrow> 'k sig_lib \<Rightarrow> 'n v1_client \<Rightarrow> 'k \<Rightarrow> string \<Rightarrow>
   ('n world, SignedCheckpoint option \<times> LogInfo ptr) io"
where
  "RunConsistencyCheck M cd sl rekorClient verifier logInfoFile =
     io_bind (io_wrap ''failed to get log info: '' (GetLogInfo M rekorClient)) (\<lambda>logInfo.
     io_bind (io_res (rwrap ''failed to verify signature of latest checkpoint: ''
         (verifyLatestCheckpointSignature cd sl logInfo verifier))) (\<lambda>checkpoint.
     io_bind (io_read (\<lambda>w. Ok (has_log_info logInfoFile w))) (\<lambda>exists.
       if exists then
         io_bind (io_res (rbind (deref logInfo) (\<lambda>li. deref (li_TreeID li)))) (\<lambda>treeID.
         io_bind (io_wrap ''failed to verify previous checkpoint: ''
             (verifyCheckpointConsistency cd sl logInfoFile checkpoint treeID rekorClient verifier))
           (\<lambda>prevCheckpoint. io_return (Some prevCheckpoint, logInfo)))
       else io_return (None, logInfo))))"

section \<open>Matching one entry\<close>

text \<open>\<open>%d\<close> of a pointer prints its address.\<close>

definition fmt_ptr :: "'a ptr \<Rightarrow> string" where
  "fmt_ptr p = (case p of None \<Rightarrow> ''0'' | Some (a, _) \<Rightarrow> itoa (int a))"

definition at_entry :: "string \<Rightarrow> LogEntryAnon \<Rightarrow> string" where
  "at_entry uuid entry = '' for UUID '' @ uuid @ '' at index '' @ fmt_ptr (lea_LogIndex entry) @ '': ''"

definition MatchLogEntryFingerprints ::
  "LogEntryAnon \<Rightarrow> string \<Rightarrow> string list \<Rightarrow> string list \<Rightarrow> LogEntry list res" where
  "MatchLogEntryFingerprints logEntryAnon uuid entryFingerprints monitoredFingerprints =
     rconcat (\<lambda>monitoredFp. rconcat (\<lambda>fp.
         if fp = monitoredFp then
           rbind (deref (lea_LogIndex logEntryAnon)) (\<lambda>index.
             Ok [fingerprint_entry monitoredFp fp index uuid])
         else Ok []) entryFingerprints) monitoredFingerprints"

definition MatchLogEntryCertificateIdentities ::
  "certlib \<Rightarrow> LogEntryAnon \<Rightarrow> string \<Rightarrow> x509_cert list \<Rightarrow> CertificateIdentity list \<Rightarrow> LogEntry list res"
where
  "MatchLogEntryCertificateIdentities lib logEntryAnon uuid entryCertificates monitoredCertIDs =
     rconcat (\<lambda>monitoredCertID. rconcat (\<lambda>cert.
         rbind (rwrap (''error with policy matching'' @ at_entry uuid logEntryAnon)
             (CertMatchesPolicy lib (X509 cert) (ci_CertSubject monitoredCertID)
                (ci_Issuers monitoredCertID))) (\<lambda>(match, sub, iss).
           if match then
             rbind (deref (lea_LogIndex logEntryAnon)) (\<lambda>index.
               Ok [cert_entry (ci_CertSubject monitoredCertID) sub iss index uuid])
           else Ok [])) entryCertificates) monitoredCertIDs"

definition MatchLogEntrySubjects ::
  "certlib \<Rightarrow> LogEntryAnon \<Rightarrow> string \<Rightarrow> string list \<Rightarrow> string list \<Rightarrow> LogEntry list res" where
  "MatchLogEntrySubjects lib logEntryAnon uuid entrySubjects monitoredSubjects =
     rconcat (\<lambda>monitoredSub.
         rbind (rwrap (''error compiling regex'' @ at_entry uuid logEntryAnon)
             (regexp_Compile lib monitoredSub)) (\<lambda>regex.
           rconcat (\<lambda>sub.
             if regex sub then
               rbind (deref (lea_LogIndex logEntryAnon)) (\<lambda>index.
                 Ok [subject_entry monitoredSub sub index uuid])
             else Ok []) entrySubjects)) monitoredSubjects"

definition MatchLogEntryOIDs ::
  "certlib \<Rightarrow> LogEntryAnon \<Rightarrow> string \<Rightarrow> x509_cert list \<Rightarrow> OIDExtension list \<Rightarrow> LogEntry list res"
where
  "MatchLogEntryOIDs lib logEntryAnon uuid entryCertificates monitoredOIDMatchers =
     rconcat (\<lambda>monitoredOID. rconcat (\<lambda>cert.
         rbind (rwrap (''error with policy matching'' @ at_entry uuid logEntryAnon)
             (OIDMatchesPolicy lib (X509 cert) (oe_ObjectIdentifier monitoredOID)
                (oe_ExtensionValues monitoredOID))) (\<lambda>(match, oid, extValue).
           if match then
             rbind (deref (lea_LogIndex logEntryAnon)) (\<lambda>index.
               Ok [extension_entry oid extValue index uuid])
           else Ok [])) entryCertificates) monitoredOIDMatchers"

definition extractVerifiers :: "('p, 'e) entry_lib \<Rightarrow> LogEntryAnon \<Rightarrow> public_key list res" where
  "extractVerifiers el e =
     (case lea_Body e of
        BodyOther \<Rightarrow> Panic ''interface conversion: interface {} is not string''
      | BodyString s \<Rightarrow>
          rbind (base64_decode (corrupt_offset el) s) (\<lambda>b.
          rbind (UnmarshalProposedEntry el b) (\<lambda>pe.
          rbind (UnmarshalEntry el pe) (\<lambda>eimpl. Verifiers el eimpl))))"

fun certificate_of :: "crypto \<Rightarrow> x509_cert list" where
  "certificate_of (CryptoCertificate cert) = [cert]"
| "certificate_of CryptoOther = []"

definition extractAllIdentities ::
  "public_key list \<Rightarrow> (string list \<times> x509_cert list \<times> string list) res" where
  "extractAllIdentities verifiers =
     rbind (rmap pk_Identities verifiers) (\<lambda>idss. Ok
       (concat (map pk_Subjects verifiers),
        concat (map (\<lambda>i. certificate_of (id_Crypto i)) (concat idss)),
        map id_Fingerprint (concat idss)))"

section \<open>Searching entries\<close>

definition failed_entry :: "LogEntryAnon \<Rightarrow> string \<Rightarrow> string \<Rightarrow> go_error \<Rightarrow> FailedLogEntry res" where
  "failed_entry entry uuid msg err =
     rbind (deref (lea_LogIndex entry)) (\<lambda>index.
       Ok \<lparr>fl_Index = index, fl_UUID = uuid, fl_Error = msg @ error_msg err\<rparr>)"

text \<open>One round of the loops of \<open>MatchedIndices\<close>. An entry whose chain is not trusted is skipped
  with a message that prints its index.\<close>

definition scan_entry ::
  "certlib \<Rightarrow> ('p, 'e) entry_lib \<Rightarrow> 'a os_scheme \<Rightarrow> MonitoredValues \<Rightarrow> string \<Rightarrow> string \<Rightarrow>
   string \<times> LogEntryAnon \<Rightarrow> scan res"
where
  "scan_entry lib el w mvs caRoots caIntermediates = (\<lambda>(uuid, entry).
     rcatch (extractVerifiers el entry)
       (\<lambda>err. scan_failed (failed_entry entry uuid ''error extracting verifiers: '' err))
       (\<lambda>verifiers. rcatch (extractAllIdentities verifiers)
         (\<lambda>err. scan_failed (failed_entry entry uuid ''error extracting identities: '' err))
         (\<lambda>(subjects, certs, fps).
            rcatch (ValidateCertificateChain lib w certs caRoots caIntermediates)
              (\<lambda>err. rbind (deref (lea_LogIndex entry)) (\<lambda>_. Ok ([], [])))
              (\<lambda>_. rbind (MatchLogEntryFingerprints entry uuid fps (mv_Fingerprints mvs)) (\<lambda>found.
                 rbind (match_steps (failed_entry entry uuid)
                   [(''error matching subjects: '',
                       MatchLogEntrySubjects lib entry uuid subjects (mv_Subjects mvs)),
                    (''error matching certificate identities: '',
                       MatchLogEntryCertificateIdentities lib entry uuid certs
                         (mv_CertificateIdentities mvs)),
                    (''error matching object identifier extensions and values: '',
                       MatchLogEntryOIDs lib entry uuid certs (mv_OIDMatchers mvs))])
                   (\<lambda>(ms, fs). Ok (found @ ms, fs)))))))"

definition MatchedIndices ::
  "certlib \<Rightarrow> ('p, 'e) entry_lib \<Rightarrow> (models_LogEntry \<Rightarrow> models_LogEntry) \<Rightarrow> 'a os_scheme \<Rightarrow>
   models_LogEntry list \<Rightarrow> MonitoredValues \<Rightarrow> string \<Rightarrow> string \<Rightarrow> scan res"
where
  "MatchedIndices lib el ord w logEntries mvs caRoots caIntermediates =
     (case VerifyMonitoredValues mvs of
        Some err \<Rightarrow> Fail err
      | None \<Rightarrow>
          scan_all (scan_entry lib el w mvs caRoots caIntermediates) (concat (map ord logEntries)))"

text \<open>The sum of the sizes of the inactive shards and of the checkpoint wraps around like the
  code's.\<close>

fun total_size :: "InactiveShard ptr list \<Rightarrow> int64 \<Rightarrow> int64 res" where
  "total_size [] totalSize = Ok totalSize"
| "total_size (s # ss) totalSize =
     rbind (deref s) (\<lambda>sh. rbind (deref (is_TreeSize sh)) (\<lambda>n. total_size ss (i64 (totalSize + n))))"

definition GetCheckpointIndex :: "LogInfo ptr \<Rightarrow> SignedCheckpoint \<Rightarrow> int64 res" where
  "GetCheckpointIndex logInfo checkpoint =
     rbind (deref logInfo) (\<lambda>li.
     rbind (total_size (li_InactiveShards li) 0) (\<lambda>totalSize.
       Ok (i64 (i64 (i64 (sc_Size checkpoint) + totalSize) - 1))))"

text \<open>A configuration field that is a pointer; \<open>None\<close> is nil.\<close>

definition field_of :: "'a option \<Rightarrow> 'a res" where
  "field_of p = (case p of None \<Rightarrow> Panic nil_deref | Some x \<Rightarrow> Ok x)"

definition IdentitySearch ::
  "'n clock \<Rightarrow> codec \<Rightarrow> certlib \<Rightarrow> ('p, 'e) entry_lib \<Rightarrow>
   (models_LogEntry \<Rightarrow> models_LogEntry) \<Rightarrow>
   ((string \<times> LogEntry list) list \<Rightarrow> (string \<times> LogEntry list) list) \<Rightarrow>
   'o IdentityMonitorConfiguration \<Rightarrow> 'n v1_client \<Rightarrow> MonitoredValues \<Rightarrow>
   ('n world, MonitoredIdentity list \<times> FailedLogEntry list) io"
where
  "IdentitySearch M cd lib el ordE ordM config rekorClient monitoredValues =
     io_bind (io_res (field_of (StartIndex config))) (\<lambda>start.
     io_bind (io_res (field_of (EndIndex config))) (\<lambda>end.
     io_bind (io_wrap ''error getting entries by index range: ''
         (GetEntriesByIndexRange M rekorClient start end)) (\<lambda>entries.
     io_bind (io_wrap ''error matching indices: '' (io_read (\<lambda>w. MatchedIndices lib el ordE w entries
         monitoredValues (CARootsFile config) (CAIntermediatesFile config))))
       (\<lambda>(matchedEntries, failedEntries).
     io_bind (WriteMatchedIdentityEntries cd (OutputIdentitiesFile config)
         (OutputIdentitiesFormat config) matchedEntries (IdentityMetadataFile config) end) (\<lambda>_.
       let identities = CreateIdentitiesList monitoredValues;
           monitoredIdentities = CreateMonitoredIdentities ordM matchedEntries identities
       in io_return (monitoredIdentities, failedEntries))))))"

section \<open>The client fetches what it is asked for\<close>

text \<open>A server that has the entries with the indices \<open>I\<close>: it answers a query for at most ten of them
  with one entry for each, in the order of the query.\<close>

definition serves :: "'n v1_client \<Rightarrow> int64 set \<Rightarrow> (int64 \<Rightarrow> models_LogEntry) \<Rightarrow> bool" where
  "serves cl I entry_at \<longleftrightarrow> (\<forall>ixs n. length ixs \<le> 10 \<longrightarrow> set ixs \<subseteq> I \<longrightarrow>
     rpc_SearchLogQuery cl ixs n = (Ok (map entry_at ixs), n))"

lemma serves_subset: "serves cl I entry_at \<Longrightarrow> J \<subseteq> I \<Longrightarrow> serves cl J entry_at"
  by (auto simp: serves_def)

lemma batch_split:
  assumes "i \<le> e"
  shows "[i..e] = [i..min (i + 10) (e + 1) - 1] @ [i + 10..e]"
proof (cases "i + 10 \<le> e")
  case True
  then show ?thesis using upto_split1 [of i "i + 10" e] by (simp add: min_def)
next
  case False
  then have "min (i + 10) (e + 1) = e + 1" by simp
  with False show ?thesis by simp
qed

lemma computeMin_min: "computeMin a b = min a b"
  by (simp add: computeMin_def min_def)

lemma entries_loop_serves:
  assumes "serves cl I entry_at" and "\<forall>n. clk_done M n = None" and "int64_range (e + 10)"
  shows "- 9223372036854775808 \<le> i \<Longrightarrow> {i..e} \<subseteq> I \<Longrightarrow>
    entries_loop M cl e i acc w = Some (Ok (acc @ map entry_at [i..e]), w)"
proof (induction "nat (e + 1 - i)" arbitrary: i acc rule: less_induct)
  case less
  show ?case
  proof (cases "i \<le> e")
    case True
    let ?ixs = "[i..min (i + 10) (e + 1) - 1]"
    have range: "int64_range (i + 10)" "int64_range (e + 1)"
      using assms(3) less.prems True by (auto simp: int64_range_def)
    have "rpc M (rpc_SearchLogQuery cl ?ixs) w = (Ok (map entry_at ?ixs), w\<lparr>net := net w\<rparr>)"
    proof (rule rpc_first_try)
      have "set ?ixs \<subseteq> I" "length ?ixs \<le> 10" using less.prems(2) by auto
      with assms(1) show "rpc_SearchLogQuery cl ?ixs (net w) = (Ok (map entry_at ?ixs), net w)"
        by (simp only: serves_def)
    qed
    then have "entries_loop M cl e i acc w =
        entries_loop M cl e (i + 10) (acc @ map entry_at ?ixs) w"
      using True assms(2) by (subst entries_loop.simps) (simp add: Let_def computeMin_min i64_id range)
    also have "\<dots> = Some (Ok ((acc @ map entry_at ?ixs) @ map entry_at [i + 10..e]), w)"
      using True less.prems by (intro less.hyps) auto
    finally show ?thesis using batch_split [OF True] by simp
  next
    case False
    then show ?thesis by (subst entries_loop.simps) simp
  qed
qed

lemma GetEntriesByIndexRange_serves:
  assumes "serves cl {start<..end} entry_at" and "\<forall>n. clk_done M n = None"
    and "- 9223372036854775809 \<le> start" and "start \<le> end" and "end + 10 < 9223372036854775808"
  shows "GetEntriesByIndexRange M cl start end w = (Ok (map entry_at [start + 1..end]), w)"
proof -
  have "int64_range (end + 10)" "i64 (start + 1) = start + 1"
    using assms(3-5) by (auto simp: int64_range_def i64_id)
  then show ?thesis
    using assms(3,4) entries_loop_serves [OF assms(1,2), of "end" "start + 1" "[]" w]
    by (simp add: subset_iff GetEntriesByIndexRange_def or_forever_def)
qed

section \<open>The consistency check\<close>

lemma GetLogInfo_same_files: "GetLogInfo M cl w = (r, w') \<Longrightarrow> same_files w w'"
  unfolding GetLogInfo_def by (rule rpc_same_files)

lemma has_log_info_same_files:
  "same_files w w' \<Longrightarrow> has_log_info f w' = has_log_info f w"
  "same_files w w' \<Longrightarrow> ReadLatestCheckpointRekorV1 cd f w' = ReadLatestCheckpointRekorV1 cd f w"
  by (simp_all add: same_files_reads has_log_info_def ReadLatestCheckpointRekorV1_def
      readLastCheckpoint_def)

lemma rpc_keeps: "keeps (same_files u) (rpc M f)"
  by (metis keeps_def prod.collapse rpc_same_files same_files_trans)

lemma RunConsistencyCheck_keeps: "keeps (same_files u) (RunConsistencyCheck M cd sl cl k f)"
  unfolding RunConsistencyCheck_def verifyCheckpointConsistency_def GetLogInfo_def
  by (intro keeps_intros rpc_keeps net_call_keeps)

lemma entries_loop_keeps:
  assumes "entries_loop M cl e i acc w = Some z"
  shows "same_files w (snd z)"
  using _ assms
proof (rule entries_loop.raw_induct [where P = "\<lambda>M cl e i acc w z. same_files w (snd z)"])
  fix loop and M :: "'n clock" and cl e i acc and w :: "'n world" and z
  assume IH: "\<And>M cl e i acc w z. loop M cl e i acc w = Some z \<Longrightarrow> same_files w (snd z)"
    and body: "(if i \<le> e then
        (case clk_done M (net w) of
           Some err \<Rightarrow> Some (Fail err, w)
         | None \<Rightarrow>
             (let minVal = computeMin (i64 (i + 10)) (i64 (e + 1));
                  logIndices = upto i (minVal - 1)
              in case rpc M (rpc_SearchLogQuery cl logIndices) w of
                   (Ok resp, w') \<Rightarrow> loop M cl e (i64 (i + 10)) (acc @ resp) w'
                 | (Fail err, w') \<Rightarrow> Some (Fail err, w')
                 | (Panic s, w') \<Rightarrow> Some (Panic s, w')))
      else Some (Ok acc, w)) = Some z"
  let ?q = "rpc M (rpc_SearchLogQuery cl [i..computeMin (i64 (i + 10)) (i64 (e + 1)) - 1]) w"
  obtain r w1 where q: "?q = (r, w1)" by fastforce
  from q have "same_files w w1" by (rule rpc_same_files)
  have step: "same_files w (snd z)" if "i \<le> e" "clk_done M (net w) = None"
  proof (cases r)
    case (Ok resp)
    with body q that have "loop M cl e (i64 (i + 10)) (acc @ resp) w1 = Some z" by (simp add: Let_def)
    from same_files_trans [OF \<open>same_files w w1\<close> IH [OF this]] show ?thesis .
  next
    case (Fail err)
    with body q that have "(Fail err, w1) = z" by (simp add: Let_def)
    with \<open>same_files w w1\<close> show ?thesis by auto
  next
    case (Panic s)
    with body q that have "(Panic s, w1) = z" by (simp add: Let_def)
    with \<open>same_files w w1\<close> show ?thesis by auto
  qed
  show "same_files w (snd z)"
  proof (cases "i \<le> e \<and> clk_done M (net w) = None")
    case False
    with body show ?thesis by (auto split: if_splits option.splits)
  qed (use step in blast)
qed

lemma GetEntriesByIndexRange_keeps: "keeps (same_files u) (GetEntriesByIndexRange M cl start end)"
proof -
  have "keeps (same_files u) (or_forever (entries_loop M cl end i acc))" for i acc
    by (auto simp: keeps_def or_forever_def split: option.splits dest!: entries_loop_keeps
        intro: same_files_trans)
  then show ?thesis by (auto simp: GetEntriesByIndexRange_def)
qed

lemma verifyCheckpointConsistency_Ok:
  assumes "verifyCheckpointConsistency cd sl f checkpoint treeID cl k w = (Ok p, w')"
  shows "same_files w w' \<and> ReadLatestCheckpointRekorV1 cd f w = Ok p \<and> Verify sl k p \<and>
    (\<exists>n n'. ProveConsistency cl p checkpoint treeID n = (Ok (), n'))"
  using assms
  by (auto simp: verifyCheckpointConsistency_def res_simps net_call_same_files split: if_splits)
    (auto simp: net_call_def split: prod.splits)

lemma RunConsistencyCheck_Ok:
  assumes "RunConsistencyCheck M cd sl cl k f w = (Ok (prev, logInfo), w')"
  shows "same_files w w' \<and>
    (\<exists>a info b sth checkpoint. logInfo = Some (a, info) \<and> li_SignedTreeHead info = Some (b, sth) \<and>
       sc_UnmarshalText cd sth = Ok checkpoint \<and> Verify sl k checkpoint \<and>
       (case prev of
          None \<Rightarrow> \<not> has_log_info f w
        | Some p \<Rightarrow> has_log_info f w \<and> ReadLatestCheckpointRekorV1 cd f w = Ok p \<and> Verify sl k p \<and>
            (\<exists>c treeID n n'. li_TreeID info = Some (c, treeID) \<and>
               ProveConsistency cl p checkpoint treeID n = (Ok (), n'))))"
proof -
  from assms obtain w1 checkpoint where info: "GetLogInfo M cl w = (Ok logInfo, w1)"
    and sig: "verifyLatestCheckpointSignature cd sl logInfo k = Ok checkpoint"
    and rest: "(if has_log_info f w1 then
        io_bind (io_res (rbind (deref logInfo) (\<lambda>li. deref (li_TreeID li)))) (\<lambda>treeID.
        io_bind (io_wrap ''failed to verify previous checkpoint: ''
            (verifyCheckpointConsistency cd sl f checkpoint treeID cl k))
          (\<lambda>prevCheckpoint. io_return (Some prevCheckpoint, logInfo)))
      else io_return (None, logInfo)) w1 = (Ok (prev, logInfo), w')"
    unfolding RunConsistencyCheck_def by (auto simp: res_simps split: if_splits)
  have w1: "same_files w w1" using info by (rule GetLogInfo_same_files)
  from sig obtain a info b sth where "logInfo = Some (a, info)" "li_SignedTreeHead info = Some (b, sth)"
    "sc_UnmarshalText cd sth = Ok checkpoint" "Verify sl k checkpoint"
    by (auto simp: verifyLatestCheckpointSignature_def ReadLatestCheckpoint_def res_simps split: if_splits)
  moreover have "same_files w w' \<and> (case prev of
          None \<Rightarrow> \<not> has_log_info f w
        | Some p \<Rightarrow> has_log_info f w \<and> ReadLatestCheckpointRekorV1 cd f w = Ok p \<and> Verify sl k p \<and>
            (\<exists>c treeID n n'. li_TreeID info = Some (c, treeID) \<and>
               ProveConsistency cl p checkpoint treeID n = (Ok (), n')))"
  proof (cases "has_log_info f w1")
    case True
    with rest \<open>logInfo = Some (a, info)\<close> obtain c treeID p where p: "prev = Some p"
      "li_TreeID info = Some (c, treeID)"
      "verifyCheckpointConsistency cd sl f checkpoint treeID cl k w1 = (Ok p, w')"
      by (auto simp: res_simps)
    from verifyCheckpointConsistency_Ok [OF p(3)] True w1 p(1,2) show ?thesis
      by (auto simp: has_log_info_same_files intro: same_files_trans)
  next
    case False
    with rest w1 show ?thesis by (auto simp: res_simps has_log_info_same_files)
  qed
  ultimately show ?thesis by blast
qed

section \<open>The scan of an entry\<close>

text \<open>Where an entry is: its index, if it has one, and its UUID.\<close>

definition entry_origin :: "string \<times> LogEntryAnon \<Rightarrow> int64 option \<times> string" where
  "entry_origin e = (map_option snd (lea_LogIndex (snd e)), fst e)"

lemma fingerprints_found:
  assumes "MatchLogEntryFingerprints entry uuid fps monitored = Ok ms"
  shows "m \<in> set ms \<longleftrightarrow> (\<exists>a i fp. lea_LogIndex entry = Some (a, i) \<and>
    fp \<in> set fps \<and> fp \<in> set monitored \<and> m = fingerprint_entry fp fp i uuid)"
  using rconcat2_Ok_set [OF assms [unfolded MatchLogEntryFingerprints_def], of m]
  by (auto simp: res_simps split: if_splits)

lemma certs_found:
  assumes "MatchLogEntryCertificateIdentities lib entry uuid certs monitored = Ok ms"
  shows "m \<in> set ms \<longleftrightarrow> (\<exists>a i ci cert sub iss. lea_LogIndex entry = Some (a, i) \<and>
    ci \<in> set monitored \<and> cert \<in> set certs \<and>
    CertMatchesPolicy lib (X509 cert) (ci_CertSubject ci) (ci_Issuers ci) = Ok (True, sub, iss) \<and>
    m = cert_entry (ci_CertSubject ci) sub iss i uuid)"
proof -
  have one: "(\<exists>us. rbind (rwrap p (CertMatchesPolicy lib c sj is)) (\<lambda>(match, sub, iss).
        if match then rbind (deref (lea_LogIndex entry)) (\<lambda>index. Ok [cert_entry sj sub iss index uuid])
        else Ok []) = Ok us \<and> m \<in> set us) \<longleftrightarrow>
      (\<exists>sub iss. CertMatchesPolicy lib c sj is = Ok (True, sub, iss) \<and>
        (\<exists>a i. lea_LogIndex entry = Some (a, i) \<and> m = cert_entry sj sub iss i uuid))" for p c sj "is"
    by (cases "CertMatchesPolicy lib c sj is"; cases "lea_LogIndex entry") (auto split: if_splits)
  show ?thesis
    unfolding rconcat2_Ok_set [OF assms [unfolded MatchLogEntryCertificateIdentities_def]] one
    by blast
qed

lemma extensions_found:
  assumes "MatchLogEntryOIDs lib entry uuid certs monitored = Ok ms"
  shows "m \<in> set ms \<longleftrightarrow> (\<exists>a i om cert oid v. lea_LogIndex entry = Some (a, i) \<and>
    om \<in> set monitored \<and> cert \<in> set certs \<and>
    OIDMatchesPolicy lib (X509 cert) (oe_ObjectIdentifier om) (oe_ExtensionValues om) =
      Ok (True, oid, v) \<and>
    m = extension_entry oid v i uuid)"
proof -
  have one: "(\<exists>us. rbind (rwrap p (OIDMatchesPolicy lib c i vs)) (\<lambda>(match, oid, v).
        if match then rbind (deref (lea_LogIndex entry)) (\<lambda>index. Ok [extension_entry oid v index uuid])
        else Ok []) = Ok us \<and> m \<in> set us) \<longleftrightarrow>
      (\<exists>oid v. OIDMatchesPolicy lib c i vs = Ok (True, oid, v) \<and>
        (\<exists>a i. lea_LogIndex entry = Some (a, i) \<and> m = extension_entry oid v i uuid))" for p c i vs
    by (cases "OIDMatchesPolicy lib c i vs"; cases "lea_LogIndex entry") (auto split: if_splits)
  show ?thesis
    unfolding rconcat2_Ok_set [OF assms [unfolded MatchLogEntryOIDs_def]] one
    by blast
qed

lemma subjects_found:
  assumes "MatchLogEntrySubjects lib entry uuid subjects monitored = Ok ms"
  shows "m \<in> set ms \<longleftrightarrow> (\<exists>a i s rx r. lea_LogIndex entry = Some (a, i) \<and>
    s \<in> set subjects \<and> r \<in> set monitored \<and> regexp_Compile lib r = Ok rx \<and> rx s \<and>
    m = subject_entry r s i uuid)"
proof -
  define one where "one r rx sub = (if rx sub then rbind (deref (lea_LogIndex entry)) (\<lambda>index.
    Ok [subject_entry r sub index uuid]) else Ok [])" for r and rx :: "string \<Rightarrow> bool" and sub
  have eq: "MatchLogEntrySubjects lib entry uuid subjects monitored = rconcat (\<lambda>r.
      rbind (rwrap (''error compiling regex'' @ at_entry uuid entry) (regexp_Compile lib r))
        (\<lambda>rx. rconcat (one r rx) subjects)) monitored"
    by (simp add: MatchLogEntrySubjects_def one_def [abs_def])
  have one: "(\<exists>us. one r rx s = Ok us \<and> m \<in> set us) \<longleftrightarrow>
      (\<exists>a i. lea_LogIndex entry = Some (a, i) \<and> rx s \<and> m = subject_entry r s i uuid)" for r rx s
    by (auto simp: one_def res_simps)
  note all = assms [unfolded eq]
  show ?thesis
  proof
    assume "m \<in> set ms"
    then obtain r rx zs where r: "r \<in> set monitored" "regexp_Compile lib r = Ok rx"
      and zs: "rconcat (one r rx) subjects = Ok zs" "m \<in> set zs"
      unfolding rconcat_Ok_set [OF all] rbind_Ok_iff rwrap_Ok_iff by (elim bexE exE conjE)
    from zs(2) obtain s where "s \<in> set subjects" "\<exists>us. one r rx s = Ok us \<and> m \<in> set us"
      unfolding rconcat_Ok_set [OF zs(1)] by (elim bexE)
    moreover from this(2) obtain a i where "lea_LogIndex entry = Some (a, i)" "rx s"
      "m = subject_entry r s i uuid"
      unfolding one by (elim exE conjE)
    ultimately show "\<exists>a i s rx r. lea_LogIndex entry = Some (a, i) \<and> s \<in> set subjects \<and>
        r \<in> set monitored \<and> regexp_Compile lib r = Ok rx \<and> rx s \<and> m = subject_entry r s i uuid"
      using r by (intro exI conjI)
  next
    assume "\<exists>a i s rx r. lea_LogIndex entry = Some (a, i) \<and> s \<in> set subjects \<and>
        r \<in> set monitored \<and> regexp_Compile lib r = Ok rx \<and> rx s \<and> m = subject_entry r s i uuid"
    then obtain a i s rx r where s: "s \<in> set subjects" and r: "r \<in> set monitored"
      "regexp_Compile lib r = Ok rx" and m: "lea_LogIndex entry = Some (a, i)" "rx s"
      "m = subject_entry r s i uuid"
      by (elim exE conjE)
    then have "\<exists>us. one r rx s = Ok us \<and> m \<in> set us"
      unfolding one by (intro exI conjI)
    then obtain us where us: "one r rx s = Ok us" "m \<in> set us"
      by (elim exE conjE)
    obtain zs where zs: "rconcat (one r rx) subjects = Ok zs" "set zs \<subseteq> set ms"
      using rconcat_Ok_each [OF all r(1)] r(2) by (auto simp: rbind_Ok_iff rwrap_Ok_iff)
    from rconcat_Ok_in [OF zs(1) s us(1)] zs(2) us(2) show "m \<in> set ms" by (meson subsetD)
  qed
qed

text \<open>The matchers of an entry that could be read, after its fingerprints.\<close>

abbreviation entry_steps ::
  "certlib \<Rightarrow> MonitoredValues \<Rightarrow> string \<Rightarrow> LogEntryAnon \<Rightarrow> string list \<Rightarrow> x509_cert list \<Rightarrow>
   (string \<times> LogEntry list res) list"
where
  "entry_steps lib mvs uuid entry subjects certs \<equiv>
     [(''error matching subjects: '', MatchLogEntrySubjects lib entry uuid subjects (mv_Subjects mvs)),
      (''error matching certificate identities: '',
         MatchLogEntryCertificateIdentities lib entry uuid certs (mv_CertificateIdentities mvs)),
      (''error matching object identifier extensions and values: '',
         MatchLogEntryOIDs lib entry uuid certs (mv_OIDMatchers mvs))]"

lemma scan_entry_matched:
  assumes "scan_entry lib el w mvs caR caI (uuid, entry) = Ok (ms, fs)"
    and "extractVerifiers el entry = Ok vs" and "extractAllIdentities vs = Ok (subjects, certs, fps)"
    and "ValidateCertificateChain lib w certs caR caI = Ok ()"
  obtains found ms' where
    "MatchLogEntryFingerprints entry uuid fps (mv_Fingerprints mvs) = Ok found"
    "match_steps (failed_entry entry uuid) (entry_steps lib mvs uuid entry subjects certs) = Ok (ms', fs)"
    "ms = found @ ms'"
proof -
  have "rbind (MatchLogEntryFingerprints entry uuid fps (mv_Fingerprints mvs)) (\<lambda>found.
      rbind (match_steps (failed_entry entry uuid) (entry_steps lib mvs uuid entry subjects certs))
        (\<lambda>(ms, fs). Ok (found @ ms, fs))) = Ok (ms, fs)"
    using assms by (simp add: scan_entry_def del: match_steps.simps)
  then show thesis
    by (auto simp: rbind_Ok_iff simp del: match_steps.simps intro: that)
qed

text \<open>The three ways the scan of an entry can end.\<close>

lemma scan_entry_cases:
  assumes "scan_entry lib el w mvs caR caI (uuid, entry) = Ok (ms, fs)"
  obtains
    (unreadable) msg err f where "ms = []" and "fs = [f]" and "failed_entry entry uuid msg err = Ok f"
  | (untrusted) "ms = []" and "fs = []"
  | (matched) subjects certs fps found ms' where
      "MatchLogEntryFingerprints entry uuid fps (mv_Fingerprints mvs) = Ok found"
      and "match_steps (failed_entry entry uuid) (entry_steps lib mvs uuid entry subjects certs) =
        Ok (ms', fs)"
      and "ms = found @ ms'"
proof (cases "extractVerifiers el entry")
  case (Ok vs)
  note vs = this
  show thesis
  proof (cases "extractAllIdentities vs")
    case (Ok ids)
    obtain subjects certs fps where ids: "ids = (subjects, certs, fps)" by (cases ids) auto
    show thesis
    proof (cases "ValidateCertificateChain lib w certs caR caI")
      case (Ok u)
      then have chain: "ValidateCertificateChain lib w certs caR caI = Ok ()" by simp
      show thesis
        by (rule scan_entry_matched [OF assms vs \<open>extractAllIdentities vs = Ok ids\<close> [unfolded ids] chain])
          (rule matched)
    qed (use assms vs Ok ids untrusted in \<open>auto simp: scan_entry_def rbind_Ok_iff\<close>)
  qed (use assms vs unreadable in \<open>auto simp: scan_entry_def scan_failed_Ok\<close>)
qed (use assms unreadable in \<open>auto simp: scan_entry_def scan_failed_Ok\<close>)

lemma failed_entry_Ok:
  "failed_entry entry uuid msg err = Ok f \<longleftrightarrow>
     (\<exists>a i. lea_LogIndex entry = Some (a, i) \<and>
        f = \<lparr>fl_Index = i, fl_UUID = uuid, fl_Error = msg @ error_msg err\<rparr>)"
  by (auto simp: failed_entry_def res_simps)

text \<open>What an entry yields bears its index and a monitored identity.\<close>

lemma scan_entry_found:
  assumes "scan_entry lib el w mvs caR caI e = Ok (ms, fs)" and "m \<in> set ms"
  shows "le_MatchedIdentity m \<in> set (CreateIdentitiesList mvs) \<and>
    entry_origin e = (Some (le_Index m), le_UUID m)"
proof -
  obtain uuid entry where e: "e = (uuid, entry)" by fastforce
  from assms(1) [unfolded e] show ?thesis
  proof (cases rule: scan_entry_cases)
    case (matched subjects certs fps found ms')
    consider "m \<in> set found" | "m \<in> set ms'" using assms(2) matched(3) by auto
    then show ?thesis
    proof cases
      case 1
      then show ?thesis
        using fingerprints_found [OF matched(1)] by (auto simp: e entry_origin_def monitored_fingerprint)
    next
      case 2
      from match_three_found [OF matched(2) this] show ?thesis
        by cases (auto simp: e entry_origin_def subjects_found certs_found extensions_found
            OIDMatchesPolicy_True intro: monitored_intros)
    qed
  qed (use assms(2) in auto)
qed

lemma scan_entry_failed:
  assumes "scan_entry lib el w mvs caR caI e = Ok (ms, fs)"
  shows "length fs \<le> 1 \<and> (\<forall>f \<in> set fs. entry_origin e = (Some (fl_Index f), fl_UUID f))"
proof -
  obtain uuid entry where e: "e = (uuid, entry)" by fastforce
  from assms [unfolded e] show ?thesis
  proof (cases rule: scan_entry_cases)
    case (matched subjects certs fps found ms')
    from match_steps_failures [OF matched(2)] show ?thesis
      by (auto simp: e failed_entry_Ok entry_origin_def)
  qed (auto simp: e failed_entry_Ok entry_origin_def)
qed

interpretation v1_scan: entry_scan "scan_entry lib el w mvs caR caI" entry_origin
  "CreateIdentitiesList mvs" for lib el w mvs caR caI
  by unfold_locales (auto dest: scan_entry_found scan_entry_failed)

text \<open>An entry that can be read and is trusted yields what it should.\<close>

lemma scan_entry_meets:
  assumes "scan_entry lib el w mvs caR caI (uuid, e) = Ok (ms, fs)" and "lea_LogIndex e = Some (a, i)"
    and "extractVerifiers el e = Ok vs" and "extractAllIdentities vs = Ok (subjects, certs, fps)"
    and "ValidateCertificateChain lib w certs caR caI = Ok ()"
  shows "scan_meets (fingerprint_matches mvs fps i uuid) (policy_matches lib mvs subjects (map X509 certs) i uuid)
    i uuid (ms, fs)"
proof -
  obtain found ms' where found: "MatchLogEntryFingerprints e uuid fps (mv_Fingerprints mvs) = Ok found"
    and steps: "match_steps (failed_entry e uuid) (entry_steps lib mvs uuid e subjects certs) = Ok (ms', fs)"
    and ms: "ms = found @ ms'"
    using scan_entry_matched [OF assms(1,3-5)] .
  have "set found = fingerprint_matches mvs fps i uuid"
    using assms(2) by (auto simp: fingerprints_found [OF found] fingerprint_matches_def)
  moreover have subjects: "set xs = subject_matches lib mvs subjects i uuid"
    if "MatchLogEntrySubjects lib e uuid subjects (mv_Subjects mvs) = Ok xs" for xs
    using assms(2) by (fastforce simp: subjects_found [OF that] subject_matches_def)
  moreover have certs: "set xs = cert_matches lib mvs (map X509 certs) i uuid"
    if "MatchLogEntryCertificateIdentities lib e uuid certs (mv_CertificateIdentities mvs) = Ok xs" for xs
    using assms(2) by (fastforce simp: certs_found [OF that] cert_matches_def)
  moreover have extensions: "set xs = extension_matches lib mvs (map X509 certs) i uuid"
    if "MatchLogEntryOIDs lib e uuid certs (mv_OIDMatchers mvs) = Ok xs" for xs
    using assms(2) by (fastforce simp: extensions_found [OF that] extension_matches_def)
  have "scan_meets (set found) (policy_matches lib mvs subjects (map X509 certs) i uuid) i uuid (found @ ms', fs)"
    using steps
  proof (rule match_steps_meets)
    fix msg ys
    assume "(msg, Ok ys) \<in> set (entry_steps lib mvs uuid e subjects certs)"
    then show "set ys \<subseteq> policy_matches lib mvs subjects (map X509 certs) i uuid"
      using subjects [of ys] certs [of ys] extensions [of ys] by (auto simp: policy_matches_def)
  next
    assume "\<forall>(msg, r) \<in> set (entry_steps lib mvs uuid e subjects certs). \<exists>ys. r = Ok ys \<and> set ys \<subseteq> set ms'"
    then show "policy_matches lib mvs subjects (map X509 certs) i uuid \<subseteq> set ms'"
      using subjects certs extensions by (auto simp: policy_matches_def)
  qed (use assms(2) in \<open>auto simp: failed_entry_Ok\<close>)
  ultimately show ?thesis by (simp add: ms)
qed

lemma MatchedIndices_scan:
  "MatchedIndices lib el ordE w entries mvs caR caI = Ok (ms, fs) \<Longrightarrow>
   scan_all (scan_entry lib el w mvs caR caI) (concat (map ordE entries)) = Ok (ms, fs)"
  by (simp add: MatchedIndices_def split: option.splits)

lemma MatchedIndices_entry:
  assumes "MatchedIndices lib el ordE w logEntries mvs caR caI = Ok (ms, fs)" and "range_order ordE"
    and "entries \<in> set logEntries" and "(uuid, e) \<in> set entries"
  shows "\<exists>ms1 fs1. scan_entry lib el w mvs caR caI (uuid, e) = Ok (ms1, fs1) \<and> set ms1 \<subseteq> set ms \<and> set fs1 \<subseteq> set fs"
proof -
  have "(uuid, e) \<in> set (concat (map ordE logEntries))"
    using assms(2-4) by (auto simp: range_order_set)
  with scan_all_Ok [OF MatchedIndices_scan [OF assms(1)]] show ?thesis by blast
qed

text \<open>What a finished search has done.\<close>

lemma IdentitySearch_Ok:
  assumes "IdentitySearch M cd lib el ordE ordM config cl mvs w = (Ok (identities, failed), w')"
    and "range_order ordM"
  shows "\<exists>start end entries w1 found.
    StartIndex config = Some start \<and> EndIndex config = Some end \<and>
    GetEntriesByIndexRange M cl start end w = (Ok entries, w1) \<and>
    MatchedIndices lib el ordE w1 entries mvs (CARootsFile config) (CAIntermediatesFile config) =
      Ok (found, failed) \<and>
    WriteMatchedIdentityEntries cd (OutputIdentitiesFile config) (OutputIdentitiesFormat config) found
      (IdentityMetadataFile config) end w1 = (Ok (), w') \<and>
    mset (concat (map mi_FoundIdentityEntries identities)) = mset found"
proof -
  from assms(1) obtain start e entries w1 found where run:
    "StartIndex config = Some start" "EndIndex config = Some e"
    "GetEntriesByIndexRange M cl start e w = (Ok entries, w1)"
    "MatchedIndices lib el ordE w1 entries mvs (CARootsFile config) (CAIntermediatesFile config) =
      Ok (found, failed)"
    "WriteMatchedIdentityEntries cd (OutputIdentitiesFile config) (OutputIdentitiesFormat config) found
      (IdentityMetadataFile config) e w1 = (Ok (), w')"
    and ids: "identities = CreateMonitoredIdentities ordM found (CreateIdentitiesList mvs)"
    unfolding IdentitySearch_def by (auto simp: res_simps field_of_def split: option.splits)
  from v1_scan.search_reported [OF MatchedIndices_scan [OF run(4)] assms(2)]
  have "mset (concat (map mi_FoundIdentityEntries identities)) = mset found"
    by (simp add: ids)
  with run show ?thesis by blast
qed

section \<open>Properties\<close>

text \<open>C16. Away from the largest \<open>int64\<close>, and from a server that answers queries for at most ten
  indices of the range, the range \<open>(start, end]\<close> is fetched completely: one entry for each index after
  \<open>start\<close> up to and including \<open>end\<close>, in order, none twice and none outside. The call returns.\<close>

theorem entries_fetched_v1:
  assumes "serves cl {start<..end} entry_at" and "\<forall>n. clk_done M n = None"
    and "- 9223372036854775809 \<le> start" and "start \<le> end" and "end + 10 < 9223372036854775808"
  shows "GetEntriesByIndexRange M cl start end w = (Ok (map entry_at [start + 1..end]), w)"
  using assms by (rule GetEntriesByIndexRange_serves)

definition demo_log_info :: "LogInfo ptr" where
  "demo_log_info = Some (1, \<lparr>li_InactiveShards = [Some (2, \<lparr>is_TreeSize = Some (3, 100)\<rparr>)],
     li_SignedTreeHead = Some (4, newline # ''7''), li_TreeID = Some (5, ''tree'')\<rparr>)"

definition demo_v1_entry :: "int64 \<Rightarrow> models_LogEntry" where
  "demo_v1_entry i = [(''uuid'', \<lparr>lea_Body = BodyString [], lea_LogIndex = Some (9, i)\<rparr>)]"

definition demo_v1_client :: "unit v1_client" where
  "demo_v1_client =
     \<lparr>rpc_GetLogInfo = (\<lambda>n. (Ok demo_log_info, n)),
      rpc_SearchLogQuery = (\<lambda>ixs n. (Ok (map demo_v1_entry ixs), n)),
      ProveConsistency = (\<lambda>p c t n. (if sc_Size p \<le> sc_Size c then Ok () else Fail (Err ''shrunk''), n))\<rparr>"

definition demo_world :: "unit world" where
  "demo_world = \<lparr>os_files = Map.empty, os_open_err = (\<lambda>_. None), os_write_cap = (\<lambda>_. None), net = ()\<rparr>"

theorem entries_fetched_v1_witness:
  "GetEntriesByIndexRange demo_clock demo_v1_client 5 17 demo_world =
     (Ok (map demo_v1_entry [6..17]), demo_world)"
  using entries_fetched_v1 [of demo_v1_client 5 17 demo_v1_entry demo_clock demo_world]
  by (simp add: serves_def demo_v1_client_def demo_clock_def)

text \<open>The degenerate ranges: \<open>start > end\<close> is an error before anything is fetched, and
  \<open>start = end\<close> returns no entry at all, also where the comment promises the one at that index.\<close>

theorem entries_degenerate_v1:
  "(start > end \<longrightarrow> (\<exists>e. GetEntriesByIndexRange M cl start end w = (Fail e, w))) \<and>
   (start < 9223372036854775807 \<longrightarrow> - 9223372036854775808 \<le> start \<longrightarrow>
      GetEntriesByIndexRange M cl start start w = (Ok [], w))"
proof (intro conjI impI)
  assume "start < 9223372036854775807" and "- 9223372036854775808 \<le> start"
  then have "i64 (start + 1) = start + 1" by (simp add: i64_id int64_range_def)
  then show "GetEntriesByIndexRange M cl start start w = (Ok [], w)"
    by (simp add: GetEntriesByIndexRange_def or_forever_def entries_loop.simps)
qed (simp add: GetEntriesByIndexRange_def io_fail_def)

theorem entries_degenerate_v1_witness:
  "GetEntriesByIndexRange demo_clock demo_v1_client 6 6 demo_world = (Ok [], demo_world)"
  using entries_degenerate_v1 [of 5 6 demo_clock demo_v1_client demo_world]
    entries_degenerate_v1 [of _ 6 demo_clock demo_v1_client demo_world]
  by simp

text \<open>C12. What a successful consistency check of a v1 log has established, and that it changes no
  file: the log's checkpoint bears a signature the verifier accepts; if the log info file holds
  anything, what it holds is a checkpoint that the verifier accepts as well and for which the
  log has proved consistency with its current checkpoint, and that checkpoint is returned; only
  without a file, or with an empty one, is no previous checkpoint returned.\<close>

theorem consistency_check_sound_v1:
  assumes "RunConsistencyCheck M cd sl cl k f w = (Ok (prev, logInfo), w')"
  shows "same_files w w' \<and>
    (\<exists>a info b sth checkpoint. logInfo = Some (a, info) \<and> li_SignedTreeHead info = Some (b, sth) \<and>
       sc_UnmarshalText cd sth = Ok checkpoint \<and> Verify sl k checkpoint \<and>
       (case prev of
          None \<Rightarrow> \<not> has_log_info f w
        | Some p \<Rightarrow> has_log_info f w \<and> ReadLatestCheckpointRekorV1 cd f w = Ok p \<and> Verify sl k p \<and>
            (\<exists>c treeID n n'. li_TreeID info = Some (c, treeID) \<and>
               ProveConsistency cl p checkpoint treeID n = (Ok (), n'))))"
  using RunConsistencyCheck_Ok [OF assms] .

definition demo_sig_lib :: "string sig_lib" where
  "demo_sig_lib = \<lparr>LoadVerifier = (\<lambda>k h. Ok k), Verify = (\<lambda>k c. k = sc_Origin c), sc_String = sc_Origin\<rparr>"

text \<open>A world whose log info file holds \<open>demo_checkpoint\<close>.\<close>

definition demo_log_world :: "unit world" where
  "demo_log_world = demo_world\<lparr>os_files := [''log'' \<mapsto> backslash_n @ ''7'' @ [newline]]\<rparr>"

lemma demo_reads:
  "has_log_info ''log'' demo_log_world"
  "ReadLatestCheckpointRekorV1 demo_codec ''log'' demo_log_world = Ok demo_checkpoint"
  "sc_UnmarshalText demo_codec (newline # ''7'') = Ok demo_checkpoint"
proof -
  show un: "sc_UnmarshalText demo_codec (newline # ''7'') = Ok demo_checkpoint"
    by (simp add: demo_codec_def demo_checkpoint_def atoi_def is_digit_def digit_val_def int64_range_def)
  have "storable (newline # ''7'')"
    by (simp add: storable_def str_contains_def backslash_n_def newline_def max_scan_token_def
        sublist_Cons_right)
  then have "readLastCheckpoint ''log'' demo_log_world = Ok (newline # ''7'')"
    by (rule read_stored_line) (simp_all add: demo_log_world_def demo_world_def newline_def)
  with un show "ReadLatestCheckpointRekorV1 demo_codec ''log'' demo_log_world = Ok demo_checkpoint"
    by (simp add: ReadLatestCheckpointRekorV1_def)
qed (simp add: has_log_info_def os_Stat_def demo_log_world_def demo_world_def)

lemma demo_GetLogInfo: "GetLogInfo M demo_v1_client (w :: unit world) = (Ok demo_log_info, w)"
  unfolding GetLogInfo_def
  using rpc_first_try [of "rpc_GetLogInfo demo_v1_client" w demo_log_info "()" M]
  by (simp add: demo_v1_client_def)

lemma demo_signature:
  "verifyLatestCheckpointSignature demo_codec demo_sig_lib demo_log_info ''rekor'' = Ok demo_checkpoint"
  by (simp add: verifyLatestCheckpointSignature_def ReadLatestCheckpoint_def demo_log_info_def demo_reads
      demo_sig_lib_def)
    (simp add: demo_checkpoint_def)

theorem consistency_check_sound_v1_witness:
  "Verify demo_sig_lib ''rekor'' demo_checkpoint \<and>
   (\<exists>treeID n n'. ProveConsistency demo_v1_client demo_checkpoint demo_checkpoint treeID n = (Ok (), n'))"
proof -
  have "verifyCheckpointConsistency demo_codec demo_sig_lib ''log'' demo_checkpoint ''tree'' demo_v1_client
      ''rekor'' demo_log_world = (Ok demo_checkpoint, demo_log_world)"
    by (simp add: verifyCheckpointConsistency_def io_bind_def io_wrap_def io_read_def demo_reads
        io_return_def io_fail_def net_call_def)
      (simp add: demo_sig_lib_def demo_v1_client_def demo_checkpoint_def)
  then have "RunConsistencyCheck demo_clock demo_codec demo_sig_lib demo_v1_client ''rekor'' ''log'' demo_log_world =
      (Ok (Some demo_checkpoint, demo_log_info), demo_log_world)"
    by (simp add: RunConsistencyCheck_def io_bind_def io_wrap_def demo_GetLogInfo demo_signature io_res_def
        io_read_def demo_reads io_return_def)
      (simp add: demo_log_info_def)
  from consistency_check_sound_v1 [OF this] show ?thesis
    by (auto simp: demo_log_info_def demo_reads)
qed



text \<open>C14. What \<open>MatchedIndices\<close> returns is sound: every found entry and every failure bears the
  index and UUID of an entry that was given; the matched identity is one that is monitored; an
  entry fails at most once. And the report groups the found entries without losing or doubling
  one.\<close>

theorem matched_indices_sound_v1:
  assumes "MatchedIndices lib el ordE w logEntries mvs caR caI = Ok (ms, fs)"
    and "range_order ordE" and "range_order ordM"
  shows "(\<forall>m \<in> set ms. le_MatchedIdentity m \<in> set (CreateIdentitiesList mvs) \<and>
      (\<exists>entries \<in> set logEntries. \<exists>e. (le_UUID m, e) \<in> set entries \<and>
         map_option snd (lea_LogIndex e) = Some (le_Index m))) \<and>
    (\<forall>f \<in> set fs. \<exists>entries \<in> set logEntries. \<exists>e. (fl_UUID f, e) \<in> set entries \<and>
       map_option snd (lea_LogIndex e) = Some (fl_Index f)) \<and>
    length fs \<le> length (concat logEntries) \<and>
    mset (concat (map mi_FoundIdentityEntries
      (CreateMonitoredIdentities ordM ms (CreateIdentitiesList mvs)))) = mset ms"
proof -
  let ?es = "concat (map ordE logEntries)"
  have scan: "scan_all (scan_entry lib el w mvs caR caI) ?es = Ok (ms, fs)"
    using assms(1) by (simp add: MatchedIndices_def split: option.splits)
  have len: "length ?es = length (concat logEntries)"
    using assms(2) by (induction logEntries) (simp_all add: range_order_length)
  have mem: "(\<exists>e \<in> set ?es. entry_origin e = (Some i, u)) \<longleftrightarrow>
      (\<exists>entries \<in> set logEntries. \<exists>e. (u, e) \<in> set entries \<and>
         map_option snd (lea_LogIndex e) = Some i)" for i u
    using assms(2) by (force simp: range_order_set entry_origin_def)
  show ?thesis
    using v1_scan.search_sound [OF scan] v1_scan.search_reported [OF scan assms(3)]
    unfolding len mem by blast
qed

definition demo_entry_lib :: "(unit, unit) entry_lib" where
  "demo_entry_lib =
     \<lparr>corrupt_offset = (\<lambda>_. 0), UnmarshalProposedEntry = (\<lambda>_. Ok ()), UnmarshalEntry = (\<lambda>_. Ok ()),
      Verifiers = (\<lambda>_. Ok [\<lparr>pk_Subjects = [''s''],
        pk_Identities = Ok [\<lparr>id_Fingerprint = ''fp'', id_Crypto = CryptoOther\<rparr>]\<rparr>])\<rparr>"

definition demo_certlib :: certlib where
  "demo_certlib =
     \<lparr>regexp_Compile = (\<lambda>e. if e = ''['' then Fail (Err ''missing closing ]'') else Ok (\<lambda>s. s = e)),
      asn1_Unmarshal = (\<lambda>v. Ok (v, [])), UnmarshalOtherNameSAN = (\<lambda>_. ([], None)),
      AppendCertsFromPEM = (\<lambda>_. True), pem_Decode = (\<lambda>_. True), x509_Verify = (\<lambda>_ _. True),
      google_Verify = (\<lambda>_ _. True)\<rparr>"

definition demo_mvs :: MonitoredValues where
  "demo_mvs = \<lparr>mv_CertificateIdentities = [], mv_Fingerprints = [''fp''], mv_Subjects = [''t''],
     mv_OIDMatchers = []\<rparr>"

lemma demo_entry_identities:
  "extractVerifiers demo_entry_lib \<lparr>lea_Body = BodyString [], lea_LogIndex = Some (9, i)\<rparr> =
     Ok [\<lparr>pk_Subjects = [''s''], pk_Identities = Ok [\<lparr>id_Fingerprint = ''fp'', id_Crypto = CryptoOther\<rparr>]\<rparr>]"
  "extractAllIdentities
     [\<lparr>pk_Subjects = [''s''], pk_Identities = Ok [\<lparr>id_Fingerprint = ''fp'', id_Crypto = CryptoOther\<rparr>]\<rparr>] =
     Ok ([''s''], [], [''fp''])"
  by (simp_all add: extractVerifiers_def demo_entry_lib_def base64_decode_def extractAllIdentities_def)

lemma demo_matched:
  "MatchedIndices demo_certlib demo_entry_lib rev w [demo_v1_entry 6] demo_mvs [] [] =
     Ok ([fingerprint_entry ''fp'' ''fp'' 6 ''uuid''], [])"
proof -
  have "scan_entry demo_certlib demo_entry_lib w demo_mvs [] []
      (''uuid'', \<lparr>lea_Body = BodyString [], lea_LogIndex = Some (9, 6)\<rparr>) =
      Ok ([fingerprint_entry ''fp'' ''fp'' 6 ''uuid''], [])"
    by (simp add: scan_entry_def demo_entry_identities ValidateCertificateChain_def demo_mvs_def
        MatchLogEntryFingerprints_def MatchLogEntrySubjects_def demo_certlib_def
        MatchLogEntryCertificateIdentities_def MatchLogEntryOIDs_def rconcat_def)
  moreover have "VerifyMonitoredValues demo_mvs = None"
    by (simp add: VerifyMonitoredValues_def MonitoredValuesExist_def demo_mvs_def not_empty_def
        verifyMonitoredOIDs_def)
  ultimately show ?thesis
    by (simp add: MatchedIndices_def scan_all_def demo_v1_entry_def)
qed

theorem matched_indices_sound_v1_witness:
  "le_MatchedIdentity (fingerprint_entry ''fp'' ''fp'' 6 ''uuid'') \<in> set (CreateIdentitiesList demo_mvs)"
  using matched_indices_sound_v1 [OF demo_matched [of demo_world] range_order_rev range_order_rev] by simp

text \<open>C13. And it is complete: of an entry that could be read and whose chain is trusted, every
  monitored fingerprint is found; and either the entry is in the list of failures, or every
  subject that a monitored expression matches, every certificate that matches a monitored
  identity, and every certificate that matches a monitored extension is found as well.\<close>

theorem matched_indices_complete_v1:
  assumes "MatchedIndices lib el ordE w logEntries mvs caR caI = Ok (ms, fs)" and "range_order ordE"
    and "entries \<in> set logEntries" and "(uuid, e) \<in> set entries" and "lea_LogIndex e = Some (a, i)"
    and "extractVerifiers el e = Ok vs" and "extractAllIdentities vs = Ok (subjects, certs, fps)"
    and "ValidateCertificateChain lib w certs caR caI = Ok ()"
  shows "fingerprint_matches mvs fps i uuid \<subseteq> set ms \<and>
    ((\<exists>f \<in> set fs. fl_Index f = i \<and> fl_UUID f = uuid) \<or>
     policy_matches lib mvs subjects (map X509 certs) i uuid \<subseteq> set ms)"
proof -
  obtain ms1 fs1 where one: "scan_entry lib el w mvs caR caI (uuid, e) = Ok (ms1, fs1)"
    and "set ms1 \<subseteq> set ms" "set fs1 \<subseteq> set fs"
    using MatchedIndices_entry [OF assms(1-4)] by blast
  with scan_entry_meets [OF one assms(5-8)] show ?thesis by (auto simp: scan_meets_def)
qed

theorem matched_indices_complete_v1_witness:
  "fingerprint_entry ''fp'' ''fp'' 6 ''uuid'' \<in> set [fingerprint_entry ''fp'' ''fp'' 6 ''uuid'']"
  using matched_indices_complete_v1 [OF demo_matched [of demo_world] range_order_rev, of "demo_v1_entry 6"
      "''uuid''" "\<lparr>lea_Body = BodyString [], lea_LogIndex = Some (9, 6)\<rparr>" 9 6]
  by (simp add: demo_entry_identities demo_v1_entry_def ValidateCertificateChain_def demo_mvs_def
      fingerprint_matches_def)



lemma CertMatchesPolicy_Fail:
  assumes "CertMatchesPolicy lib cert sub issuers = Fail e"
  shows "\<not> regexes_ok lib (sub # issuers)"
proof -
  have "policy_issuer lib cert \<noteq> Fail e" for e
    using getDeprecatedExtension_Ok [of cert certExtensionOIDCIssuer]
    by (auto simp: policy_issuer_def split: res.splits)
  then have "(\<exists>e. regexp_Compile lib sub = Fail e) \<or> (\<exists>iss e. issuer_matches lib iss issuers = Fail e)"
    using assms by (auto simp: CertMatchesPolicy_def Let_def res_simps split_beta split: if_splits)
  then show ?thesis
  proof
    assume "\<exists>iss e. issuer_matches lib iss issuers = Fail e"
    then obtain i e where "i \<in> set issuers" "regexp_Compile lib i = Fail e"
      by (auto simp: issuer_matches_def res_simps dest!: rmap_Fail)
    then show ?thesis by (force simp: regexes_ok_def list_all_iff is_ok_def)
  qed (auto simp: regexes_ok_def is_ok_def)
qed

lemma deref_match_not_Fail:
  "rbind (deref p) (\<lambda>i. Ok (f i)) \<noteq> Fail e"
  by (auto simp: res_simps)

text \<open>A configuration that \<open>Validate\<close> accepts never makes the search of a v1 entry fail on its
  expressions: matching its subjects and its certificate identities returns no error.\<close>

theorem validated_no_regex_failure_v1:
  assumes "Validate lib w config = Ok ()"
  shows "MatchLogEntrySubjects lib entry uuid subjects (cm_Subjects (MonitoredValues_of config)) \<noteq> Fail err \<and>
    MatchLogEntryCertificateIdentities lib entry uuid certs
      (cm_CertificateIdentities (MonitoredValues_of config)) \<noteq> Fail err"
proof -
  let ?cm = "MonitoredValues_of config"
  have sub: "regexes_ok lib (cm_Subjects ?cm)"
    and ids: "\<forall>ci \<in> set (cm_CertificateIdentities ?cm). regexes_ok lib (ci_CertSubject ci # ci_Issuers ci)"
    using assms by (auto simp: Validate_Ok regexes_ok_def list_all_iff)
  have "MatchLogEntrySubjects lib entry uuid subjects (cm_Subjects ?cm) \<noteq> Fail err"
  proof
    assume "MatchLogEntrySubjects lib entry uuid subjects (cm_Subjects ?cm) = Fail err"
    then obtain r rx where "r \<in> set (cm_Subjects ?cm)" "regexp_Compile lib r = Ok rx" and
      fail: "rconcat (\<lambda>sub. if rx sub then rbind (deref (lea_LogIndex entry)) (\<lambda>index.
        Ok [subject_entry r sub index uuid]) else Ok []) subjects = Fail err"
      using sub by (auto simp: MatchLogEntrySubjects_def res_simps regexes_ok_def list_all_iff is_ok_def
          dest!: rconcat_Fail split: res.splits)
    from rconcat_Fail [OF fail] show False
      by (auto simp: deref_match_not_Fail split: if_splits)
  qed
  moreover have "MatchLogEntryCertificateIdentities lib entry uuid certs (cm_CertificateIdentities ?cm) \<noteq> Fail err"
  proof
    assume "MatchLogEntryCertificateIdentities lib entry uuid certs (cm_CertificateIdentities ?cm) = Fail err"
    then obtain ci cert e where "ci \<in> set (cm_CertificateIdentities ?cm)"
      "CertMatchesPolicy lib (X509 cert) (ci_CertSubject ci) (ci_Issuers ci) = Fail e"
      by (auto simp: MatchLogEntryCertificateIdentities_def res_simps dest!: rconcat_Fail split: if_splits)
    with ids CertMatchesPolicy_Fail show False by blast
  qed
  ultimately show ?thesis ..
qed

theorem validated_no_regex_failure_v1_witness:
  "MatchLogEntrySubjects demo_certlib \<lparr>lea_Body = BodyOther, lea_LogIndex = None\<rparr> ''u'' [''a''] [] \<noteq> Fail (Err [])"
proof -
  have "Validate demo_certlib demo_world demo_config = Ok ()"
    by (simp add: Validate_def demo_config_def validatePEMFile_def)
  from validated_no_regex_failure_v1 [OF this, of "\<lparr>lea_Body = BodyOther, lea_LogIndex = None\<rparr>"
      "''u''" "[''a'']" "Err []" "[]"]
  show ?thesis by (simp add: demo_config_def)
qed

end
