(* ===== verification/RekorV2.thy ===== *)
theory RekorV2
  imports RekorV1
begin

text \<open>
  \<open>pkg/rekor/v2\<close>: the shards of a tiled Rekor v2 log and their clients (\<open>client.go\<close>), the
  consistency check across shards (\<open>verifier.go\<close>) and the search for monitored identities
  (\<open>identity.go\<close>), with \<open>pkg/util/tls.go\<close>. Names that v1 has too end in \<open>_v2\<close>. The tile client,
  the TUF client, the proof library and the protobuf types are the parameter \<open>v2_lib\<close>.
\<close>

section \<open>Data\<close>

text \<open>
  A \<open>time.Time\<close> is an instant, 0 for the zero time, and a location: \<open>IsZero\<close>, \<open>Before\<close> and
  \<open>Compare\<close> look at the instant, \<open>==\<close> compares both.
\<close>

record go_time =
  instant :: int
  location :: string

record Service =
  svc_URL :: string
  svc_MajorAPIVersion :: int
  svc_ValidityPeriodStart :: go_time
  svc_ValidityPeriodEnd :: go_time

text \<open>A parsed URL: its scheme and its \<open>String()\<close>.\<close>

record url =
  u_Scheme :: string
  u_String :: string

text \<open>The client and the verifier of a shard are pointers to values that are never nil; looking up
  a shard that is not in the map gives the zero value, whose pointers are nil.\<close>

record ('c, 'k) ShardInfo =
  si_client :: 'c
  si_verifier :: 'k
  si_validityEnd :: go_time

type_synonym ('c, 'k) shards = "(string \<times> ('c, 'k) ShardInfo) list"

text \<open>
  The parts of a \<open>protobuf.Entry\<close> the monitor reads. The generated getters return nil on nil, so a
  message that is absent is one with no field set.
\<close>

datatype proto_verifier = PublicKeyVerifier string | X509Verifier string | NoVerifier

datatype proto_spec =
    DsseSpec "proto_verifier list"
  | HashedRekordSpec proto_verifier
  | OtherSpec

record proto_entry =
  pe_Kind :: string
  pe_Spec :: "proto_spec option"

record Entry =
  ve_ProtoEntry :: proto_entry
  ve_Index :: int64

text \<open>A verifier of an entry, by the result of its \<open>Identity\<close> method.\<close>

record v2_verifier =
  vv_Identity :: "pki_identity res"

text \<open>The outcome of \<open>note.Open\<close> without verifiers: the error holds the parsed note with its
  unverified signatures, or there is another error (\<open>None\<close> for nil).\<close>

datatype note_outcome = UnverifiedNote "note_signature list" | NoteError "go_error option"

text \<open>The certificates of a TLS configuration, by the PEM text they come from.\<close>

type_synonym tls_config = string

text \<open>Code outside the repository, and \<open>net/url\<close> and \<open>time.Now\<close> of the library.\<close>

record ('n, 'c, 'k, 'b) v2_lib =
  time_Now :: "'n \<Rightarrow> int"
  url_Parse :: "string \<Rightarrow> url res"
  NewHTTPFetcher :: "url \<Rightarrow> string \<Rightarrow> tls_config option \<Rightarrow> unit res"
  fetch_Checkpoint :: "url \<Rightarrow> string \<Rightarrow> tls_config option \<Rightarrow> ('n, string) io"
  note_Open :: "string \<Rightarrow> note_outcome"
  note_corrupt_at :: "string \<Rightarrow> nat"
  LoadVerifier_v2 :: "string \<Rightarrow> int \<Rightarrow> 'k res"
  NewReader :: "string \<Rightarrow> string \<Rightarrow> 'k \<Rightarrow> string \<Rightarrow> tls_config option \<Rightarrow> 'c res"
  ReadCheckpoint :: "'c \<Rightarrow> ('n, Checkpoint) io"
  ReadEntryBundle :: "'c \<Rightarrow> int \<Rightarrow> int \<Rightarrow> ('n, string) io"
  bundle_UnmarshalText :: "string \<Rightarrow> string list res"
  protojson_Unmarshal :: "string \<Rightarrow> proto_entry res"
  NewProofBuilder :: "'c \<Rightarrow> int \<Rightarrow> ('n, 'b) io"
  ConsistencyProof :: "'b \<Rightarrow> int \<Rightarrow> int \<Rightarrow> ('n, string list) io"
  VerifyConsistency :: "int \<Rightarrow> int \<Rightarrow> string list \<Rightarrow> string \<Rightarrow> string \<Rightarrow> unit res"
  publickey_NewVerifier :: "string \<Rightarrow> v2_verifier res"
  certificate_NewVerifier :: "string \<Rightarrow> v2_verifier res"
  GetSubjectAlternateNames :: "x509_cert \<Rightarrow> string list"
  tuf_Refresh :: "('n, unit) io"
  GetSigningConfig :: "('n, Service list) io"

section \<open>Shards\<close>

definition RefreshSigningConfig :: "('n, 'c, 'k, 'b) v2_lib \<Rightarrow> ('n world, Service list) io" where
  "RefreshSigningConfig L =
     io_bind (io_wrap ''error refreshing TUF client: '' (net_call (tuf_Refresh L))) (\<lambda>_.
       io_wrap ''error getting SigningConfig target: '' (net_call (GetSigningConfig L)))"

text \<open>
  The shards that are or were valid, newest first. \<open>slices.SortFunc\<close> is not stable: \<open>srt\<close> is one
  of the permutations it may compute.
\<close>

definition filterV2Shards :: "(Service list \<Rightarrow> Service list) \<Rightarrow> int \<Rightarrow> Service list \<Rightarrow> Service list"
where
  "filterV2Shards srt now rekorServices =
     (let sortedServices = srt rekorServices
      in filter (\<lambda>s. svc_MajorAPIVersion s = 2 \<and> instant (svc_ValidityPeriodStart s) \<noteq> 0 \<and>
           instant (svc_ValidityPeriodStart s) < now) (rev sortedServices))"

definition getOrigin :: "url \<Rightarrow> string res" where
  "getOrigin shardURL =
     (let prefixLen = length (u_Scheme shardURL) + length ''://''
      in if prefixLen \<ge> length (u_String shardURL)
         then Fail (Err (''error getting origin from URL '' @ u_String shardURL))
         else Ok (drop (length (u_Scheme shardURL) + length ''://'') (u_String shardURL)))"

fun shards_loop ::
  "('n, 'c, 'k, 'b) v2_lib \<Rightarrow> ('c, 'k) shards \<Rightarrow> Service list \<Rightarrow> bool res"
where
  "shards_loop L currentShards [] = Ok False"
| "shards_loop L currentShards (newShard # rest) =
     rbind (rwrap ''error parsing rekor shard URL: '' (url_Parse L (svc_URL newShard))) (\<lambda>newShardURL.
     rbind (getOrigin newShardURL) (\<lambda>newShardOrigin.
       case map_of currentShards newShardOrigin of
         None \<Rightarrow> Ok True
       | Some matchingShard \<Rightarrow>
           if si_validityEnd matchingShard \<noteq> svc_ValidityPeriodEnd newShard then Ok True
           else shards_loop L currentShards rest))"

definition ShardsNeedUpdating ::
  "('n, 'c, 'k, 'b) v2_lib \<Rightarrow> (Service list \<Rightarrow> Service list) \<Rightarrow> int \<Rightarrow> ('c, 'k) shards \<Rightarrow>
   Service list \<Rightarrow> bool res"
where
  "ShardsNeedUpdating L srt now currentShards newShards =
     (let newV2Shards = filterV2Shards srt now newShards
      in if length newV2Shards = 0
         then Fail (Err ''error fetching Rekor shards: no v2 shards found in SigningConfig'')
         else if length currentShards \<noteq> length newV2Shards then Ok True
         else shards_loop L currentShards newV2Shards)"

definition TLSConfigForCA :: "string \<Rightarrow> 'a os_scheme \<Rightarrow> tls_config res" where
  "TLSConfigForCA chain w = rbind (os_ReadFile chain w) (\<lambda>caCert. Ok caCert)"

definition GetCheckpointKeyIDUnverified ::
  "('n, 'c, 'k, 'b) v2_lib \<Rightarrow> url \<Rightarrow> string \<Rightarrow> tls_config option \<Rightarrow> ('n world, string) io"
where
  "GetCheckpointKeyIDUnverified L baseURL userAgent tlsConfig =
     io_bind (io_res (rwrap ''creating tile client: '' (NewHTTPFetcher L baseURL userAgent tlsConfig))) (\<lambda>_.
     io_bind (io_wrap ''error fetching checkpoint: ''
         (net_call (fetch_Checkpoint L baseURL userAgent tlsConfig))) (\<lambda>cpRaw. io_res (
       case note_Open L cpRaw of
         NoteError e \<Rightarrow> Fail (Errorf ''error parsing checkpoint: ''
           (case e of None \<Rightarrow> Err ''<nil>'' | Some e \<Rightarrow> e))
       | UnverifiedNote sigs \<Rightarrow>
           (case sigs of
              [] \<Rightarrow> Fail (Err (''no signatures found in checkpoint: '' @ cpRaw))
            | sig0 # _ \<Rightarrow>
                rbind (rwrap ''error decoding checkpoint signature: ''
                    (base64_decode (note_corrupt_at L) (ns_Base64 sig0))) (\<lambda>signatureBytes.
                  if length signatureBytes < 4
                  then Fail (Err (''signature too short, expected >=4 bytes: '' @ fmt_bytes signatureBytes))
                  else Ok (take 4 signatureBytes))))))"

text \<open>The trusted logs in the order \<open>ord\<close> the map is ranged over.\<close>

definition GetLogVerifier_v2 ::
  "('n, 'c, 'k, 'b) v2_lib \<Rightarrow>
   ((string \<times> TransparencyLog option) list \<Rightarrow> (string \<times> TransparencyLog option) list) \<Rightarrow>
   url \<Rightarrow> (string \<times> TransparencyLog option) list \<Rightarrow> string \<Rightarrow> tls_config option \<Rightarrow> ('n world, 'k) io"
where
  "GetLogVerifier_v2 L ord baseURL rekorLogs userAgent tlsConfig =
     io_bind (GetCheckpointKeyIDUnverified L baseURL userAgent tlsConfig) (\<lambda>checkpointKeyID. io_res (
       rbind (matching_log checkpointKeyID (ord rekorLogs) None) (\<lambda>matchingLogInstance.
         case matchingLogInstance of
           None \<Rightarrow> Fail (Err (''couldn'' @ [CHR 0x27] @ ''t find matching log instance with baseURL '' @
             u_String baseURL))
         | Some inst \<Rightarrow> LoadVerifier_v2 L (tl_PublicKey inst) (tl_HashFunc inst))))"

text \<open>One round of the loop: the map, and the origin of the first shard.\<close>

definition add_shard ::
  "('n, 'c, 'k, 'b) v2_lib \<Rightarrow>
   ((string \<times> TransparencyLog option) list \<Rightarrow> (string \<times> TransparencyLog option) list) \<Rightarrow>
   (string \<times> TransparencyLog option) list \<Rightarrow> string \<Rightarrow> tls_config option \<Rightarrow> Service \<Rightarrow>
   ('c, 'k) shards \<times> string \<Rightarrow> ('n world, ('c, 'k) shards \<times> string) io"
where
  "add_shard L ord rekorLogs userAgent tlsConfig service = (\<lambda>(rekorShards, latestShardOrigin).
     io_bind (io_res (rwrap ''error parsing Rekor url: '' (url_Parse L (svc_URL service)))) (\<lambda>parsedURL.
     io_bind (io_res (getOrigin parsedURL)) (\<lambda>origin.
     let latest = (if latestShardOrigin = [] then origin else latestShardOrigin) in
     io_bind (GetLogVerifier_v2 L ord parsedURL rekorLogs userAgent tlsConfig) (\<lambda>verifier.
     io_bind (io_res (rwrap ''getting Rekor client: ''
         (NewReader L (svc_URL service) origin verifier userAgent tlsConfig))) (\<lambda>rekorClient.
     io_bind (io_wrap (''failed to get current checkpoint for log '' @ [CHR 0x27] @ origin @ [CHR 0x27] @ '': '')
         (net_call (ReadCheckpoint L rekorClient))) (\<lambda>checkpoint.
     io_return (AList.update (cp_Origin checkpoint)
         \<lparr>si_client = rekorClient, si_verifier = verifier,
          si_validityEnd = svc_ValidityPeriodEnd service\<rparr> rekorShards, latest)))))))"

fun add_shards ::
  "('n, 'c, 'k, 'b) v2_lib \<Rightarrow>
   ((string \<times> TransparencyLog option) list \<Rightarrow> (string \<times> TransparencyLog option) list) \<Rightarrow>
   (string \<times> TransparencyLog option) list \<Rightarrow> string \<Rightarrow> tls_config option \<Rightarrow> Service list \<Rightarrow>
   ('c, 'k) shards \<times> string \<Rightarrow> ('n world, ('c, 'k) shards \<times> string) io"
where
  "add_shards L ord logs ua tls [] st = io_return st"
| "add_shards L ord logs ua tls (service # rest) st =
     io_bind (add_shard L ord logs ua tls service st) (add_shards L ord logs ua tls rest)"

definition GetRekorShards ::
  "('n, 'c, 'k, 'b) v2_lib \<Rightarrow> (Service list \<Rightarrow> Service list) \<Rightarrow>
   ((string \<times> TransparencyLog option) list \<Rightarrow> (string \<times> TransparencyLog option) list) \<Rightarrow>
   (string \<times> TransparencyLog option) list \<Rightarrow> Service list \<Rightarrow> string \<Rightarrow> string \<Rightarrow>
   ('n world, ('c, 'k) shards \<times> string) io"
where
  "GetRekorShards L srt ord rekorLogs rekorServices userAgent certChain =
     io_bind (io_read (\<lambda>w. Ok (filterV2Shards srt (time_Now L (net w)) rekorServices))) (\<lambda>rekorV2Services.
       if length rekorV2Services = 0 then io_fail (Err ''failed to find any Rekor v2 shards'')
       else
         io_bind (if certChain \<noteq> [] then
             io_wrap ''getting TLS config: '' (io_bind (io_read (TLSConfigForCA certChain))
               (\<lambda>tls. io_return (Some tls)))
           else io_return None) (\<lambda>tlsConfig.
         add_shards L ord rekorLogs userAgent tlsConfig rekorV2Services ([], [])))"

section \<open>The client\<close>

definition TileWidth :: int64 where
  "TileWidth = 256"

text \<open>The tile of a checkpoint index; \<open>checkpointIndex + 1\<close> wraps around like the code's.\<close>

definition getTileIndex :: "int64 \<Rightarrow> int64" where
  "getTileIndex checkpointIndex =
     (let treeSize = i64 (checkpointIndex + 1);
          fullTilesCount = treeSize sdiv TileWidth
      in if treeSize smod TileWidth = 0 then fullTilesCount - 1 else fullTilesCount)"

text \<open>\<open>if err != nil { return fmt.Errorf("msg") }\<close>: the cause is dropped.\<close>

definition fail_as :: "string \<Rightarrow> 'a res \<Rightarrow> 'a res" where
  "fail_as msg r = rcatch r (\<lambda>_. Fail (Err msg)) Ok"

text \<open>The shard is \<open>None\<close> if it is the zero \<open>ShardInfo\<close> of an origin that is not in the map. The
  entries are numbered by their place in the tile.\<close>

definition getEntriesFromTile ::
  "('n, 'c, 'k, 'b) v2_lib \<Rightarrow> ('c, 'k) ShardInfo option \<Rightarrow> int64 \<Rightarrow> int \<Rightarrow> ('n world, Entry list) io"
where
  "getEntriesFromTile L shard fullTileIndex partialTileWidth =
     (case shard of
        None \<Rightarrow> io_res (Panic nil_deref)
      | Some sh \<Rightarrow>
          io_bind (\<lambda>w. apfst (fail_as ''failed to fetch entry bundle'')
              (net_call (ReadEntryBundle L (si_client sh) (u64 fullTileIndex) partialTileWidth) w))
            (\<lambda>bundleBytes. io_res (
              rbind (fail_as ''failed to parse entry bundle'' (bundle_UnmarshalText L bundleBytes))
                (\<lambda>entries. rmap (\<lambda>(i, entryBytes).
                  rbind (fail_as ''failed to parse entry'' (protojson_Unmarshal L entryBytes)) (\<lambda>logEntry.
                    Ok \<lparr>ve_ProtoEntry = logEntry,
                        ve_Index = i64 (i64 (fullTileIndex * TileWidth) + int i)\<rparr>))
                  (enumerate 0 entries)))))"

text \<open>\<open>s[low:]\<close>\<close>

definition slice_from :: "int \<Rightarrow> 'a list \<Rightarrow> 'a list res" where
  "slice_from low xs =
     (if int (length xs) < low
      then Panic (''runtime error: slice bounds out of range ['' @ itoa low @ '':'' @
             itoa (int (length xs)) @ '']'')
      else Ok (drop (nat low) xs))"

text \<open>The rest of the tile that holds \<open>start\<close>, if another tile follows, the full tiles in
  between, and the last tile as far as it is filled.\<close>

definition unread_entries ::
  "('n, 'c, 'k, 'b) v2_lib \<Rightarrow> ('c, 'k) ShardInfo option \<Rightarrow> int64 \<Rightarrow> int64 \<Rightarrow> ('n world, Entry list) io"
where
  "unread_entries L shard startTileIndex startLogSize =
     (let partialBundleSize = startLogSize smod TileWidth
      in if partialBundleSize > 0 then
           io_bind (io_wrap (''error getting bundle for tile: '' @ itoa startTileIndex @ ''. Error: '')
               (getEntriesFromTile L shard startTileIndex 0))
             (\<lambda>allStartEntries. io_res (slice_from partialBundleSize allStartEntries))
         else io_return [])"

definition GetEntriesByIndexRange_v2 ::
  "('n, 'c, 'k, 'b) v2_lib \<Rightarrow> ('c, 'k) ShardInfo option \<Rightarrow> int64 \<Rightarrow> int64 \<Rightarrow> ('n world, Entry list) io"
where
  "GetEntriesByIndexRange_v2 L shard start end =
     (if start > end then
        io_fail (Err (''start ('' @ itoa start @ '') must be less than or equal to end ('' @ itoa end @ '')''))
      else if start = end then io_return []
      else
        (let startTileIndex = getTileIndex start; startLogSize = i64 (start + 1);
             endTileIndex = getTileIndex end; endLogSize = i64 (end + 1)
         in io_bind (if startTileIndex < endTileIndex
                     then unread_entries L shard startTileIndex startLogSize else io_return []) (\<lambda>entries.
            io_bind (io_concat (\<lambda>i.
                io_wrap (''error getting bundle for tile: '' @ itoa i @ ''. Error: '')
                  (getEntriesFromTile L shard i 0)) [startTileIndex + 1..endTileIndex - 1]) (\<lambda>fullEntries.
            let partialBundleSize = u8 (endLogSize smod TileWidth) in
            io_bind (io_wrap (''error getting bundle for tile: '' @ itoa endTileIndex @ '', width: '' @
                itoa partialBundleSize @ ''. Error: '')
              (getEntriesFromTile L shard endTileIndex partialBundleSize)) (\<lambda>endEntries.
            io_return (entries @ fullEntries @ endEntries))))))"

section \<open>The verifier\<close>

definition client_of :: "('c, 'k) shards \<Rightarrow> string \<Rightarrow> 'c res" where
  "client_of rekorShards origin =
     (case map_of rekorShards origin of None \<Rightarrow> Panic nil_deref | Some sh \<Rightarrow> Ok (si_client sh))"

text \<open>The check against the stored checkpoint.\<close>

definition verify_previous_v2 ::
  "('n, 'c, 'k, 'b) v2_lib \<Rightarrow> codec \<Rightarrow> ('c, 'k) shards \<Rightarrow> string \<Rightarrow> string \<Rightarrow> Checkpoint \<Rightarrow>
   ('n world, Checkpoint) io"
where
  "verify_previous_v2 L cd rekorShards latestShardOrigin logInfoFile latestShardCheckpoint =
     io_bind (io_wrap ''reading checkpoint log: ''
         (io_read (ReadLatestCheckpointRekorV2 cd logInfoFile))) (\<lambda>prevCheckpoint.
     io_bind (io_res (client_of rekorShards latestShardOrigin)) (\<lambda>latestClient.
     io_bind (if cp_Origin prevCheckpoint \<noteq> latestShardOrigin then
         io_bind (io_res (client_of rekorShards (cp_Origin prevCheckpoint))) (\<lambda>rekorClient.
         io_bind (io_wrap ''failed to get current checkpoint: '' (net_call (ReadCheckpoint L rekorClient)))
           (\<lambda>newCheckpoint. io_return (rekorClient, newCheckpoint)))
       else io_return (latestClient, latestShardCheckpoint)) (\<lambda>(rekorClient, newCheckpoint).
     io_bind (io_wrap ''failed to get proof builder: ''
         (net_call (NewProofBuilder L rekorClient (cp_Size newCheckpoint)))) (\<lambda>pb.
     io_bind (io_wrap ''failed to build consistency proof: ''
         (net_call (ConsistencyProof L pb (cp_Size prevCheckpoint) (cp_Size newCheckpoint))))
       (\<lambda>consistencyProof.
     io_bind (io_res (rwrap ''consistency check failed: ''
         (VerifyConsistency L (cp_Size prevCheckpoint) (cp_Size newCheckpoint) consistencyProof
            (cp_Hash prevCheckpoint) (cp_Hash newCheckpoint)))) (\<lambda>_.
     io_return prevCheckpoint))))))"

definition RunConsistencyCheck_v2 ::
  "('n, 'c, 'k, 'b) v2_lib \<Rightarrow> codec \<Rightarrow> ('c, 'k) shards \<Rightarrow> string \<Rightarrow> string \<Rightarrow>
   ('n world, Checkpoint option \<times> Checkpoint) io"
where
  "RunConsistencyCheck_v2 L cd rekorShards latestShardOrigin logInfoFile =
     io_bind (io_res (client_of rekorShards latestShardOrigin)) (\<lambda>client.
     io_bind (io_wrap ''failed to get current checkpoint: '' (net_call (ReadCheckpoint L client)))
       (\<lambda>latestShardCheckpoint.
     io_bind (io_read (\<lambda>w. Ok (has_log_info logInfoFile w))) (\<lambda>exists.
       if exists then
         io_bind (verify_previous_v2 L cd rekorShards latestShardOrigin logInfoFile latestShardCheckpoint)
           (\<lambda>prevCheckpoint. io_return (Some prevCheckpoint, latestShardCheckpoint))
       else io_return (None, latestShardCheckpoint))))"

section \<open>Matching one entry\<close>

definition at_index :: "Entry \<Rightarrow> string" where
  "at_index entry = '' at index '' @ itoa (ve_Index entry) @ '': ''"

definition MatchLogEntryFingerprints_v2 :: "Entry \<Rightarrow> string list \<Rightarrow> string list \<Rightarrow> LogEntry list" where
  "MatchLogEntryFingerprints_v2 entry entryFingerprints monitoredFingerprints =
     concat (map (\<lambda>monitoredFp. concat (map (\<lambda>fp.
         if fp = monitoredFp then [fingerprint_entry monitoredFp fp (ve_Index entry) []] else [])
       entryFingerprints)) monitoredFingerprints)"

definition MatchLogEntryCertificateIdentities_v2 ::
  "certlib \<Rightarrow> Entry \<Rightarrow> x509_cert list \<Rightarrow> CertificateIdentity list \<Rightarrow> LogEntry list res"
where
  "MatchLogEntryCertificateIdentities_v2 lib entry entryCertificates monitoredCertIDs =
     rconcat (\<lambda>monitoredCertID. rconcat (\<lambda>cert.
         rbind (rwrap (''error with policy matching'' @ at_index entry)
             (CertMatchesPolicy lib (X509 cert) (ci_CertSubject monitoredCertID)
                (ci_Issuers monitoredCertID))) (\<lambda>(match, sub, iss).
           Ok (if match then [cert_entry (ci_CertSubject monitoredCertID) sub iss (ve_Index entry) []]
               else []))) entryCertificates) monitoredCertIDs"

definition MatchLogEntrySubjects_v2 ::
  "certlib \<Rightarrow> Entry \<Rightarrow> string list \<Rightarrow> string list \<Rightarrow> LogEntry list res" where
  "MatchLogEntrySubjects_v2 lib entry entrySubjects monitoredSubjects =
     rconcat (\<lambda>monitoredSub.
         rbind (rwrap (''error compiling regex'' @ at_index entry) (regexp_Compile lib monitoredSub))
           (\<lambda>regex. rconcat (\<lambda>sub.
             Ok (if regex sub then [subject_entry monitoredSub sub (ve_Index entry) []] else []))
             entrySubjects)) monitoredSubjects"

definition MatchLogEntryOIDs_v2 ::
  "certlib \<Rightarrow> Entry \<Rightarrow> x509_cert list \<Rightarrow> OIDExtension list \<Rightarrow> LogEntry list res"
where
  "MatchLogEntryOIDs_v2 lib entry entryCertificates monitoredOIDMatchers =
     rconcat (\<lambda>monitoredOID. rconcat (\<lambda>cert.
         rbind (rwrap (''error with policy matching'' @ at_index entry)
             (OIDMatchesPolicy lib (X509 cert) (oe_ObjectIdentifier monitoredOID)
                (oe_ExtensionValues monitoredOID))) (\<lambda>(match, oid, extValue).
           Ok (if match then [extension_entry oid extValue (ve_Index entry) []] else [])))
         entryCertificates) monitoredOIDMatchers"

text \<open>The verifiers that a message of one kind holds; a getter on another kind gives nil.\<close>

fun dsse_verifiers :: "proto_spec \<Rightarrow> proto_verifier list" where
  "dsse_verifiers (DsseSpec vs) = vs"
| "dsse_verifiers _ = []"

fun hashedrekord_verifier :: "proto_spec \<Rightarrow> proto_verifier" where
  "hashedrekord_verifier (HashedRekordSpec v) = v"
| "hashedrekord_verifier _ = NoVerifier"

fun read_verifier :: "('n, 'c, 'k, 'b) v2_lib \<Rightarrow> proto_verifier \<Rightarrow> v2_verifier res" where
  "read_verifier L (PublicKeyVerifier rawBytes) =
     rwrap ''error reading public key from entry: '' (publickey_NewVerifier L rawBytes)"
| "read_verifier L (X509Verifier rawBytes) =
     rwrap ''error reading certificate from entry: '' (certificate_NewVerifier L rawBytes)"
| "read_verifier L NoVerifier = Fail (Err ''must contain either a public key or X.509 certificate'')"

definition extractVerifiers_v2 :: "('n, 'c, 'k, 'b) v2_lib \<Rightarrow> proto_entry \<Rightarrow> v2_verifier list res" where
  "extractVerifiers_v2 L e =
     (case pe_Spec e of
        None \<Rightarrow> Fail (Err ''Entry without spec'')
      | Some spec \<Rightarrow>
          if pe_Kind e = ''dsse'' then rmap (read_verifier L) (dsse_verifiers spec)
          else if pe_Kind e = ''hashedrekord'' then rmap (read_verifier L) [hashedrekord_verifier spec]
          else Fail (Err (''entry kind not supported: '' @ pe_Kind e)))"

definition extractAllIdentities_v2 ::
  "('n, 'c, 'k, 'b) v2_lib \<Rightarrow> v2_verifier list \<Rightarrow> (string list \<times> x509_cert list \<times> string list) res"
where
  "extractAllIdentities_v2 L verifiers =
     rbind (rmap vv_Identity verifiers) (\<lambda>ids.
       let certificates = concat (map (\<lambda>i. certificate_of (id_Crypto i)) ids)
       in Ok (concat (map (GetSubjectAlternateNames L) certificates), certificates,
              map id_Fingerprint ids))"

section \<open>Searching entries\<close>

definition failed_entry_v2 :: "Entry \<Rightarrow> string \<Rightarrow> go_error \<Rightarrow> FailedLogEntry res" where
  "failed_entry_v2 entry msg err =
     Ok \<lparr>fl_Index = ve_Index entry, fl_UUID = [], fl_Error = msg @ error_msg err\<rparr>"

definition scan_entry_v2 ::
  "certlib \<Rightarrow> ('n, 'c, 'k, 'b) v2_lib \<Rightarrow> 'a os_scheme \<Rightarrow> MonitoredValues \<Rightarrow> string \<Rightarrow> string \<Rightarrow>
   Entry \<Rightarrow> scan res"
where
  "scan_entry_v2 lib L w mvs caRoots caIntermediates entry =
     rcatch (extractVerifiers_v2 L (ve_ProtoEntry entry))
       (\<lambda>err. scan_failed (failed_entry_v2 entry ''error extracting verifiers: '' err))
       (\<lambda>verifiers. rcatch (extractAllIdentities_v2 L verifiers)
         (\<lambda>err. scan_failed (failed_entry_v2 entry ''error extracting identities: '' err))
         (\<lambda>(subjects, certs, fps).
            rcatch (ValidateCertificateChain lib w certs caRoots caIntermediates)
              (\<lambda>err. Ok ([], []))
              (\<lambda>_. let found = MatchLogEntryFingerprints_v2 entry fps (mv_Fingerprints mvs) in
                 rbind (match_steps (failed_entry_v2 entry)
                   [(''error matching subjects: '',
                       MatchLogEntrySubjects_v2 lib entry subjects (mv_Subjects mvs)),
                    (''error matching certificate identities: '',
                       MatchLogEntryCertificateIdentities_v2 lib entry certs
                         (mv_CertificateIdentities mvs)),
                    (''error matching object identifier extensions and values: '',
                       MatchLogEntryOIDs_v2 lib entry certs (mv_OIDMatchers mvs))])
                   (\<lambda>(ms, fs). Ok (found @ ms, fs)))))"

definition MatchedIndices_v2 ::
  "certlib \<Rightarrow> ('n, 'c, 'k, 'b) v2_lib \<Rightarrow> 'a os_scheme \<Rightarrow> Entry list \<Rightarrow> MonitoredValues \<Rightarrow> string \<Rightarrow>
   string \<Rightarrow> scan res"
where
  "MatchedIndices_v2 lib L w logEntries mvs caRoots caIntermediates =
     (case VerifyMonitoredValues mvs of
        Some err \<Rightarrow> Fail err
      | None \<Rightarrow> scan_all (scan_entry_v2 lib L w mvs caRoots caIntermediates) logEntries)"

definition IdentitySearch_v2 ::
  "codec \<Rightarrow> certlib \<Rightarrow> ('n, 'c, 'k, 'b) v2_lib \<Rightarrow>
   ((string \<times> LogEntry list) list \<Rightarrow> (string \<times> LogEntry list) list) \<Rightarrow>
   'o IdentityMonitorConfiguration \<Rightarrow> ('c, 'k) shards \<Rightarrow> string \<Rightarrow> MonitoredValues \<Rightarrow>
   ('n world, MonitoredIdentity list \<times> FailedLogEntry list) io"
where
  "IdentitySearch_v2 cd lib L ordM config rekorShards latestShardOrigin monitoredValues =
     io_bind (io_res (field_of (StartIndex config))) (\<lambda>start.
     io_bind (io_res (field_of (EndIndex config))) (\<lambda>end.
     io_bind (io_wrap ''error getting entries by index range: ''
         (GetEntriesByIndexRange_v2 L (map_of rekorShards latestShardOrigin) start end)) (\<lambda>entries.
     io_bind (io_wrap ''error matching indices: '' (io_read (\<lambda>w. MatchedIndices_v2 lib L w entries
         monitoredValues (CARootsFile config) (CAIntermediatesFile config))))
       (\<lambda>(matchedEntries, failedEntries).
     io_bind (WriteMatchedIdentityEntries cd (OutputIdentitiesFile config)
         (OutputIdentitiesFormat config) matchedEntries (IdentityMetadataFile config) end) (\<lambda>_.
       let identities = CreateIdentitiesList monitoredValues;
           monitoredIdentities = CreateMonitoredIdentities ordM matchedEntries identities
       in io_return (monitoredIdentities, failedEntries))))))"

section \<open>The matchers of v1 and v2 agree\<close>

text \<open>The v1 entry with the same index, and no UUID. Its body plays no role once the identities are
  extracted.\<close>

definition as_v1 :: "Entry \<Rightarrow> LogEntryAnon" where
  "as_v1 entry = \<lparr>lea_Body = BodyOther, lea_LogIndex = Some (0, ve_Index entry)\<rparr>"

lemma as_v1_index [simp]: "lea_LogIndex (as_v1 entry) = Some (0, ve_Index entry)"
  by (simp add: as_v1_def)

lemma fingerprints_agree:
  "MatchLogEntryFingerprints (as_v1 entry) [] fps monitored =
     Ok (MatchLogEntryFingerprints_v2 entry fps monitored)"
  unfolding MatchLogEntryFingerprints_def MatchLogEntryFingerprints_v2_def
  by (intro rconcat_pure) auto

lemma certs_agree:
  "MatchLogEntryCertificateIdentities_v2 lib entry certs monitored = Ok ms \<longleftrightarrow>
     MatchLogEntryCertificateIdentities lib (as_v1 entry) [] certs monitored = Ok ms"
  unfolding MatchLogEntryCertificateIdentities_v2_def MatchLogEntryCertificateIdentities_def
  by (intro rconcat_cong_Ok) (auto simp: res_simps)

lemma extensions_agree:
  "MatchLogEntryOIDs_v2 lib entry certs monitored = Ok ms \<longleftrightarrow>
     MatchLogEntryOIDs lib (as_v1 entry) [] certs monitored = Ok ms"
  unfolding MatchLogEntryOIDs_v2_def MatchLogEntryOIDs_def
  by (intro rconcat_cong_Ok) (auto simp: res_simps)

lemma subjects_agree:
  "MatchLogEntrySubjects_v2 lib entry subjects monitored = Ok ms \<longleftrightarrow>
     MatchLogEntrySubjects lib (as_v1 entry) [] subjects monitored = Ok ms"
proof -
  have "rconcat (\<lambda>sub. Ok (if rx sub then [subject_entry r sub (ve_Index entry) []] else [])) subjects =
      rconcat (\<lambda>sub. if rx sub then rbind (deref (lea_LogIndex (as_v1 entry)))
        (\<lambda>index. Ok [subject_entry r sub index []]) else Ok []) subjects" for rx r
    by (intro arg_cong2 [where f = rconcat]) auto
  then show ?thesis
    unfolding MatchLogEntrySubjects_v2_def MatchLogEntrySubjects_def
    by (intro rconcat_cong_Ok) (auto simp: rbind_Ok_iff rwrap_Ok_iff)
qed

section \<open>The scan of an entry\<close>

abbreviation entry_steps_v2 ::
  "certlib \<Rightarrow> MonitoredValues \<Rightarrow> Entry \<Rightarrow> string list \<Rightarrow> x509_cert list \<Rightarrow> (string \<times> LogEntry list res) list"
where
  "entry_steps_v2 lib mvs entry subjects certs \<equiv>
     [(''error matching subjects: '', MatchLogEntrySubjects_v2 lib entry subjects (mv_Subjects mvs)),
      (''error matching certificate identities: '',
         MatchLogEntryCertificateIdentities_v2 lib entry certs (mv_CertificateIdentities mvs)),
      (''error matching object identifier extensions and values: '',
         MatchLogEntryOIDs_v2 lib entry certs (mv_OIDMatchers mvs))]"

lemma scan_entry_v2_matched:
  assumes "scan_entry_v2 lib L w mvs caR caI entry = Ok (ms, fs)"
    and "extractVerifiers_v2 L (ve_ProtoEntry entry) = Ok vs"
    and "extractAllIdentities_v2 L vs = Ok (subjects, certs, fps)"
    and "ValidateCertificateChain lib w certs caR caI = Ok ()"
  obtains ms' where
    "match_steps (failed_entry_v2 entry) (entry_steps_v2 lib mvs entry subjects certs) = Ok (ms', fs)"
    "ms = MatchLogEntryFingerprints_v2 entry fps (mv_Fingerprints mvs) @ ms'"
proof -
  have "rbind (match_steps (failed_entry_v2 entry) (entry_steps_v2 lib mvs entry subjects certs))
        (\<lambda>(ms, fs). Ok (MatchLogEntryFingerprints_v2 entry fps (mv_Fingerprints mvs) @ ms, fs)) = Ok (ms, fs)"
    using assms by (simp add: scan_entry_v2_def del: match_steps.simps)
  then show thesis
    by (auto simp: rbind_Ok_iff simp del: match_steps.simps intro: that)
qed

lemma scan_entry_v2_cases:
  assumes "scan_entry_v2 lib L w mvs caR caI entry = Ok (ms, fs)"
  obtains
    (unreadable) msg err f where "ms = []" and "fs = [f]" and "failed_entry_v2 entry msg err = Ok f"
  | (untrusted) "ms = []" and "fs = []"
  | (matched) subjects certs fps ms' where
      "match_steps (failed_entry_v2 entry) (entry_steps_v2 lib mvs entry subjects certs) = Ok (ms', fs)"
      and "ms = MatchLogEntryFingerprints_v2 entry fps (mv_Fingerprints mvs) @ ms'"
proof (cases "extractVerifiers_v2 L (ve_ProtoEntry entry)")
  case (Ok vs)
  note vs = this
  show thesis
  proof (cases "extractAllIdentities_v2 L vs")
    case (Ok ids)
    obtain subjects certs fps where ids: "ids = (subjects, certs, fps)" by (cases ids) auto
    show thesis
    proof (cases "ValidateCertificateChain lib w certs caR caI")
      case (Ok u)
      then have chain: "ValidateCertificateChain lib w certs caR caI = Ok ()" by simp
      show thesis
        by (rule scan_entry_v2_matched [OF assms vs \<open>extractAllIdentities_v2 L vs = Ok ids\<close> [unfolded ids] chain])
          (rule matched)
    qed (use assms vs Ok ids untrusted in \<open>auto simp: scan_entry_v2_def\<close>)
  qed (use assms vs unreadable in \<open>auto simp: scan_entry_v2_def scan_failed_Ok\<close>)
qed (use assms unreadable in \<open>auto simp: scan_entry_v2_def scan_failed_Ok\<close>)

text \<open>Where an entry is: v2 entries have an index only.\<close>

definition entry_origin_v2 :: "Entry \<Rightarrow> int64 option \<times> string" where
  "entry_origin_v2 e = (Some (ve_Index e), [])"

lemma scan_entry_v2_found:
  assumes "scan_entry_v2 lib L w mvs caR caI e = Ok (ms, fs)" and "m \<in> set ms"
  shows "le_MatchedIdentity m \<in> set (CreateIdentitiesList mvs) \<and>
    entry_origin_v2 e = (Some (le_Index m), le_UUID m)"
  using assms(1)
proof (cases rule: scan_entry_v2_cases)
  case (matched subjects certs fps ms')
  consider "m \<in> set (MatchLogEntryFingerprints_v2 e fps (mv_Fingerprints mvs))" | "m \<in> set ms'"
    using assms(2) matched(2) by auto
  then show ?thesis
  proof cases
    case 1
    then show ?thesis
      using fingerprints_found [OF fingerprints_agree] by (auto simp: entry_origin_v2_def monitored_fingerprint)
  next
    case 2
    from match_three_found [OF matched(1) this] show ?thesis
      by cases (auto simp: entry_origin_v2_def subjects_agree certs_agree extensions_agree
          subjects_found certs_found extensions_found OIDMatchesPolicy_True intro: monitored_intros)
  qed
qed (use assms(2) in auto)

lemma scan_entry_v2_failed:
  assumes "scan_entry_v2 lib L w mvs caR caI e = Ok (ms, fs)"
  shows "length fs \<le> 1 \<and> (\<forall>f \<in> set fs. entry_origin_v2 e = (Some (fl_Index f), fl_UUID f))"
  using assms
proof (cases rule: scan_entry_v2_cases)
  case (matched subjects certs fps ms')
  from match_steps_failures [OF matched(1)] show ?thesis
    by (auto simp: failed_entry_v2_def entry_origin_v2_def)
qed (auto simp: failed_entry_v2_def entry_origin_v2_def)

interpretation v2_scan: entry_scan "scan_entry_v2 lib L w mvs caR caI" entry_origin_v2
  "CreateIdentitiesList mvs" for lib L w mvs caR caI
  by unfold_locales (auto dest: scan_entry_v2_found scan_entry_v2_failed)

section \<open>The client fetches what it is asked for\<close>

text \<open>The \<open>n\<close> indices from \<open>a\<close> on, and the number of entries of a tile that is asked for by
  its width, where 0 stands for a full tile.\<close>

definition span :: "int64 \<Rightarrow> int64 \<Rightarrow> int64 list" where
  "span a n = [a..a + n - 1]"

definition filled :: "int \<Rightarrow> int64" where
  "filled p = (if p = 0 then 256 else p)"

lemma span_append: "0 \<le> m \<Longrightarrow> 0 \<le> n \<Longrightarrow> span a m @ span (a + m) n = span a (m + n)"
  using upto_split1 [of a "a + m" "a + m + n - 1"]
  by (cases "n = 0") (simp_all add: span_def add.assoc add_diff_eq)

lemma span_length [simp]: "length (span a n) = nat n"
  by (simp add: span_def)

lemma span_drop: "0 \<le> k \<Longrightarrow> k \<le> n \<Longrightarrow> drop (nat k) (span a n) = span (a + k) (n - k)"
  using span_append [of k "n - k" a] by (metis append_eq_conv_conj diff_ge_0_iff_ge add_diff_cancel_left' add_diff_eq span_length)

lemma span_join: "a \<le> b \<Longrightarrow> b \<le> c \<Longrightarrow> span a (b - a) @ span b (c - b) = span a (c - a)"
  using span_append [of "b - a" "c - b" a] by simp

lemma span_tiles:
  assumes "0 \<le> W"
  shows "a \<le> b \<Longrightarrow> concat (map (\<lambda>t. map f (span (W * t) W)) [a..b - 1]) = map f (span (W * a) (W * b - W * a))"
proof (induction "nat (b - a)" arbitrary: a)
  case (Suc k)
  then have "a \<le> b - 1" by linarith
  with assms have le: "W * a \<le> W * (a + 1)" "W * (a + 1) \<le> W * b" by (simp_all add: mult_left_mono)
  have "concat (map (\<lambda>t. map f (span (W * t) W)) [a..b - 1]) =
      map f (span (W * a) W) @ map f (span (W * (a + 1)) (W * b - W * (a + 1)))"
    using Suc.hyps \<open>a \<le> b - 1\<close> by (simp add: upto_rec1)
  also have "span (W * a) W = span (W * a) (W * (a + 1) - W * a)" by (simp add: algebra_simps)
  finally show ?case by (simp only: map_append [symmetric] span_join [OF le])
qed (simp add: span_def)

text \<open>A server that gives out every tile, full (width 0) or as far as it is filled.\<close>

definition serves_tiles :: "('n, 'c, 'k, 'b) v2_lib \<Rightarrow> 'c \<Rightarrow> int64 \<Rightarrow> (int64 \<Rightarrow> proto_entry) \<Rightarrow> bool" where
  "serves_tiles L c treeSize entry_at \<longleftrightarrow>
     (\<forall>t p n. 0 \<le> t \<longrightarrow> 0 \<le> p \<longrightarrow> p < 256 \<longrightarrow> 256 * t + filled p \<le> treeSize \<longrightarrow>
        (\<exists>bundle bs. ReadEntryBundle L c t p n = (Ok bundle, n) \<and> bundle_UnmarshalText L bundle = Ok bs \<and>
           map (protojson_Unmarshal L) bs =
             map (\<lambda>k. Ok (entry_at (256 * t + k))) (span 0 (filled p))))"

definition numbered :: "(int64 \<Rightarrow> proto_entry) \<Rightarrow> int64 \<Rightarrow> Entry" where
  "numbered entry_at i = \<lparr>ve_ProtoEntry = entry_at i, ve_Index = i\<rparr>"

lemma tile_cases:
  "(i + 1) mod 256 = 0 \<and> 256 * (i div 256 + 1) = i + 1 \<or>
   (i + 1) mod 256 \<noteq> 0 \<and> 256 * (i div 256) + (i + 1) mod 256 = i + (1 :: int)"
proof -
  let ?q = "i div 256" and ?r = "i mod 256"
  have i: "i + 1 = 256 * ?q + (?r + 1)" "i + 1 = 256 * (?q + 1) + (?r - 255)"
    using mult_div_mod_eq [of 256 i] unfolding distrib_left by linarith+
  consider "?r + 1 < 256" | "?r = 255" using pos_mod_bound [of 256 i] by linarith
  then show ?thesis
  proof cases
    case 1
    have m: "(i + 1) mod 256 = ?r + 1"
      by (rule int_mod_pos_eq [OF i(1)]) (use 1 pos_mod_sign [of 256 i] in linarith)+
    then have "(i + 1) mod 256 \<noteq> 0" using pos_mod_sign [of 256 i] by linarith
    moreover have "256 * ?q + (i + 1) mod 256 = i + 1" using m i(1) by linarith
    ultimately show ?thesis by blast
  next
    case 2
    have "(i + 1) mod 256 = ?r - 255" by (rule int_mod_pos_eq [OF i(2)]) (use 2 in linarith)+
    then have "(i + 1) mod 256 = 0" using 2 by linarith
    moreover have "256 * (?q + 1) = i + 1" using 2 i(2) by linarith
    ultimately show ?thesis by blast
  qed
qed

lemma getTileIndex_div:
  assumes "- 1 \<le> i" and "i + 1 < 9223372036854775808"
  shows "getTileIndex i = i div 256"
proof -
  have "i64 (i + 1) = i + 1" using assms by (simp add: i64_id int64_range_def)
  then have "getTileIndex i = (if (i + 1) mod 256 = 0 then (i + 1) div 256 - 1 else (i + 1) div 256)"
    using assms(1) by (simp add: getTileIndex_def Let_def TileWidth_def sdiv_nonneg smod_nonneg)
  moreover have "(i + 1) div 256 = i div 256 + (if (i + 1) mod 256 = 0 then 1 else 0)"
    using tile_cases [of i] mult_div_mod_eq [of 256 "i + 1"] by auto
  ultimately show ?thesis by simp
qed

lemma span_shift: "map (\<lambda>k. f (c + k)) (span 0 n) = map f (span c n)"
proof -
  have "map ((+) c) [a..b] = [c + a..c + b]" for a b
  proof (induction a b rule: upto.induct)
    case (1 a b)
    then show ?case by (cases "a \<le> b") (simp_all add: upto_rec1 add.assoc)
  qed
  from this [of 0 "n - 1"] have "map f (span c n) = map f (map ((+) c) (span 0 n))"
    by (simp add: span_def add_diff_eq)
  then show ?thesis by (simp add: comp_def)
qed

lemma rmap_enumerate:
  assumes "map f xs = map (\<lambda>k. Ok (g k)) (span (int n) m)"
    and "\<And>k y. int n \<le> k \<Longrightarrow> k < int n + m \<Longrightarrow> f y = Ok (g k) \<Longrightarrow> h (nat k, y) = Ok (G k)"
  shows "rmap h (enumerate n xs) = Ok (map G (span (int n) m))"
  using assms
proof (induction xs arbitrary: n m)
  case (Cons x xs)
  then have "0 < m" by (cases "0 < m") (simp_all add: span_def)
  then have up: "span (int n) m = int n # span (int (Suc n)) (m - 1)"
    by (simp add: span_def upto_rec1 algebra_simps)
  with Cons.prems(1) have fx: "f x = Ok (g (int n))"
    and rest: "map f xs = map (\<lambda>k. Ok (g k)) (span (int (Suc n)) (m - 1))"
    by simp_all
  have "rmap h (enumerate (Suc n) xs) = Ok (map G (span (int (Suc n)) (m - 1)))"
    by (intro Cons.IH rest Cons.prems(2)) simp_all
  moreover have "h (n, x) = Ok (G (int n))"
    using Cons.prems(2) [of "int n" x] \<open>0 < m\<close> fx by simp
  ultimately show ?case by (simp add: up)
qed simp

lemma getEntriesFromTile_serves:
  assumes "serves_tiles L (si_client sh) treeSize entry_at" and "0 \<le> t" and "t < 36028797018963968"
    and "0 \<le> p" and "p < 256" and "256 * t + filled p \<le> treeSize"
  shows "getEntriesFromTile L (Some sh) t p w =
    (Ok (map (numbered entry_at) (span (256 * t) (filled p))), w)"
proof -
  obtain bd bs where read: "ReadEntryBundle L (si_client sh) t p (net w) = (Ok bd, net w)"
    and parsed: "bundle_UnmarshalText L bd = Ok bs"
    and entries: "map (protojson_Unmarshal L) bs = map (\<lambda>k. Ok (entry_at (256 * t + k))) (span 0 (filled p))"
    using assms(1) [unfolded serves_tiles_def, rule_format, OF assms(2,4-6), of "net w"] by blast
  have "rmap (\<lambda>(i, entryBytes).
      rbind (fail_as ''failed to parse entry'' (protojson_Unmarshal L entryBytes)) (\<lambda>logEntry.
        Ok \<lparr>ve_ProtoEntry = logEntry, ve_Index = i64 (i64 (t * TileWidth) + int i)\<rparr>))
      (enumerate 0 bs) = Ok (map (\<lambda>k. numbered entry_at (256 * t + k)) (span 0 (filled p)))"
  proof (rule rmap_enumerate [of "protojson_Unmarshal L" bs "\<lambda>k. entry_at (256 * t + k)" 0 "filled p", simplified])
    fix k y
    assume k: "0 \<le> k" "k < filled p" and y: "protojson_Unmarshal L y = Ok (entry_at (256 * t + k))"
    have "i64 (t * 256) = t * 256" "i64 (t * 256 + k) = t * 256 + k"
      using assms(2,3,5) k by (auto simp: i64_id int64_range_def filled_def split: if_splits)
    with k(1) y show "(\<lambda>(i, entryBytes).
        rbind (fail_as ''failed to parse entry'' (protojson_Unmarshal L entryBytes)) (\<lambda>logEntry.
          Ok \<lparr>ve_ProtoEntry = logEntry, ve_Index = i64 (i64 (t * TileWidth) + int i)\<rparr>)) (nat k, y) =
        Ok (numbered entry_at (256 * t + k))"
      by (simp add: fail_as_def numbered_def TileWidth_def algebra_simps)
  qed (simp add: entries)
  moreover have "u64 t = t" using assms(2,3) by (simp add: u64_id)
  ultimately show ?thesis
    using read parsed
    by (simp add: getEntriesFromTile_def io_bind_def net_call_def fail_as_def io_res_def span_shift)
qed

text \<open>The three parts of a range are the range.\<close>

lemma spans_of_range:
  assumes "256 * e + filled q = end + 1" and "0 \<le> q" and "s \<le> e" and "start + 1 \<le> 256 * (s + 1)"
  shows "(if s < e then map f (span (start + 1) (256 * (s + 1) - (start + 1))) else []) @
      concat (map (\<lambda>t. map f (span (256 * t) 256)) [s + 1..e - 1]) @ map f (span (256 * e) (filled q)) =
    map f [(if s < e then start + 1 else 256 * e)..end]"
proof -
  have q: "filled q = end + 1 - 256 * e" and e: "256 * e \<le> end + 1"
    using assms(1,2) by (auto simp: filled_def split: if_splits)
  have range: "span a (end + 1 - a) = [a..end]" for a by (simp add: span_def)
  show ?thesis
  proof (cases "s < e")
    case True
    then have "256 * (s + 1) \<le> 256 * e" by simp
    with True assms(4) e show ?thesis
      by (simp only: span_tiles [of 256 "s + 1" e f] q map_append [symmetric] append_assoc [symmetric]
          span_join if_True zless_imp_add1_zle) (simp add: span_def)
  next
    case False
    with assms(3) show ?thesis by (simp add: q range)
  qed
qed

lemma GetEntriesByIndexRange_v2_serves:
  assumes "serves_tiles L (si_client sh) treeSize entry_at" and "- 1 \<le> start" and "start < end"
    and "end + 1 < 9223372036854775808" and "end < treeSize"
  shows "GetEntriesByIndexRange_v2 L (Some sh) start end w =
    (Ok (map (numbered entry_at)
       [(if start div 256 < end div 256 then start + 1 else 256 * (end div 256))..end]), w)"
proof -
  let ?f = "numbered entry_at" and ?W = TileWidth
  define s e p q where "s = start div 256" and "e = end div 256" and "p = (start + 1) mod 256"
    and "q = (end + 1) mod 256"
  have tiles: "getTileIndex start = s" "getTileIndex end = e"
    using assms(2-4) by (simp_all add: getTileIndex_div s_def e_def)
  have sizes: "i64 (start + 1) smod ?W = p" "u8 (i64 (end + 1) smod ?W) = q"
    using assms(2-4) by (simp_all add: i64_id int64_range_def TileWidth_def int_simps p_def q_def)
  have bounds: "s \<le> e" "e < 36028797018963968" "0 \<le> e" "0 \<le> p" "p < 256" "0 \<le> q" "q < 256"
    using assms(2-4) by (simp_all add: zdiv_mono1 s_def e_def p_def q_def)
  have start: "p = 0 \<and> 256 * (s + 1) = start + 1 \<or> 0 < p \<and> 0 \<le> s \<and> 256 * s + p = start + 1"
    using tile_cases [of start] assms(2) bounds(4) by (auto simp: s_def p_def)
  have "end": "256 * e + filled q = end + 1"
    using tile_cases [of "end"] by (auto simp: e_def q_def filled_def)
  note tile = getEntriesFromTile_serves [OF assms(1)]
  have whole: "256 * t + filled 0 \<le> treeSize" if "t < e" for t
    using that "end" assms(5) bounds by (simp add: filled_def split: if_splits)
  have first: "(if s < e then unread_entries L (Some sh) s (i64 (start + 1)) else io_return []) w =
      (Ok (if s < e then map ?f (span (start + 1) (256 * (s + 1) - (start + 1))) else []), w)"
  proof (cases "s < e \<and> p > 0")
    case True
    with start bounds have s: "0 \<le> s" "256 * s + p = start + 1" by auto
    have "drop (nat p) (map ?f (span (256 * s) 256)) = map ?f (span (start + 1) (256 * (s + 1) - (start + 1)))"
      using bounds(4,5) by (simp add: drop_map span_drop s(2) [symmetric])
    with True s(1) bounds show ?thesis
      by (simp add: unread_entries_def sizes io_bind_def io_wrap_apply tile whole io_res_def slice_from_def)
        (simp add: filled_def)
  next
    case False
    with start bounds show ?thesis
      by (auto simp: unread_entries_def sizes io_return_def span_def)
  qed
  have full: "io_concat (\<lambda>i. io_wrap (''error getting bundle for tile: '' @ itoa i @ ''. Error: '')
      (getEntriesFromTile L (Some sh) i 0)) [s + 1..e - 1] w =
      (Ok (concat (map (\<lambda>t. map ?f (span (256 * t) 256)) [s + 1..e - 1])), w)"
  proof (rule io_concat_pure)
    fix t
    assume "t \<in> set [s + 1..e - 1]"
    moreover have "- 1 \<le> s" using start assms(2) by auto
    ultimately show "io_wrap (''error getting bundle for tile: '' @ itoa t @ ''. Error: '')
        (getEntriesFromTile L (Some sh) t 0) w = (Ok (map ?f (span (256 * t) 256)), w)"
      using bounds(2) tile [of t 0 w] whole [of t] by (simp add: io_wrap_apply filled_def)
  qed
  have last: "getEntriesFromTile L (Some sh) e q w = (Ok (map ?f (span (256 * e) (filled q))), w)"
    using bounds "end" assms(5) by (intro tile) simp_all
  have "(if s < e then map ?f (span (start + 1) (256 * (s + 1) - (start + 1))) else []) @
      concat (map (\<lambda>t. map ?f (span (256 * t) 256)) [s + 1..e - 1]) @ map ?f (span (256 * e) (filled q)) =
      map ?f [(if s < e then start + 1 else 256 * e)..end]"
    using spans_of_range [of e q "end" s start ?f] "end" start bounds by auto
  with first full last assms(3) show ?thesis
    by (simp add: GetEntriesByIndexRange_v2_def Let_def tiles sizes io_bind_def io_wrap_apply io_return_def
        s_def [symmetric] e_def [symmetric])
qed

section \<open>The consistency check\<close>

lemma ReadLatestCheckpointRekorV2_same_files:
  "same_files w w' \<Longrightarrow> ReadLatestCheckpointRekorV2 cd f w' = ReadLatestCheckpointRekorV2 cd f w"
  by (simp add: ReadLatestCheckpointRekorV2_def readLastCheckpoint_def same_files_reads)

lemma client_of_Ok [res_simps]:
  "client_of shards orig = Ok c \<longleftrightarrow> (\<exists>sh. map_of shards orig = Some sh \<and> si_client sh = c)"
  by (simp add: client_of_def split: option.splits)

text \<open>What the comparison with the stored checkpoint \<open>p\<close> has established: the proof is about the
  shard that \<open>p\<close> comes from and a checkpoint of it, which is \<open>latest\<close> if that shard is the latest.\<close>

definition compared_v2 ::
  "('n, 'c, 'k, 'b) v2_lib \<Rightarrow> ('c, 'k) shards \<Rightarrow> string \<Rightarrow> Checkpoint \<Rightarrow> Checkpoint \<Rightarrow> bool"
where
  "compared_v2 L shards latestShardOrigin latest p \<longleftrightarrow>
     (\<exists>sh new proof. map_of shards (cp_Origin p) = Some sh \<and>
        (if cp_Origin p = latestShardOrigin then new = latest
         else \<exists>n n'. ReadCheckpoint L (si_client sh) n = (Ok new, n')) \<and>
        VerifyConsistency L (cp_Size p) (cp_Size new) proof (cp_Hash p) (cp_Hash new) = Ok ())"

lemma verify_previous_v2_Ok:
  assumes "verify_previous_v2 L cd shards orig f latest w = (Ok p, w')"
  shows "same_files w w' \<and> ReadLatestCheckpointRekorV2 cd f w = Ok p \<and> compared_v2 L shards orig latest p"
proof -
  from assms obtain c c' new w1 pb w2 pf where
    read: "ReadLatestCheckpointRekorV2 cd f w = Ok p" and c: "client_of shards orig = Ok c" and
    sel: "(if cp_Origin p \<noteq> orig then
         io_bind (io_res (client_of shards (cp_Origin p))) (\<lambda>rekorClient.
         io_bind (io_wrap ''failed to get current checkpoint: '' (net_call (ReadCheckpoint L rekorClient)))
           (\<lambda>newCheckpoint. io_return (rekorClient, newCheckpoint)))
       else io_return (c, latest)) w = (Ok (c', new), w1)" and
    pb: "net_call (NewProofBuilder L c' (cp_Size new)) w1 = (Ok pb, w2)" and
    pf: "net_call (ConsistencyProof L pb (cp_Size p) (cp_Size new)) w2 = (Ok pf, w')" and
    ok: "VerifyConsistency L (cp_Size p) (cp_Size new) pf (cp_Hash p) (cp_Hash new) = Ok ()"
    unfolding verify_previous_v2_def by (auto simp: res_simps split: prod.splits)
  have "same_files w w1 \<and> (\<exists>sh. map_of shards (cp_Origin p) = Some sh \<and>
      (if cp_Origin p = orig then new = latest
       else \<exists>n n'. ReadCheckpoint L (si_client sh) n = (Ok new, n')))"
    using sel c by (auto simp: res_simps dest!: net_call_Ok split: if_splits)
  moreover have "same_files w1 w'" using pb pf by (blast dest: net_call_Ok same_files_trans)
  ultimately show ?thesis
    unfolding compared_v2_def using read ok by (blast intro: same_files_trans)
qed

lemma RunConsistencyCheck_v2_Ok:
  assumes "RunConsistencyCheck_v2 L cd shards orig f w = (Ok (prev, latest), w')"
  shows "same_files w w' \<and>
    (\<exists>sh n n'. map_of shards orig = Some sh \<and> ReadCheckpoint L (si_client sh) n = (Ok latest, n')) \<and>
    (case prev of
       None \<Rightarrow> \<not> has_log_info f w
     | Some p \<Rightarrow> has_log_info f w \<and> ReadLatestCheckpointRekorV2 cd f w = Ok p \<and>
         compared_v2 L shards orig latest p)"
proof -
  from assms obtain sh w1 where sh: "map_of shards orig = Some sh"
    and cp: "net_call (ReadCheckpoint L (si_client sh)) w = (Ok latest, w1)"
    and rest: "(if has_log_info f w1 then
         io_bind (verify_previous_v2 L cd shards orig f latest)
           (\<lambda>prevCheckpoint. io_return (Some prevCheckpoint, latest))
       else io_return (None, latest)) w1 = (Ok (prev, latest), w')"
    unfolding RunConsistencyCheck_v2_def by (auto simp: res_simps split: if_splits)
  from net_call_Ok [OF cp] have w1: "same_files w w1"
    and "\<exists>n n'. ReadCheckpoint L (si_client sh) n = (Ok latest, n')" by auto
  moreover have "same_files w w' \<and> (case prev of
       None \<Rightarrow> \<not> has_log_info f w
     | Some p \<Rightarrow> has_log_info f w \<and> ReadLatestCheckpointRekorV2 cd f w = Ok p \<and>
         compared_v2 L shards orig latest p)"
  proof (cases "has_log_info f w1")
    case True
    with rest obtain p where p: "prev = Some p" "verify_previous_v2 L cd shards orig f latest w1 = (Ok p, w')"
      by (auto simp: res_simps)
    from verify_previous_v2_Ok [OF p(2)] True w1 p(1) show ?thesis
      by (auto simp: has_log_info_same_files ReadLatestCheckpointRekorV2_same_files intro: same_files_trans)
  next
    case False
    with rest w1 show ?thesis by (auto simp: res_simps has_log_info_same_files)
  qed
  ultimately show ?thesis using sh by blast
qed

section \<open>Shards that were just loaded\<close>

text \<open>What one round of the loop adds.\<close>

lemma add_shard_Ok:
  assumes "add_shard L ord logs ua tls service (shards, latest) w = (Ok (shards', latest'), w')"
  shows "\<exists>u orig k c cp n n'. url_Parse L (svc_URL service) = Ok u \<and> getOrigin u = Ok orig \<and>
    NewReader L (svc_URL service) orig k ua tls = Ok c \<and> ReadCheckpoint L c n = (Ok cp, n') \<and>
    shards' = AList.update (cp_Origin cp) \<lparr>si_client = c, si_verifier = k,
      si_validityEnd = svc_ValidityPeriodEnd service\<rparr> shards \<and>
    latest' = (if latest = [] then orig else latest)"
  using assms by (auto simp: add_shard_def Let_def res_simps dest!: net_call_Ok) blast

text \<open>
  A service whose client, when it returns a checkpoint, returns one of the origin it was made
  with: the tile reader checks the origin line of what it reads.
\<close>

definition reads_own_origin :: "('n, 'c, 'k, 'b) v2_lib \<Rightarrow> Service \<Rightarrow> bool" where
  "reads_own_origin L service \<longleftrightarrow>
     (\<forall>orig k ua tls c n cp n'. NewReader L (svc_URL service) orig k ua tls = Ok c \<longrightarrow>
        ReadCheckpoint L c n = (Ok cp, n') \<longrightarrow> cp_Origin cp = orig)"

definition service_origin :: "('n, 'c, 'k, 'b) v2_lib \<Rightarrow> Service \<Rightarrow> string res" where
  "service_origin L service = rbind (url_Parse L (svc_URL service)) getOrigin"

lemma service_origin_nonempty: "service_origin L s = Ok orig \<Longrightarrow> orig \<noteq> []"
  by (auto simp: service_origin_def getOrigin_def res_simps Let_def split: if_splits)

lemma length_update_new: "k \<notin> fst ` set al \<Longrightarrow> length (AList.update k v al) = Suc (length al)"
  by (induction al) auto

lemma shards_loop_stable:
  assumes "\<And>s. s \<in> set services \<Longrightarrow> \<exists>orig sh. service_origin L s = Ok orig \<and>
    map_of shards orig = Some sh \<and> si_validityEnd sh = svc_ValidityPeriodEnd s"
  shows "shards_loop L shards services = Ok False"
  using assms
proof (induction services)
  case (Cons s services)
  from Cons.prems [of s] obtain u orig sh where "url_Parse L (svc_URL s) = Ok u" "getOrigin u = Ok orig"
    "map_of shards orig = Some sh" "si_validityEnd sh = svc_ValidityPeriodEnd s"
    by (auto simp: service_origin_def res_simps)
  with Cons show ?case by simp
qed simp

text \<open>The loop stores one shard for each service, under its origin.\<close>

lemma add_shards_Ok:
  assumes "add_shards L ord logs ua tls services (shards, latest) w = (Ok (shards', latest'), w')"
    and "list_all (reads_own_origin L) services"
    and "distinct (map (service_origin L) services)"
    and "\<And>s orig. s \<in> set services \<Longrightarrow> service_origin L s = Ok orig \<Longrightarrow> orig \<notin> fst ` set shards"
  shows "length shards' = length shards + length services \<and>
    (\<forall>k \<in> fst ` set shards. map_of shards' k = map_of shards k) \<and>
    (\<forall>s \<in> set services. \<exists>orig sh. service_origin L s = Ok orig \<and> map_of shards' orig = Some sh \<and>
       si_validityEnd sh = svc_ValidityPeriodEnd s) \<and>
    (if latest = [] then services = [] \<or> service_origin L (hd services) = Ok latest' else latest' = latest)"
  using assms
proof (induction services arbitrary: shards latest w)
  case (Cons s services)
  from Cons.prems(1) obtain shards1 latest1 w1
    where one: "add_shard L ord logs ua tls s (shards, latest) w = (Ok (shards1, latest1), w1)"
    and rest: "add_shards L ord logs ua tls services (shards1, latest1) w1 = (Ok (shards', latest'), w')"
    by (auto simp: res_simps)
  obtain u orig k c cp n n' where parse: "url_Parse L (svc_URL s) = Ok u" "getOrigin u = Ok orig"
    and c: "NewReader L (svc_URL s) orig k ua tls = Ok c" "ReadCheckpoint L c n = (Ok cp, n')"
    and shards1: "shards1 = AList.update (cp_Origin cp) \<lparr>si_client = c, si_verifier = k,
      si_validityEnd = svc_ValidityPeriodEnd s\<rparr> shards"
    and latest1: "latest1 = (if latest = [] then orig else latest)"
    using add_shard_Ok [OF one] by blast
  have orig: "service_origin L s = Ok orig" using parse by (simp add: service_origin_def)
  have "cp_Origin cp = orig" using Cons.prems(2) c unfolding reads_own_origin_def list.pred_inject by blast
  with Cons.prems(4) [of s] orig have new: "cp_Origin cp \<notin> fst ` set shards" by simp
  have keys: "fst ` set shards1 = insert orig (fst ` set shards)"
    by (simp add: shards1 dom_map_of_conv_image_fst [symmetric] update_conv' \<open>cp_Origin cp = orig\<close>)
  have "orig1 \<notin> fst ` set shards1" if "t \<in> set services" "service_origin L t = Ok orig1" for t orig1
    using Cons.prems(3) Cons.prems(4) [of t] that orig keys by auto (metis image_eqI)
  with Cons.IH [OF rest] Cons.prems(2,3) have IH: "length shards' = length shards1 + length services \<and>
    (\<forall>k \<in> fst ` set shards1. map_of shards' k = map_of shards1 k) \<and>
    (\<forall>s \<in> set services. \<exists>orig sh. service_origin L s = Ok orig \<and> map_of shards' orig = Some sh \<and>
       si_validityEnd sh = svc_ValidityPeriodEnd s) \<and>
    (if latest1 = [] then services = [] \<or> service_origin L (hd services) = Ok latest' else latest' = latest1)"
    by simp
  have look: "map_of shards1 orig = Some \<lparr>si_client = c, si_verifier = k,
      si_validityEnd = svc_ValidityPeriodEnd s\<rparr>"
    "\<forall>j \<in> fst ` set shards. map_of shards1 j = map_of shards j"
    using new by (auto simp: shards1 update_conv' \<open>cp_Origin cp = orig\<close>)
  have "length shards1 = Suc (length shards)" using new by (simp add: shards1 length_update_new)
  with IH look keys orig latest1 service_origin_nonempty [OF orig] show ?case by auto
qed (simp add: io_return_def)

text \<open>The services that are in use are in the order of their start, the newest first.\<close>

definition newest_first :: "(Service list \<Rightarrow> Service list) \<Rightarrow> bool" where
  "newest_first srt \<longleftrightarrow> (\<forall>xs. mset (srt xs) = mset xs \<and>
     sorted_wrt (\<lambda>a b. instant (svc_ValidityPeriodStart a) \<le> instant (svc_ValidityPeriodStart b)) (srt xs))"

definition in_use :: "int \<Rightarrow> Service \<Rightarrow> bool" where
  "in_use now s \<longleftrightarrow> svc_MajorAPIVersion s = 2 \<and> instant (svc_ValidityPeriodStart s) \<noteq> 0 \<and>
     instant (svc_ValidityPeriodStart s) < now"

lemma filterV2Shards_set: "newest_first srt \<Longrightarrow> set (filterV2Shards srt now services) = {s \<in> set services. in_use now s}"
  by (auto simp: filterV2Shards_def Let_def newest_first_def in_use_def dest: mset_eq_setD)

lemma filterV2Shards_hd:
  assumes "newest_first srt" and "s \<in> set services" and "in_use now s"
  shows "instant (svc_ValidityPeriodStart s) \<le>
    instant (svc_ValidityPeriodStart (hd (filterV2Shards srt now services)))"
proof -
  let ?before = "\<lambda>a b. instant (svc_ValidityPeriodStart b) \<le> instant (svc_ValidityPeriodStart a)"
  have "sorted_wrt ?before (rev (srt services))"
    using assms(1) by (simp add: newest_first_def sorted_wrt_rev)
  then have "sorted_wrt ?before (filterV2Shards srt now services)"
    by (simp add: filterV2Shards_def Let_def sorted_wrt_filter)
  moreover have "s \<in> set (filterV2Shards srt now services)"
    using assms by (simp add: filterV2Shards_set)
  ultimately show ?thesis by (cases "filterV2Shards srt now services") auto
qed

lemma GetRekorShards_Ok:
  assumes "GetRekorShards L srt ord logs services ua chain w = (Ok (shards, latest), w')"
  shows "filterV2Shards srt (time_Now L (net w)) services \<noteq> [] \<and>
    (\<exists>tls w1. add_shards L ord logs ua tls (filterV2Shards srt (time_Now L (net w)) services) ([], []) w1 =
       (Ok (shards, latest), w'))"
  using assms by (auto simp: GetRekorShards_def res_simps split: if_splits)

lemma scan_entry_v2_meets:
  assumes "scan_entry_v2 lib L w mvs caR caI e = Ok (ms, fs)"
    and "extractVerifiers_v2 L (ve_ProtoEntry e) = Ok vs"
    and "extractAllIdentities_v2 L vs = Ok (subjects, certs, fps)"
    and "ValidateCertificateChain lib w certs caR caI = Ok ()"
  shows "scan_meets (fingerprint_matches mvs fps (ve_Index e) [])
    (policy_matches lib mvs subjects (map X509 certs) (ve_Index e) []) (ve_Index e) [] (ms, fs)"
proof -
  let ?i = "ve_Index e"
  obtain ms' where
    steps: "match_steps (failed_entry_v2 e) (entry_steps_v2 lib mvs e subjects certs) = Ok (ms', fs)"
    and ms: "ms = MatchLogEntryFingerprints_v2 e fps (mv_Fingerprints mvs) @ ms'"
    using scan_entry_v2_matched [OF assms] .
  have "set (MatchLogEntryFingerprints_v2 e fps (mv_Fingerprints mvs)) = fingerprint_matches mvs fps ?i []"
    by (auto simp: fingerprints_found [OF fingerprints_agree] fingerprint_matches_def)
  moreover have subjects: "set xs = subject_matches lib mvs subjects ?i []"
    if "MatchLogEntrySubjects_v2 lib e subjects (mv_Subjects mvs) = Ok xs" for xs
    using subjects_found [OF that [unfolded subjects_agree]] by (fastforce simp: subject_matches_def)
  moreover have certs: "set xs = cert_matches lib mvs (map X509 certs) ?i []"
    if "MatchLogEntryCertificateIdentities_v2 lib e certs (mv_CertificateIdentities mvs) = Ok xs" for xs
    using certs_found [OF that [unfolded certs_agree]] by (fastforce simp: cert_matches_def)
  moreover have extensions: "set xs = extension_matches lib mvs (map X509 certs) ?i []"
    if "MatchLogEntryOIDs_v2 lib e certs (mv_OIDMatchers mvs) = Ok xs" for xs
    using extensions_found [OF that [unfolded extensions_agree]] by (fastforce simp: extension_matches_def)
  have "scan_meets (set (MatchLogEntryFingerprints_v2 e fps (mv_Fingerprints mvs)))
      (policy_matches lib mvs subjects (map X509 certs) ?i []) ?i []
      (MatchLogEntryFingerprints_v2 e fps (mv_Fingerprints mvs) @ ms', fs)"
    using steps
  proof (rule match_steps_meets)
    fix msg ys
    assume "(msg, Ok ys) \<in> set (entry_steps_v2 lib mvs e subjects certs)"
    then show "set ys \<subseteq> policy_matches lib mvs subjects (map X509 certs) ?i []"
      using subjects [of ys] certs [of ys] extensions [of ys] by (auto simp: policy_matches_def)
  next
    assume "\<forall>(msg, r) \<in> set (entry_steps_v2 lib mvs e subjects certs). \<exists>ys. r = Ok ys \<and> set ys \<subseteq> set ms'"
    then show "policy_matches lib mvs subjects (map X509 certs) ?i [] \<subseteq> set ms'"
      using subjects certs extensions by (auto simp: policy_matches_def)
  qed (auto simp: failed_entry_v2_def)
  ultimately show ?thesis by (simp add: ms)
qed

section \<open>Properties\<close>

text \<open>C18. What a server that gives out every tile up to \<open>end\<close> makes of a range \<open>(start, end]\<close>: nothing if it is
  empty; exactly the entries after \<open>start\<close> up to \<open>end\<close> if the two lie in different tiles, however
  many full tiles are in between; and the whole tile up to \<open>end\<close> if they lie in the same one, so
  that entries at or before \<open>start\<close> come again. No entry of the range is missed or comes twice.\<close>

theorem entries_fetched_v2:
  assumes "serves_tiles L (si_client sh) (end + 1) entry_at" and "- 1 \<le> start" and "start \<le> end"
    and "end + 1 < 9223372036854775808"
  shows "GetEntriesByIndexRange_v2 L (Some sh) start end w =
    (Ok (if start = end then []
         else if start div 256 < end div 256 then map (numbered entry_at) [start + 1..end]
         else map (numbered entry_at) [256 * (end div 256)..end]), w)"
proof (cases "start = end")
  case True
  then show ?thesis by (simp add: GetEntriesByIndexRange_v2_def io_return_def)
next
  case False
  with assms GetEntriesByIndexRange_v2_serves [of L sh "end + 1" entry_at start "end" w] show ?thesis by simp
qed

definition demo_proto :: proto_entry where
  "demo_proto = \<lparr>pe_Kind = ''hashedrekord'', pe_Spec = Some (HashedRekordSpec (PublicKeyVerifier ''fp''))\<rparr>"

definition demo_v2_lib :: "(unit, string, unit, unit) v2_lib" where
  "demo_v2_lib =
     \<lparr>time_Now = (\<lambda>_. 1000), url_Parse = (\<lambda>s. Ok \<lparr>u_Scheme = ''https'', u_String = s\<rparr>),
      NewHTTPFetcher = (\<lambda>_ _ _. Ok ()), fetch_Checkpoint = (\<lambda>u _ _ n. (Ok (u_String u), n)),
      note_Open = (\<lambda>_. UnverifiedNote [\<lparr>ns_Name = [], ns_Hash = 0, ns_Base64 = ''AAAAAA==''\<rparr>]),
      note_corrupt_at = (\<lambda>_. 0), LoadVerifier_v2 = (\<lambda>_ _. Ok ()),
      NewReader = (\<lambda>_ orig _ _ _. Ok orig),
      ReadCheckpoint = (\<lambda>c n. (Ok \<lparr>cp_Origin = c, cp_Size = 300, cp_Hash = ''h''\<rparr>, n)),
      ReadEntryBundle = (\<lambda>_ _ p n. (Ok (replicate (nat (filled p)) CHR ''x''), n)),
      bundle_UnmarshalText = (\<lambda>s. Ok (map (\<lambda>c. [c]) s)), protojson_Unmarshal = (\<lambda>_. Ok demo_proto),
      NewProofBuilder = (\<lambda>_ _ n. (Ok (), n)), ConsistencyProof = (\<lambda>_ _ _ n. (Ok [], n)),
      VerifyConsistency = (\<lambda>a b _ _ _. if a \<le> b then Ok () else Fail (Err ''shrunk'')),
      publickey_NewVerifier = (\<lambda>s. Ok \<lparr>vv_Identity = Ok \<lparr>id_Fingerprint = s, id_Crypto = CryptoOther\<rparr>\<rparr>),
      certificate_NewVerifier = (\<lambda>s. Fail (Err s)), GetSubjectAlternateNames = (\<lambda>_. []),
      tuf_Refresh = (\<lambda>n. (Ok (), n)), GetSigningConfig = (\<lambda>n. (Ok [], n))\<rparr>"

definition demo_shard :: "string \<Rightarrow> (string, unit) ShardInfo" where
  "demo_shard orig = \<lparr>si_client = orig, si_verifier = (), si_validityEnd = \<lparr>instant = 0, location = []\<rparr>\<rparr>"

theorem entries_fetched_v2_witness:
  "GetEntriesByIndexRange_v2 demo_v2_lib (Some (demo_shard ''a'')) 5 7 demo_world =
     (Ok (map (numbered (\<lambda>_. demo_proto)) [0..7]), demo_world)"
proof -
  have "serves_tiles demo_v2_lib (si_client (demo_shard ''a'')) (7 + 1) (\<lambda>_. demo_proto)"
    by (simp add: serves_tiles_def demo_v2_lib_def map_replicate_const)
  from entries_fetched_v2 [OF this, of 5 demo_world] show ?thesis by simp
qed

text \<open>C17. What a successful consistency check of a v2 log has established, and that it changes no
  file: the checkpoint it returns was read (and verified) by the client of the latest shard; if the
  log info file holds anything, it holds a checkpoint whose shard is known and has proved
  consistency with a checkpoint of that same shard, which is the returned one if the shard is the
  latest; only without a file, or with an empty one, is no previous checkpoint returned.\<close>

theorem consistency_check_sound_v2:
  assumes "RunConsistencyCheck_v2 L cd shards latestOrigin f w = (Ok (prev, latest), w')"
  shows "same_files w w' \<and>
    (\<exists>sh n n'. map_of shards latestOrigin = Some sh \<and> ReadCheckpoint L (si_client sh) n = (Ok latest, n')) \<and>
    (case prev of
       None \<Rightarrow> \<not> has_log_info f w
     | Some p \<Rightarrow> has_log_info f w \<and> ReadLatestCheckpointRekorV2 cd f w = Ok p \<and>
         (\<exists>sh new proof. map_of shards (cp_Origin p) = Some sh \<and>
            (if cp_Origin p = latestOrigin then new = latest
             else \<exists>n n'. ReadCheckpoint L (si_client sh) n = (Ok new, n')) \<and>
            VerifyConsistency L (cp_Size p) (cp_Size new) proof (cp_Hash p) (cp_Hash new) = Ok ()))"
  using RunConsistencyCheck_v2_Ok [OF assms] unfolding compared_v2_def .

text \<open>A world whose log info file holds a checkpoint of size 7 and origin \<open>a\<close>.\<close>

definition demo_v2_world :: "unit world" where
  "demo_v2_world = demo_world\<lparr>os_files := [''log'' \<mapsto> ''a'' @ backslash_n @ ''7'' @ [newline]]\<rparr>"

lemma demo_v2_reads:
  "has_log_info ''log'' demo_v2_world"
  "ReadLatestCheckpointRekorV2 demo_codec ''log'' demo_v2_world = Ok \<lparr>cp_Origin = ''a'', cp_Size = 7, cp_Hash = []\<rparr>"
proof -
  have "storable (''a'' @ newline # ''7'')"
    by (simp add: storable_def str_contains_def backslash_n_def newline_def max_scan_token_def sublist_Cons_right)
  then have "readLastCheckpoint ''log'' demo_v2_world = Ok (''a'' @ newline # ''7'')"
    by (rule read_stored_line) (simp_all add: demo_v2_world_def demo_world_def newline_def)
  then show "ReadLatestCheckpointRekorV2 demo_codec ''log'' demo_v2_world =
      Ok \<lparr>cp_Origin = ''a'', cp_Size = 7, cp_Hash = []\<rparr>"
    by (simp add: ReadLatestCheckpointRekorV2_def demo_codec_def newline_def atoi_def is_digit_def
        digit_val_def int64_range_def)
qed (simp add: has_log_info_def os_Stat_def demo_v2_world_def demo_world_def)

lemma unit_net [simp]: "(w :: unit world)\<lparr>net := n\<rparr> = w"
  by (cases w) simp

lemma demo_v2_calls:
  "net_call (ReadCheckpoint demo_v2_lib c) w = (Ok \<lparr>cp_Origin = c, cp_Size = 300, cp_Hash = ''h''\<rparr>, w)"
  "net_call (NewProofBuilder demo_v2_lib c k) w = (Ok (), w)"
  "net_call (ConsistencyProof demo_v2_lib b i j) w = (Ok [], w)"
  "VerifyConsistency demo_v2_lib i j pf h1 h2 = (if i \<le> j then Ok () else Fail (Err ''shrunk''))"
  "url_Parse demo_v2_lib s = Ok \<lparr>u_Scheme = ''https'', u_String = s\<rparr>"
  "NewReader demo_v2_lib s orig key ua tls = Ok orig"
  "time_Now demo_v2_lib t = 1000"
  by (simp_all add: net_call_def demo_v2_lib_def)

theorem consistency_check_sound_v2_witness:
  "\<exists>new proof. cp_Origin new = ''b'' \<and> (\<exists>old :: Checkpoint. cp_Origin old = ''a'' \<and>
     VerifyConsistency demo_v2_lib 7 (cp_Size old) proof [] (cp_Hash old) = Ok ()) \<and>
   fst (RunConsistencyCheck_v2 demo_v2_lib demo_codec [(''b'', demo_shard ''b''), (''a'', demo_shard ''a'')]
     ''b'' ''log'' demo_v2_world) = Ok (Some \<lparr>cp_Origin = ''a'', cp_Size = 7, cp_Hash = []\<rparr>, new)"
proof -
  let ?shards = "[(''b'', demo_shard ''b''), (''a'', demo_shard ''a'')]"
  let ?p = "\<lparr>cp_Origin = ''a'', cp_Size = 7, cp_Hash = []\<rparr>"
  let ?new = "\<lparr>cp_Origin = ''b'', cp_Size = 300, cp_Hash = ''h''\<rparr>"
  have run: "RunConsistencyCheck_v2 demo_v2_lib demo_codec ?shards ''b'' ''log'' demo_v2_world =
      (Ok (Some ?p, ?new), demo_v2_world)"
    by (simp add: RunConsistencyCheck_v2_def verify_previous_v2_def client_of_def io_bind_def io_res_def
        io_wrap_apply io_read_def io_return_def demo_v2_reads demo_v2_calls demo_shard_def)
  from consistency_check_sound_v2 [OF run] obtain old pf n n' where
    "ReadCheckpoint demo_v2_lib ''a'' n = (Ok old, n')"
    "VerifyConsistency demo_v2_lib 7 (cp_Size old) pf [] (cp_Hash old) = Ok ()"
    by (auto simp: demo_shard_def)
  moreover from this(1) have "cp_Origin old = ''a''" by (auto simp: demo_v2_lib_def)
  ultimately have "\<exists>old :: Checkpoint. cp_Origin old = ''a'' \<and>
      VerifyConsistency demo_v2_lib 7 (cp_Size old) pf [] (cp_Hash old) = Ok ()" by blast
  then show ?thesis using run by (intro exI [of _ ?new] exI [of _ pf]) simp
qed

text \<open>When the stored checkpoint comes from a shard that is no longer among the shards, the
  consistency check does not return an error: it panics.\<close>

theorem unknown_origin_panics_v2:
  assumes "map_of shards latestOrigin = Some sh" and "ReadCheckpoint L (si_client sh) (net w) = (Ok latest, n)"
    and "has_log_info f w" and "ReadLatestCheckpointRekorV2 cd f w = Ok p"
    and "map_of shards (cp_Origin p) = None"
  shows "fst (RunConsistencyCheck_v2 L cd shards latestOrigin f w) = Panic nil_deref"
proof -
  have "same_files w (w\<lparr>net := n\<rparr>)" by (simp add: same_files_def os.defs)
  then have "has_log_info f (w\<lparr>net := n\<rparr>)" "ReadLatestCheckpointRekorV2 cd f (w\<lparr>net := n\<rparr>) = Ok p"
    using assms by (simp_all add: has_log_info_same_files ReadLatestCheckpointRekorV2_same_files)
  moreover have "cp_Origin p \<noteq> latestOrigin" using assms by auto
  ultimately show ?thesis
    using assms by (simp add: RunConsistencyCheck_v2_def verify_previous_v2_def client_of_def io_bind_def
        io_res_def io_wrap_apply io_read_def net_call_def)
qed

theorem unknown_origin_panics_v2_witness:
  "fst (RunConsistencyCheck_v2 demo_v2_lib demo_codec [(''b'', demo_shard ''b'')] ''b'' ''log'' demo_v2_world) =
     Panic nil_deref"
  by (rule unknown_origin_panics_v2 [OF _ _ demo_v2_reads])
    (simp_all add: demo_v2_lib_def demo_shard_def)

text \<open>The shards that \<open>GetRekorShards\<close> has loaded need no update as long as the signing config
  stays the same, and the latest shard it names is the one that started last of those in use.\<close>

theorem loaded_shards_stable_v2:
  assumes "GetRekorShards L srt ord logs services ua chain w = (Ok (shards, latest), w')"
    and "newest_first srt" and "list_all (reads_own_origin L) services"
    and "distinct (map (service_origin L) (filterV2Shards srt (time_Now L (net w)) services))"
  shows "ShardsNeedUpdating L srt (time_Now L (net w)) shards services = Ok False \<and>
    (\<exists>newest \<in> set services. in_use (time_Now L (net w)) newest \<and> service_origin L newest = Ok latest \<and>
       (\<forall>s \<in> set services. in_use (time_Now L (net w)) s \<longrightarrow>
          instant (svc_ValidityPeriodStart s) \<le> instant (svc_ValidityPeriodStart newest)))"
proof -
  let ?now = "time_Now L (net w)"
  let ?used = "filterV2Shards srt ?now services"
  obtain tls w1 where ne: "?used \<noteq> []"
    and add: "add_shards L ord logs ua tls ?used ([], []) w1 = (Ok (shards, latest), w')"
    using GetRekorShards_Ok [OF assms(1)] by blast
  have "list_all (reads_own_origin L) ?used"
    using assms(3) by (simp add: list_all_iff filterV2Shards_set [OF assms(2)])
  from add_shards_Ok [OF add this assms(4)] ne have
    shards: "length shards = length ?used" "service_origin L (hd ?used) = Ok latest"
      "\<And>s. s \<in> set ?used \<Longrightarrow> \<exists>orig sh. service_origin L s = Ok orig \<and> map_of shards orig = Some sh \<and>
         si_validityEnd sh = svc_ValidityPeriodEnd s"
    by auto
  have "ShardsNeedUpdating L srt ?now shards services = Ok False"
    using ne shards(1) shards_loop_stable [OF shards(3)] by (simp add: ShardsNeedUpdating_def Let_def)
  moreover have "hd ?used \<in> {s \<in> set services. in_use ?now s}"
    using ne filterV2Shards_set [OF assms(2)] hd_in_set by metis
  ultimately show ?thesis
    using shards(2) filterV2Shards_hd [OF assms(2)] by (intro conjI bexI [of _ "hd ?used"]) auto
qed

definition demo_service :: "string \<Rightarrow> int \<Rightarrow> Service" where
  "demo_service u start = \<lparr>svc_URL = u, svc_MajorAPIVersion = 2,
     svc_ValidityPeriodStart = \<lparr>instant = start, location = []\<rparr>,
     svc_ValidityPeriodEnd = \<lparr>instant = 0, location = []\<rparr>\<rparr>"

definition demo_sort :: "Service list \<Rightarrow> Service list" where
  "demo_sort = sort_key (\<lambda>s. instant (svc_ValidityPeriodStart s))"

theorem loaded_shards_stable_v2_witness:
  "\<exists>shards. GetRekorShards demo_v2_lib demo_sort rev
       [(''00000000'', Some \<lparr>tl_PublicKey = [], tl_HashFunc = 0\<rparr>)]
       [demo_service ''https://b'' 2, demo_service ''https://a'' 1] [] [] demo_world =
       (Ok (shards, ''b''), demo_world) \<and>
     ShardsNeedUpdating demo_v2_lib demo_sort 1000 shards
       [demo_service ''https://b'' 2, demo_service ''https://a'' 1] = Ok False"
proof -
  let ?logs = "[(''00000000'', Some \<lparr>tl_PublicKey = [], tl_HashFunc = 0\<rparr>)]"
  let ?services = "[demo_service ''https://b'' 2, demo_service ''https://a'' 1]"
  let ?shards = "[(''b'', demo_shard ''b''), (''a'', demo_shard ''a'')]"
  have used: "filterV2Shards demo_sort 1000 ?services = ?services"
    by (simp add: filterV2Shards_def demo_sort_def demo_service_def)
  have verifier: "GetLogVerifier_v2 demo_v2_lib rev u ?logs [] None demo_world = (Ok (), demo_world)" for u
    by (simp add: GetLogVerifier_v2_def GetCheckpointKeyIDUnverified_def io_bind_def io_res_def io_wrap_apply
        net_call_def demo_v2_lib_def base64_decode_def b64_val_def newline_def hex_val_def)
  have "add_shard demo_v2_lib rev ?logs [] None (demo_service u k) (shs, latest) demo_world =
      (Ok (AList.update (drop 8 u) (demo_shard (drop 8 u)) shs,
         if latest = [] then drop 8 u else latest), demo_world)" if "8 < length u" for u k shs latest
    using that
    by (simp add: add_shard_def Let_def io_bind_def io_res_def io_wrap_apply io_return_def demo_v2_calls verifier
        demo_service_def getOrigin_def demo_shard_def eval_nat_numeral)
  then have run: "GetRekorShards demo_v2_lib demo_sort rev ?logs ?services [] [] demo_world =
      (Ok (?shards, ''b''), demo_world)"
    by (simp add: GetRekorShards_def io_bind_def io_read_def io_return_def used demo_v2_calls)
  have "newest_first demo_sort"
    by (simp add: newest_first_def demo_sort_def sorted_sort_key [unfolded sorted_map])
  moreover have "list_all (reads_own_origin demo_v2_lib) ?services"
    by (simp add: reads_own_origin_def demo_v2_lib_def)
  moreover have "distinct (map (service_origin demo_v2_lib) (filterV2Shards demo_sort 1000 ?services))"
    by (simp only: used) (simp add: service_origin_def demo_v2_calls demo_service_def getOrigin_def)
  ultimately show ?thesis
    using loaded_shards_stable_v2 [OF run] run by (simp add: demo_v2_calls)
qed

text \<open>C40. The matchers of v2 are those of v1: on the same identities of an entry with the same index
  they succeed for the same monitored values and find the same entries, which have no UUID.\<close>

theorem matchers_agree_v1_v2:
  "MatchLogEntryFingerprints (as_v1 entry) [] fps mfps = Ok (MatchLogEntryFingerprints_v2 entry fps mfps) \<and>
   (MatchLogEntryCertificateIdentities_v2 lib entry certs mids = Ok ms \<longleftrightarrow>
      MatchLogEntryCertificateIdentities lib (as_v1 entry) [] certs mids = Ok ms) \<and>
   (MatchLogEntrySubjects_v2 lib entry subjects msubs = Ok ms \<longleftrightarrow>
      MatchLogEntrySubjects lib (as_v1 entry) [] subjects msubs = Ok ms) \<and>
   (MatchLogEntryOIDs_v2 lib entry certs moids = Ok ms \<longleftrightarrow>
      MatchLogEntryOIDs lib (as_v1 entry) [] certs moids = Ok ms)"
  by (simp add: fingerprints_agree certs_agree subjects_agree extensions_agree)

text \<open>C19. What \<open>MatchedIndices\<close> of v2 returns is sound: every found entry and every failure bears
  the index of an entry that was given; the matched identity is one that is monitored; and the
  report groups the found entries without losing or doubling one. It is complete: of an entry that
  could be read and whose chain is trusted, every monitored fingerprint is found, and either the
  entry is in the list of failures or every subject, certificate and extension that matches is found.\<close>

theorem matched_indices_v2:
  assumes "MatchedIndices_v2 lib L w entries mvs caR caI = Ok (ms, fs)" and "range_order ordM"
  shows "(\<forall>m \<in> set ms. le_MatchedIdentity m \<in> set (CreateIdentitiesList mvs) \<and>
      le_Index m \<in> ve_Index ` set entries) \<and>
    (\<forall>f \<in> set fs. fl_Index f \<in> ve_Index ` set entries) \<and>
    mset (concat (map mi_FoundIdentityEntries
      (CreateMonitoredIdentities ordM ms (CreateIdentitiesList mvs)))) = mset ms \<and>
    (\<forall>e \<in> set entries. \<forall>vs subjects certs fps.
       extractVerifiers_v2 L (ve_ProtoEntry e) = Ok vs \<longrightarrow>
       extractAllIdentities_v2 L vs = Ok (subjects, certs, fps) \<longrightarrow>
       ValidateCertificateChain lib w certs caR caI = Ok () \<longrightarrow>
       fingerprint_matches mvs fps (ve_Index e) [] \<subseteq> set ms \<and>
       ((\<exists>f \<in> set fs. fl_Index f = ve_Index e) \<or>
        policy_matches lib mvs subjects (map X509 certs) (ve_Index e) [] \<subseteq> set ms))"
proof -
  have scan: "scan_all (scan_entry_v2 lib L w mvs caR caI) entries = Ok (ms, fs)"
    using assms(1) by (simp add: MatchedIndices_v2_def split: option.splits)
  have "fingerprint_matches mvs fps (ve_Index e) [] \<subseteq> set ms \<and>
       ((\<exists>f \<in> set fs. fl_Index f = ve_Index e) \<or>
        policy_matches lib mvs subjects (map X509 certs) (ve_Index e) [] \<subseteq> set ms)"
    if e: "e \<in> set entries" "extractVerifiers_v2 L (ve_ProtoEntry e) = Ok vs"
      "extractAllIdentities_v2 L vs = Ok (subjects, certs, fps)"
      "ValidateCertificateChain lib w certs caR caI = Ok ()" for e vs subjects certs fps
  proof -
    obtain ms1 fs1 where one: "scan_entry_v2 lib L w mvs caR caI e = Ok (ms1, fs1)"
      and "set ms1 \<subseteq> set ms" "set fs1 \<subseteq> set fs"
      using scan_all_Ok [OF scan] e(1) by blast
    with scan_entry_v2_meets [OF one e(2-4)] show ?thesis by (auto simp: scan_meets_def)
  qed
  then show ?thesis
    using v2_scan.search_sound [OF scan] v2_scan.search_reported [OF scan assms(2)]
    by (simp add: entry_origin_v2_def image_iff eq_commute [of "ve_Index _"])
qed

lemma demo_v2_matched:
  "MatchedIndices_v2 demo_certlib demo_v2_lib w [\<lparr>ve_ProtoEntry = demo_proto, ve_Index = 6\<rparr>] demo_mvs [] [] =
     Ok ([fingerprint_entry ''fp'' ''fp'' 6 []], [])"
proof -
  have "scan_entry_v2 demo_certlib demo_v2_lib w demo_mvs [] [] \<lparr>ve_ProtoEntry = demo_proto, ve_Index = 6\<rparr> =
      Ok ([fingerprint_entry ''fp'' ''fp'' 6 []], [])"
    by (simp add: scan_entry_v2_def extractVerifiers_v2_def demo_proto_def demo_v2_lib_def
        extractAllIdentities_v2_def ValidateCertificateChain_def demo_mvs_def MatchLogEntryFingerprints_v2_def
        MatchLogEntrySubjects_v2_def demo_certlib_def MatchLogEntryCertificateIdentities_v2_def
        MatchLogEntryOIDs_v2_def rconcat_def)
  moreover have "VerifyMonitoredValues demo_mvs = None"
    by (simp add: VerifyMonitoredValues_def MonitoredValuesExist_def demo_mvs_def not_empty_def
        verifyMonitoredOIDs_def)
  ultimately show ?thesis by (simp add: MatchedIndices_v2_def scan_all_def)
qed

theorem matched_indices_v2_witness:
  "le_MatchedIdentity (fingerprint_entry ''fp'' ''fp'' 6 []) \<in> set (CreateIdentitiesList demo_mvs)"
  using matched_indices_v2 [OF demo_v2_matched [of demo_world] range_order_rev] by simp

end
