(* ===== verification/CTMonitor.thy ===== *)
theory CTMonitor
  imports RekorV1
begin

text \<open>
  \<open>pkg/ct\<close>: the consistency check of a certificate transparency log (\<open>consistency.go\<close>) and the
  search of its entries (\<open>monitor.go\<close>). Names that the other monitors have too end in \<open>_ct\<close>. The
  client of the log, the signature and proof libraries and the parsers of certificates are the
  parameter \<open>ct_lib\<close>. The client keeps its verifier in a field that the check sets: the state
  outside the files is the verifier beside the rest of the network.
\<close>

section \<open>Data\<close>

text \<open>An entry of the log: a certificate, or a pre-certificate with the
  to-be-signed certificate and the submitted bytes. A nil pointer is \<open>None\<close>.\<close>

record PreCert =
  pc_TBSCertificate :: "x509_cert option"
  pc_Submitted :: string

record ct_LogEntry =
  ce_Index :: int64
  ce_X509Cert :: "x509_cert option"
  ce_Precert :: "PreCert option"

text \<open>A log of the trusted root, which has no nil entries.\<close>

record 'p CTLog =
  cl_BaseURL :: string
  cl_PublicKey :: 'p

record ('n, 'v) ct_net =
  ct_Verifier :: "'v option"
  ct_rest :: 'n

text \<open>Code outside the repository. The calls of the client see its verifier, \<open>None\<close> for nil.\<close>

record ('n, 'v, 'p) ct_lib =
  BaseURI :: string
  GetSTH :: "'v option \<Rightarrow> ('n, SignedTreeHead) io"
  VerifySTHSignature :: "'v option \<Rightarrow> SignedTreeHead \<Rightarrow> unit res"
  GetSTHConsistency :: "int \<Rightarrow> int \<Rightarrow> ('n, string list) io"
  GetEntries :: "int64 \<Rightarrow> int64 \<Rightarrow> ('n, ct_LogEntry list) io"
  NewSignatureVerifier :: "'p \<Rightarrow> 'v res"
  PubKey :: "'v \<Rightarrow> 'p option"
  MarshalPKIXPublicKey :: "'p \<Rightarrow> string res"
  Sum256 :: "string \<Rightarrow> string"
  VerifyConsistency_ct :: "int \<Rightarrow> int \<Rightarrow> string list \<Rightarrow> string \<Rightarrow> string \<Rightarrow> unit res"
  x509_ParseCertificate :: "string \<Rightarrow> x509_cert res"
  google_ParseCertificate :: "string \<Rightarrow> x509_cert res"

definition ct_call :: "('n, 'a) io \<Rightarrow> (('n, 'v) ct_net world, 'a) io" where
  "ct_call f = net_call (\<lambda>s. case f (ct_rest s) of (r, n) \<Rightarrow> (r, s\<lparr>ct_rest := n\<rparr>))"

definition get_verifier :: "('n, 'v) ct_net world \<Rightarrow> 'v option" where
  "get_verifier w = ct_Verifier (net w)"

definition set_verifier :: "'v \<Rightarrow> (('n, 'v) ct_net world, unit) io" where
  "set_verifier v = net_call (\<lambda>s. (Ok (), s\<lparr>ct_Verifier := Some v\<rparr>))"

section \<open>The verifier\<close>

definition ctLogIDFromPublicKey :: "('n, 'v, 'p) ct_lib \<Rightarrow> 'p \<Rightarrow> string res" where
  "ctLogIDFromPublicKey L pub = rbind (MarshalPKIXPublicKey L pub) (\<lambda>der. Ok (Sum256 L der))"

text \<open>The loop over the logs, in the order the map is ranged over, up to the first with the URL.\<close>

fun ct_key_id :: "('n, 'v, 'p) ct_lib \<Rightarrow> string \<Rightarrow> (string \<times> 'p CTLog) list \<Rightarrow> string res" where
  "ct_key_id L serverURL [] = Ok []"
| "ct_key_id L serverURL ((k, ctlog) # logs) =
     (if cl_BaseURL ctlog = serverURL then
        rbind (ctLogIDFromPublicKey L (cl_PublicKey ctlog)) (\<lambda>logID. Ok (hex_encode logID))
      else ct_key_id L serverURL logs)"

definition getCTLogVerifier ::
  "('n, 'v, 'p) ct_lib \<Rightarrow> ((string \<times> 'p CTLog) list \<Rightarrow> (string \<times> 'p CTLog) list) \<Rightarrow> string \<Rightarrow>
   (string \<times> 'p CTLog) list \<Rightarrow> 'v res"
where
  "getCTLogVerifier L ord serverURL ctLogs =
     rbind (ct_key_id L serverURL (ord ctLogs)) (\<lambda>keyID.
       case map_of ctLogs keyID of
         Some ctlog \<Rightarrow> NewSignatureVerifier L (cl_PublicKey ctlog)
       | None \<Rightarrow> Fail (Err ''could not find certificate transparency log in trusted root''))"

text \<open>\<open>if logClient.Verifier == nil { ... }\<close>\<close>

definition ensure_verifier ::
  "('n, 'v, 'p) ct_lib \<Rightarrow> ((string \<times> 'p CTLog) list \<Rightarrow> (string \<times> 'p CTLog) list) \<Rightarrow>
   (string \<times> 'p CTLog) list \<Rightarrow> (('n, 'v) ct_net world, unit) io"
where
  "ensure_verifier L ord ctLogs = (\<lambda>w.
     case get_verifier w of
       Some v \<Rightarrow> (Ok (), w)
     | None \<Rightarrow> io_bind (io_res (rwrap ''error loading public key: ''
           (getCTLogVerifier L ord (BaseURI L) ctLogs))) set_verifier w)"

definition verifyCertificateTransparencyConsistency ::
  "('n, 'v, 'p) ct_lib \<Rightarrow> codec \<Rightarrow> ((string \<times> 'p CTLog) list \<Rightarrow> (string \<times> 'p CTLog) list) \<Rightarrow>
   (string \<times> 'p CTLog) list \<Rightarrow> string \<Rightarrow> SignedTreeHead \<Rightarrow> (('n, 'v) ct_net world, SignedTreeHead) io"
where
  "verifyCertificateTransparencyConsistency L cd ord ctLogs logInfoFile signedTreeHead =
     io_bind (io_wrap ''error reading checkpoint: '' (io_read (ReadLatestCTSignedTreeHead cd logInfoFile)))
       (\<lambda>prevSTH.
     io_bind (ensure_verifier L ord ctLogs) (\<lambda>_.
     io_bind (io_wrap ''error verifying previous STH signature: ''
         (io_read (\<lambda>w. VerifySTHSignature L (get_verifier w) prevSTH))) (\<lambda>_.
     io_bind (io_wrap ''error verifying current STH signature: ''
         (io_read (\<lambda>w. VerifySTHSignature L (get_verifier w) signedTreeHead))) (\<lambda>_.
     let first = sth_TreeSize prevSTH; second = sth_TreeSize signedTreeHead in
     io_bind (io_wrap ''error getting consistency proof: '' (ct_call (GetSTHConsistency L first second)))
       (\<lambda>pf.
     io_bind (io_res (rwrap ''error verifying consistency: ''
         (VerifyConsistency_ct L first second pf (sth_SHA256RootHash prevSTH)
            (sth_SHA256RootHash signedTreeHead)))) (\<lambda>_. io_return prevSTH))))))"

text \<open>A nil verifier cannot be left over; reading its key would panic.\<close>

definition RunConsistencyCheck_ct ::
  "('n, 'v, 'p) ct_lib \<Rightarrow> codec \<Rightarrow> ((string \<times> 'p CTLog) list \<Rightarrow> (string \<times> 'p CTLog) list) \<Rightarrow>
   (string \<times> 'p CTLog) list \<Rightarrow> string \<Rightarrow>
   (('n, 'v) ct_net world, SignedTreeHead option \<times> SignedTreeHead) io"
where
  "RunConsistencyCheck_ct L cd ord ctLogs logInfoFile =
     io_bind (io_wrap ''error fetching latest STH: '' (\<lambda>w. ct_call (GetSTH L (get_verifier w)) w))
       (\<lambda>currentSTH.
     io_bind (ensure_verifier L ord ctLogs) (\<lambda>_.
     io_bind (io_read (\<lambda>w. Ok (has_log_info logInfoFile w))) (\<lambda>exists.
     io_bind (if exists then
         io_bind (io_wrap ''error verifying consistency between previous and current STHs: ''
             (verifyCertificateTransparencyConsistency L cd ord ctLogs logInfoFile currentSTH))
           (\<lambda>prevSTH. io_return (Some prevSTH))
       else io_return None) (\<lambda>prevSTH.
     io_bind (io_read (\<lambda>w. field_of (get_verifier w))) (\<lambda>verifier.
       case PubKey L verifier of
         None \<Rightarrow> io_return (prevSTH, currentSTH)
       | Some pubKey \<Rightarrow>
           io_bind (io_res (rwrap ''error computing log ID: '' (ctLogIDFromPublicKey L pubKey))) (\<lambda>logID.
             io_return (prevSTH, currentSTH\<lparr>sth_LogID := logID\<rparr>)))))))"

section \<open>Scanning one entry\<close>

definition GetCTLogEntries ::
  "('n, 'v, 'p) ct_lib \<Rightarrow> int64 \<Rightarrow> int64 \<Rightarrow> (('n, 'v) ct_net world, ct_LogEntry list) io"
where
  "GetCTLogEntries L startIndex endIndex =
     io_wrap ''error retrieving certificate transparency log entries: ''
       (ct_call (GetEntries L startIndex endIndex))"

text \<open>The certificate of an entry that the matchers look at.\<close>

definition scanned_cert :: "ct_LogEntry \<Rightarrow> x509_cert option" where
  "scanned_cert logEntry =
     (case ce_X509Cert logEntry of
        Some cert \<Rightarrow> Some cert
      | None \<Rightarrow> (case ce_Precert logEntry of None \<Rightarrow> None | Some p \<Rightarrow> pc_TBSCertificate p))"

definition unsupported_entry :: "ct_LogEntry \<Rightarrow> go_error" where
  "unsupported_entry logEntry = Err (''unsupported CT log entry at index '' @ itoa (ce_Index logEntry))"

definition ScanEntryCertSubject ::
  "certlib \<Rightarrow> ct_LogEntry \<Rightarrow> CertificateIdentity list \<Rightarrow> LogEntry list res"
where
  "ScanEntryCertSubject lib logEntry monitoredCertIDs =
     (case scanned_cert logEntry of
        None \<Rightarrow> Fail (unsupported_entry logEntry)
      | Some cert \<Rightarrow>
          rconcat (\<lambda>monitoredCertID.
            rbind (rwrap (''error with policy matching  at index '' @ itoa (ce_Index logEntry) @ '': '')
                (CertMatchesPolicy lib (GoogleX509 cert) (ci_CertSubject monitoredCertID)
                   (ci_Issuers monitoredCertID))) (\<lambda>(match, sub, iss).
              Ok (if match then [cert_entry (ci_CertSubject monitoredCertID) sub iss (ce_Index logEntry) []]
                  else []))) monitoredCertIDs)"

definition ScanEntryOIDExtensions ::
  "certlib \<Rightarrow> ct_LogEntry \<Rightarrow> OIDExtension list \<Rightarrow> LogEntry list res"
where
  "ScanEntryOIDExtensions lib logEntry monitoredOIDMatchers =
     (case scanned_cert logEntry of
        None \<Rightarrow> Fail (unsupported_entry logEntry)
      | Some cert \<Rightarrow>
          rconcat (\<lambda>monitoredOID.
            rbind (rwrap (''error with policy matching at index '' @ itoa (ce_Index logEntry) @ '': '')
                (OIDMatchesPolicy lib (GoogleX509 cert) (oe_ObjectIdentifier monitoredOID)
                   (oe_ExtensionValues monitoredOID))) (\<lambda>(match, oid, extValue).
              Ok (if match
                  then [extension_entry (oe_ObjectIdentifier monitoredOID) extValue (ce_Index logEntry) []]
                  else []))) monitoredOIDMatchers)"

text \<open>The chain of an entry: a certificate that cannot be parsed is not checked. \<open>now\<close> is the time
  at which a pre-certificate is checked.\<close>

definition validate_entry_chain ::
  "certlib \<Rightarrow> ('n, 'v, 'p) ct_lib \<Rightarrow> 'a os_scheme \<Rightarrow> (ct_LogEntry \<Rightarrow> int64) \<Rightarrow> string \<Rightarrow> string \<Rightarrow>
   ct_LogEntry \<Rightarrow> unit res"
where
  "validate_entry_chain lib L w now caRoots caIntermediates entry =
     (case ce_X509Cert entry of
        Some c \<Rightarrow>
          rcatch (x509_ParseCertificate L (cert_Raw c)) (\<lambda>err. Ok ())
            (\<lambda>cert. ValidateCertificateChain lib w [cert] caRoots caIntermediates)
      | None \<Rightarrow>
          (case ce_Precert entry of
             Some p \<Rightarrow>
               rcatch (google_ParseCertificate L (pc_Submitted p)) (\<lambda>err. Ok ())
                 (\<lambda>cert. ValidatePreCertificateChain lib w (now entry) [cert] caRoots caIntermediates)
           | None \<Rightarrow> Ok ()))"

definition failed_entry_ct :: "ct_LogEntry \<Rightarrow> string \<Rightarrow> go_error \<Rightarrow> FailedLogEntry res" where
  "failed_entry_ct entry msg err =
     Ok \<lparr>fl_Index = ce_Index entry, fl_UUID = [], fl_Error = msg @ error_msg err\<rparr>"

definition scan_entry_ct ::
  "certlib \<Rightarrow> ('n, 'v, 'p) ct_lib \<Rightarrow> 'a os_scheme \<Rightarrow> (ct_LogEntry \<Rightarrow> int64) \<Rightarrow> MonitoredValues \<Rightarrow>
   string \<Rightarrow> string \<Rightarrow> ct_LogEntry \<Rightarrow> scan res"
where
  "scan_entry_ct lib L w now mvs caRoots caIntermediates entry =
     rcatch (validate_entry_chain lib L w now caRoots caIntermediates entry)
       (\<lambda>err. Ok ([], []))
       (\<lambda>_. match_steps (failed_entry_ct entry)
          [(''error matching certificate subjects: '',
              ScanEntryCertSubject lib entry (mv_CertificateIdentities mvs)),
           (''error matching OID extensions: '',
              ScanEntryOIDExtensions lib entry (mv_OIDMatchers mvs))])"

definition MatchedIndices_ct ::
  "certlib \<Rightarrow> ('n, 'v, 'p) ct_lib \<Rightarrow> 'a os_scheme \<Rightarrow> (ct_LogEntry \<Rightarrow> int64) \<Rightarrow> ct_LogEntry list \<Rightarrow>
   MonitoredValues \<Rightarrow> string \<Rightarrow> string \<Rightarrow> scan res"
where
  "MatchedIndices_ct lib L w now logEntries mvs caRoots caIntermediates =
     scan_all (scan_entry_ct lib L w now mvs caRoots caIntermediates) logEntries"

definition IdentitySearch_ct ::
  "codec \<Rightarrow> certlib \<Rightarrow> ('n, 'v, 'p) ct_lib \<Rightarrow> (ct_LogEntry \<Rightarrow> int64) \<Rightarrow>
   ((string \<times> LogEntry list) list \<Rightarrow> (string \<times> LogEntry list) list) \<Rightarrow>
   'o IdentityMonitorConfiguration \<Rightarrow> MonitoredValues \<Rightarrow>
   (('n, 'v) ct_net world, MonitoredIdentity list \<times> FailedLogEntry list) io"
where
  "IdentitySearch_ct cd lib L now ordM config monitoredValues =
     io_bind (io_res (field_of (StartIndex config))) (\<lambda>start.
     io_bind (io_res (field_of (EndIndex config))) (\<lambda>end.
     io_bind (GetCTLogEntries L start end) (\<lambda>entries.
     io_bind (io_read (\<lambda>w. MatchedIndices_ct lib L w now entries monitoredValues (CARootsFile config)
         (CAIntermediatesFile config))) (\<lambda>(matchedEntries, failedEntries).
     io_bind (WriteMatchedIdentityEntries cd (OutputIdentitiesFile config)
         (OutputIdentitiesFormat config) matchedEntries (IdentityMetadataFile config) end) (\<lambda>_.
       let identities = CreateIdentitiesList monitoredValues;
           monitoredIdentities = CreateMonitoredIdentities ordM matchedEntries identities
       in io_return (monitoredIdentities, failedEntries))))))"

section \<open>The scan of an entry\<close>

lemma cert_subjects_found_ct:
  assumes "ScanEntryCertSubject lib e monitored = Ok ms"
  shows "m \<in> set ms \<longleftrightarrow> (\<exists>cert ci sub iss. scanned_cert e = Some cert \<and> ci \<in> set monitored \<and>
    CertMatchesPolicy lib (GoogleX509 cert) (ci_CertSubject ci) (ci_Issuers ci) = Ok (True, sub, iss) \<and>
    m = cert_entry (ci_CertSubject ci) sub iss (ce_Index e) [])"
proof (cases "scanned_cert e")
  case (Some cert)
  have one: "(\<exists>us. rbind (rwrap p (CertMatchesPolicy lib c sj is)) (\<lambda>(match, sub, iss).
        Ok (if match then [cert_entry sj sub iss i []] else [])) = Ok us \<and> m \<in> set us) \<longleftrightarrow>
      (\<exists>sub iss. CertMatchesPolicy lib c sj is = Ok (True, sub, iss) \<and> m = cert_entry sj sub iss i [])"
    for p c sj "is" i
    by (cases "CertMatchesPolicy lib c sj is") (auto split: if_splits)
  have "rconcat (\<lambda>monitoredCertID.
      rbind (rwrap (''error with policy matching  at index '' @ itoa (ce_Index e) @ '': '')
          (CertMatchesPolicy lib (GoogleX509 cert) (ci_CertSubject monitoredCertID) (ci_Issuers monitoredCertID)))
        (\<lambda>(match, sub, iss).
          Ok (if match then [cert_entry (ci_CertSubject monitoredCertID) sub iss (ce_Index e) []] else [])))
      monitored = Ok ms"
    using assms Some by (simp add: ScanEntryCertSubject_def)
  from rconcat_Ok_set [OF this, of m] show ?thesis unfolding one using Some by auto
qed (use assms in \<open>simp add: ScanEntryCertSubject_def\<close>)

lemma extensions_found_ct:
  assumes "ScanEntryOIDExtensions lib e monitored = Ok ms"
  shows "m \<in> set ms \<longleftrightarrow> (\<exists>cert om oid v. scanned_cert e = Some cert \<and> om \<in> set monitored \<and>
    OIDMatchesPolicy lib (GoogleX509 cert) (oe_ObjectIdentifier om) (oe_ExtensionValues om) = Ok (True, oid, v) \<and>
    m = extension_entry (oe_ObjectIdentifier om) v (ce_Index e) [])"
proof (cases "scanned_cert e")
  case (Some cert)
  have one: "(\<exists>us. rbind (rwrap p (OIDMatchesPolicy lib c k vs)) (\<lambda>(match, oid, v).
        Ok (if match then [extension_entry k v i []] else [])) = Ok us \<and> m \<in> set us) \<longleftrightarrow>
      (\<exists>oid v. OIDMatchesPolicy lib c k vs = Ok (True, oid, v) \<and> m = extension_entry k v i [])"
    for p c k vs i
    by (cases "OIDMatchesPolicy lib c k vs") (auto split: if_splits)
  have "rconcat (\<lambda>monitoredOID.
      rbind (rwrap (''error with policy matching at index '' @ itoa (ce_Index e) @ '': '')
          (OIDMatchesPolicy lib (GoogleX509 cert) (oe_ObjectIdentifier monitoredOID) (oe_ExtensionValues monitoredOID)))
        (\<lambda>(match, oid, v).
          Ok (if match then [extension_entry (oe_ObjectIdentifier monitoredOID) v (ce_Index e) []] else [])))
      monitored = Ok ms"
    using assms Some by (simp add: ScanEntryOIDExtensions_def)
  from rconcat_Ok_set [OF this, of m] show ?thesis unfolding one using Some by auto
qed (use assms in \<open>simp add: ScanEntryOIDExtensions_def\<close>)

abbreviation entry_steps_ct :: "certlib \<Rightarrow> MonitoredValues \<Rightarrow> ct_LogEntry \<Rightarrow> (string \<times> LogEntry list res) list"
where
  "entry_steps_ct lib mvs entry \<equiv>
     [(''error matching certificate subjects: '', ScanEntryCertSubject lib entry (mv_CertificateIdentities mvs)),
      (''error matching OID extensions: '', ScanEntryOIDExtensions lib entry (mv_OIDMatchers mvs))]"

lemma scan_entry_ct_Ok:
  assumes "scan_entry_ct lib L w now mvs caR caI e = Ok (ms, fs)"
  shows "ms = [] \<and> fs = [] \<and> validate_entry_chain lib L w now caR caI e \<noteq> Ok () \<or>
    validate_entry_chain lib L w now caR caI e = Ok () \<and>
    match_steps (failed_entry_ct e) (entry_steps_ct lib mvs e) = Ok (ms, fs)"
  using assms unfolding scan_entry_ct_def rcatch_Ok_iff by auto

lemma OIDMatchesPolicy_oid:
  "OIDMatchesPolicy lib c k vs = Ok (True, oid, v) \<Longrightarrow> oid = k"
  by (auto simp: OIDMatchesPolicy_def res_simps split: if_splits)

text \<open>An entry whose chain is accepted yields what it should: a log of certificates has no
  fingerprints and no other subjects.\<close>

definition certs_of_ct :: "ct_LogEntry \<Rightarrow> certificate list" where
  "certs_of_ct e = (case scanned_cert e of None \<Rightarrow> [] | Some cert \<Rightarrow> [GoogleX509 cert])"

lemma scan_entry_ct_meets:
  assumes "scan_entry_ct lib L w now mvs caR caI e = Ok (ms, fs)"
    and "validate_entry_chain lib L w now caR caI e = Ok ()"
  shows "scan_meets {} (policy_matches lib mvs [] (certs_of_ct e) (ce_Index e) []) (ce_Index e) [] (ms, fs)"
proof -
  let ?i = "ce_Index e"
  have steps: "match_steps (failed_entry_ct e) (entry_steps_ct lib mvs e) = Ok (ms, fs)"
    using scan_entry_ct_Ok [OF assms(1)] assms(2) by simp
  have certs: "set xs = cert_matches lib mvs (certs_of_ct e) ?i []"
    if "ScanEntryCertSubject lib e (mv_CertificateIdentities mvs) = Ok xs" for xs
    unfolding set_eq_iff cert_subjects_found_ct [OF that] cert_matches_def mem_Collect_eq
    by (cases "scanned_cert e"; simp add: certs_of_ct_def; metis)
  have extensions: "set xs = extension_matches lib mvs (certs_of_ct e) ?i []"
    if "ScanEntryOIDExtensions lib e (mv_OIDMatchers mvs) = Ok xs" for xs
  proof -
    have oid: "OIDMatchesPolicy lib c k vs = Ok (True, oid, v) \<longleftrightarrow>
        oid = k \<and> OIDMatchesPolicy lib c k vs = Ok (True, k, v)" for c k vs oid v
      using OIDMatchesPolicy_oid by blast
    show ?thesis
      unfolding set_eq_iff extensions_found_ct [OF that] extension_matches_def mem_Collect_eq
      by (subst (1 2) oid) (cases "scanned_cert e"; simp add: certs_of_ct_def; metis)
  qed
  have subjects: "subject_matches lib mvs [] ?i [] = {}" by (simp add: subject_matches_def)
  have "scan_meets (set []) (policy_matches lib mvs [] (certs_of_ct e) ?i []) ?i [] ([] @ ms, fs)"
    using steps
  proof (rule match_steps_meets)
    fix msg ys
    assume "(msg, Ok ys) \<in> set (entry_steps_ct lib mvs e)"
    then show "set ys \<subseteq> policy_matches lib mvs [] (certs_of_ct e) ?i []"
      using certs [of ys] extensions [of ys] by (auto simp: policy_matches_def)
  next
    assume "\<forall>(msg, r) \<in> set (entry_steps_ct lib mvs e). \<exists>ys. r = Ok ys \<and> set ys \<subseteq> set ms"
    then show "policy_matches lib mvs [] (certs_of_ct e) ?i [] \<subseteq> set ms"
      using certs extensions subjects by (auto simp: policy_matches_def)
  qed (auto simp: failed_entry_ct_def)
  then show ?thesis by simp
qed

definition entry_origin_ct :: "ct_LogEntry \<Rightarrow> int64 option \<times> string" where
  "entry_origin_ct e = (Some (ce_Index e), [])"

lemma scan_entry_ct_found:
  assumes "scan_entry_ct lib L w now mvs caR caI e = Ok (ms, fs)" and "m \<in> set ms"
  shows "le_MatchedIdentity m \<in> set (CreateIdentitiesList mvs) \<and>
    entry_origin_ct e = (Some (le_Index m), le_UUID m)"
proof -
  from assms have "match_steps (failed_entry_ct e) (entry_steps_ct lib mvs e) = Ok (ms, fs)"
    using scan_entry_ct_Ok [OF assms(1)] by auto
  from match_steps_found [OF this assms(2)] obtain msg xs
    where "(msg, Ok xs) \<in> set (entry_steps_ct lib mvs e)" "m \<in> set xs" by blast
  then consider "ScanEntryCertSubject lib e (mv_CertificateIdentities mvs) = Ok xs" "m \<in> set xs"
    | "ScanEntryOIDExtensions lib e (mv_OIDMatchers mvs) = Ok xs" "m \<in> set xs"
    by auto
  then show ?thesis
    by cases (auto simp: entry_origin_ct_def cert_subjects_found_ct extensions_found_ct OIDMatchesPolicy_True
        intro: monitored_intros)
qed

lemma scan_entry_ct_failed:
  assumes "scan_entry_ct lib L w now mvs caR caI e = Ok (ms, fs)"
  shows "length fs \<le> 1 \<and> (\<forall>f \<in> set fs. entry_origin_ct e = (Some (fl_Index f), fl_UUID f))"
  using scan_entry_ct_Ok [OF assms]
proof
  assume "validate_entry_chain lib L w now caR caI e = Ok () \<and>
    match_steps (failed_entry_ct e) (entry_steps_ct lib mvs e) = Ok (ms, fs)"
  then show ?thesis
    by (auto simp: failed_entry_ct_def entry_origin_ct_def simp del: match_steps.simps dest!: match_steps_failures)
qed simp

interpretation ct_scan: entry_scan "scan_entry_ct lib L w now mvs caR caI" entry_origin_ct
  "CreateIdentitiesList mvs" for lib L w now mvs caR caI
  by unfold_locales (auto dest: scan_entry_ct_found scan_entry_ct_failed)

section \<open>The consistency check\<close>

lemma ct_call_Ok: "ct_call f w = (Ok x, w') \<Longrightarrow>
  same_files w w' \<and> get_verifier w' = get_verifier w \<and> (\<exists>n n'. f n = (Ok x, n'))"
  unfolding ct_call_def
  by (rule conjI, erule net_call_same_files) (auto simp: net_call_def get_verifier_def split: prod.splits)

lemma ensure_verifier_Ok:
  assumes "ensure_verifier L ord logs w = (Ok (), w')"
  shows "same_files w w' \<and> (\<exists>v. get_verifier w' = Some v \<and>
    (get_verifier w = Some v \<or> get_verifier w = None \<and> getCTLogVerifier L ord (BaseURI L) logs = Ok v))"
  using assms
  by (auto simp: ensure_verifier_def res_simps set_verifier_def net_call_Ok get_verifier_def
      split: option.splits) (auto simp: net_call_def dest: net_call_same_files)

lemma verify_ct_Ok:
  assumes "verifyCertificateTransparencyConsistency L cd ord logs f sth w = (Ok p, w')"
    and "get_verifier w = Some v"
  shows "same_files w w' \<and> get_verifier w' = Some v \<and> ReadLatestCTSignedTreeHead cd f w = Ok p \<and>
    VerifySTHSignature L (Some v) p = Ok () \<and> VerifySTHSignature L (Some v) sth = Ok () \<and>
    (\<exists>pf. VerifyConsistency_ct L (sth_TreeSize p) (sth_TreeSize sth) pf
       (sth_SHA256RootHash p) (sth_SHA256RootHash sth) = Ok ())"
  using assms
  by (auto simp: verifyCertificateTransparencyConsistency_def res_simps ensure_verifier_def Let_def
      dest!: ct_call_Ok)

lemma sth_unchanged: "\<exists>logid. sth = sth\<lparr>sth_LogID := logid\<rparr>"
  by (rule exI [of _ "sth_LogID sth"]) simp

lemma RunConsistencyCheck_ct_Ok:
  assumes "RunConsistencyCheck_ct L cd ord logs f w = (Ok (prev, cur), w')"
  shows "same_files w w' \<and>
    (\<exists>v sth n n'. get_verifier w' = Some v \<and>
       (get_verifier w = Some v \<or> get_verifier w = None \<and> getCTLogVerifier L ord (BaseURI L) logs = Ok v) \<and>
       GetSTH L (get_verifier w) n = (Ok sth, n') \<and> (\<exists>logid. cur = sth\<lparr>sth_LogID := logid\<rparr>) \<and>
       (case prev of
          None \<Rightarrow> \<not> has_log_info f w
        | Some p \<Rightarrow> has_log_info f w \<and> ReadLatestCTSignedTreeHead cd f w = Ok p \<and>
            VerifySTHSignature L (Some v) p = Ok () \<and> VerifySTHSignature L (Some v) sth = Ok () \<and>
            (\<exists>pf. VerifyConsistency_ct L (sth_TreeSize p) (sth_TreeSize sth) pf
               (sth_SHA256RootHash p) (sth_SHA256RootHash sth) = Ok ())))"
proof -
  from assms obtain sth w1 w2
    where sth: "ct_call (GetSTH L (get_verifier w)) w = (Ok sth, w1)"
    and ens: "ensure_verifier L ord logs w1 = (Ok (), w2)"
    and prev: "(if has_log_info f w2 then
         io_bind (io_wrap ''error verifying consistency between previous and current STHs: ''
             (verifyCertificateTransparencyConsistency L cd ord logs f sth))
           (\<lambda>prevSTH. io_return (Some prevSTH))
       else io_return None) w2 = (Ok prev, w')"
    and cur: "\<exists>logid. cur = sth\<lparr>sth_LogID := logid\<rparr>"
    unfolding RunConsistencyCheck_ct_def
    by (auto simp: res_simps field_of_def split: option.splits) (metis sth_unchanged)+
  from ct_call_Ok [OF sth] ensure_verifier_Ok [OF ens] obtain v where
    v: "get_verifier w2 = Some v"
      "get_verifier w = Some v \<or> get_verifier w = None \<and> getCTLogVerifier L ord (BaseURI L) logs = Ok v"
    and files: "same_files w w2" and "\<exists>n n'. GetSTH L (get_verifier w) n = (Ok sth, n')"
    by (auto intro: same_files_trans)
  moreover have "same_files w w' \<and> get_verifier w' = Some v \<and> (case prev of
       None \<Rightarrow> \<not> has_log_info f w
     | Some p \<Rightarrow> has_log_info f w \<and> ReadLatestCTSignedTreeHead cd f w = Ok p \<and>
         VerifySTHSignature L (Some v) p = Ok () \<and> VerifySTHSignature L (Some v) sth = Ok () \<and>
         (\<exists>pf. VerifyConsistency_ct L (sth_TreeSize p) (sth_TreeSize sth) pf
            (sth_SHA256RootHash p) (sth_SHA256RootHash sth) = Ok ()))"
  proof (cases "has_log_info f w2")
    case True
    with prev obtain p where p: "prev = Some p"
      "verifyCertificateTransparencyConsistency L cd ord logs f sth w2 = (Ok p, w')"
      by (auto simp: res_simps)
    from verify_ct_Ok [OF p(2) v(1)] True files p(1) show ?thesis
      by (auto simp: has_log_info_same_files ReadLatestCTSignedTreeHead_def same_files_reads
          intro: same_files_trans)
  next
    case False
    with prev files v(1) show ?thesis by (auto simp: res_simps has_log_info_same_files)
  qed
  ultimately show ?thesis using cur by blast
qed

section \<open>Properties\<close>


definition demo_sth :: "int \<Rightarrow> SignedTreeHead" where
  "demo_sth k = \<lparr>sth_Version = 0, sth_TreeSize = k, sth_Timestamp = 0, sth_SHA256RootHash = ''h'',
     sth_TreeHeadSignature = ''s'', sth_LogID = []\<rparr>"

definition demo_cert :: "string \<Rightarrow> x509_cert" where
  "demo_cert v = \<lparr>DNSNames = [], EmailAddresses = [], IPAddresses = [], URIs = [],
     Extensions = [\<lparr>ext_Id = [1, 2], ext_Critical = False, ext_Value = v\<rparr>], NotBefore = 0, cert_Raw = []\<rparr>"

definition demo_ct_entry :: "int64 \<Rightarrow> ct_LogEntry" where
  "demo_ct_entry i = \<lparr>ce_Index = i, ce_X509Cert = Some (demo_cert ''a''), ce_Precert = None\<rparr>"

text \<open>A log that gives out at most two entries in one answer and whose signatures are never good.\<close>

definition demo_ct_lib :: "(unit, string, string) ct_lib" where
  "demo_ct_lib =
     \<lparr>BaseURI = ''u'', GetSTH = (\<lambda>_ n. (Ok (demo_sth 9), n)),
      VerifySTHSignature = (\<lambda>_ s. Fail (Err ''bad signature'')),
      GetSTHConsistency = (\<lambda>_ _ n. (Ok [], n)),
      GetEntries = (\<lambda>s e n. (Ok (map demo_ct_entry [s..min e (s + 1)]), n)),
      NewSignatureVerifier = (\<lambda>k. Ok k), PubKey = (\<lambda>v. Some v), MarshalPKIXPublicKey = Ok, Sum256 = (\<lambda>s. s),
      VerifyConsistency_ct = (\<lambda>a b _ _ _. if a \<le> b then Ok () else Fail (Err ''shrunk'')),
      x509_ParseCertificate = (\<lambda>s. Fail (Err s)), google_ParseCertificate = (\<lambda>s. Fail (Err s))\<rparr>"

definition demo_ct_world :: "'v option \<Rightarrow> (unit, 'v) ct_net world" where
  "demo_ct_world v = \<lparr>os_files = Map.empty, os_open_err = (\<lambda>_. None), os_write_cap = (\<lambda>_. None),
     net = \<lparr>ct_Verifier = v, ct_rest = ()\<rparr>\<rparr>"

lemma demo_ct_calls:
  "ct_call (GetSTH demo_ct_lib v) (demo_ct_world u) = (Ok (demo_sth 9), demo_ct_world u)"
  "ct_call (GetEntries demo_ct_lib i j) (demo_ct_world u) =
     (Ok (map demo_ct_entry [i..min j (i + 1)]), demo_ct_world u)"
  "get_verifier (demo_ct_world u) = u"
  "\<not> has_log_info f (demo_ct_world u)"
  by (simp_all add: ct_call_def net_call_def demo_ct_lib_def demo_ct_world_def get_verifier_def
      has_log_info_def os_Stat_def)


text \<open>On the first run, with no log info file and a client that has no verifier yet, the check
  succeeds with the tree head the log has sent, whatever the signature on it: the result does not
  depend on what the verification of signatures says.\<close>

theorem first_run_unverified_ct:
  assumes "get_verifier w = None" and "\<not> has_log_info f w"
    and "GetSTH L None (ct_rest (net w)) = (Ok sth, n)"
    and "getCTLogVerifier L ord (BaseURI L) logs = Ok v" and "PubKey L v = Some pub"
    and "ctLogIDFromPublicKey L pub = Ok logid"
  shows "RunConsistencyCheck_ct (L\<lparr>VerifySTHSignature := check\<rparr>) cd ord logs f w =
    (Ok (None, sth\<lparr>sth_LogID := logid\<rparr>), w\<lparr>net := \<lparr>ct_Verifier = Some v, ct_rest = n\<rparr>\<rparr>)"
proof -
  have key: "ct_key_id (L\<lparr>VerifySTHSignature := check\<rparr>) u ls = ct_key_id L u ls" for u ls
    by (induction ls) (auto simp: ctLogIDFromPublicKey_def)
  have logid: "ctLogIDFromPublicKey (L\<lparr>VerifySTHSignature := check\<rparr>) pub = Ok logid"
    using assms(6) by (simp add: ctLogIDFromPublicKey_def)
  have verifier: "getCTLogVerifier (L\<lparr>VerifySTHSignature := check\<rparr>) ord (BaseURI L) logs = Ok v"
    using assms(4) by (simp add: getCTLogVerifier_def key cong: option.case_cong)
  have exists: "\<not> has_log_info f (w\<lparr>net := x\<rparr>)" for x
    using assms(2) by (simp add: has_log_info_def os_Stat_def)
  have none: "ct_Verifier (net w) = None" using assms(1) by (simp add: get_verifier_def)
  show ?thesis
    using assms(3,5) logid verifier exists none
    by (simp add: RunConsistencyCheck_ct_def io_bind_def io_wrap_apply ct_call_def net_call_def get_verifier_def
        ensure_verifier_def io_res_def set_verifier_def io_read_def field_of_def io_return_def)
qed

theorem first_run_unverified_ct_witness:
  "fst (RunConsistencyCheck_ct (demo_ct_lib\<lparr>VerifySTHSignature := (\<lambda>_ _. Fail (Err ''forged''))\<rparr>) demo_codec rev
     [(hex_encode ''k'', \<lparr>cl_BaseURL = ''u'', cl_PublicKey = ''k''\<rparr>)] ''log'' (demo_ct_world None)) =
     Ok (None, demo_sth 9\<lparr>sth_LogID := ''k''\<rparr>)"
proof -
  let ?logs = "[(hex_encode ''k'', \<lparr>cl_BaseURL = ''u'', cl_PublicKey = ''k''\<rparr>)]"
  have "getCTLogVerifier demo_ct_lib rev (BaseURI demo_ct_lib) ?logs = Ok ''k''"
    by (simp add: getCTLogVerifier_def demo_ct_lib_def ctLogIDFromPublicKey_def)
  moreover have "GetSTH demo_ct_lib None () = (Ok (demo_sth 9), ())" "PubKey demo_ct_lib ''k'' = Some ''k''"
    "ctLogIDFromPublicKey demo_ct_lib ''k'' = Ok ''k''"
    by (simp_all add: demo_ct_lib_def ctLogIDFromPublicKey_def)
  ultimately show ?thesis
    by (subst first_run_unverified_ct [OF demo_ct_calls(3,4)]) simp_all
qed

text \<open>C25. What a finished search of a certificate transparency log has done: the entries from \<open>start\<close>
  on were fetched and matched, both ends included, but no more of them than the log puts into one
  answer; every match was written, the end index was recorded all the same, and the report holds
  every match exactly once.\<close>

theorem search_reports_ct:
  assumes "IdentitySearch_ct cd lib L now ordM config mvs w = (Ok (identities, failed), w')"
    and "\<And>s e n. GetEntries L s e n = (Ok (map entry_at [s..min e (s + page - 1)]), n)"
    and "range_order ordM"
  shows "\<exists>start end found.
    StartIndex config = Some start \<and> EndIndex config = Some end \<and>
    MatchedIndices_ct lib L w now (map entry_at [start..min end (start + page - 1)]) mvs
      (CARootsFile config) (CAIntermediatesFile config) = Ok (found, failed) \<and>
    WriteMatchedIdentityEntries cd (OutputIdentitiesFile config) (OutputIdentitiesFormat config) found
      (IdentityMetadataFile config) end w = (Ok (), w') \<and>
    mset (concat (map mi_FoundIdentityEntries identities)) = mset found"
proof -
  have fetch: "GetCTLogEntries L s e w = (Ok (map entry_at [s..min e (s + page - 1)]), w)" for s e
    by (simp add: GetCTLogEntries_def io_wrap_apply ct_call_def net_call_def assms(2))
  from assms(1) obtain start e found where run:
    "StartIndex config = Some start" "EndIndex config = Some e"
    "MatchedIndices_ct lib L w now (map entry_at [start..min e (start + page - 1)]) mvs
      (CARootsFile config) (CAIntermediatesFile config) = Ok (found, failed)"
    "WriteMatchedIdentityEntries cd (OutputIdentitiesFile config) (OutputIdentitiesFormat config) found
      (IdentityMetadataFile config) e w = (Ok (), w')"
    and ids: "identities = CreateMonitoredIdentities ordM found (CreateIdentitiesList mvs)"
    unfolding IdentitySearch_ct_def by (auto simp: res_simps field_of_def fetch split: option.splits)
  from ct_scan.search_reported [OF run(3) [unfolded MatchedIndices_ct_def] assms(3)]
  have "mset (concat (map mi_FoundIdentityEntries identities)) = mset found"
    by (simp add: ids)
  with run show ?thesis by blast
qed

theorem search_reports_ct_witness:
  "\<exists>identities. mset (concat (map mi_FoundIdentityEntries identities)) =
     {#extension_entry [1, 2] ''a'' 3 [], extension_entry [1, 2] ''a'' 4 []#} \<and>
   fst (IdentitySearch_ct demo_codec demo_certlib demo_ct_lib (\<lambda>_. 0) rev
     (demo_config\<lparr>StartIndex := Some 3, EndIndex := Some 9\<rparr>)
     (demo_mvs\<lparr>mv_OIDMatchers := [\<lparr>oe_ObjectIdentifier = [1, 2], oe_ExtensionValues = [''a'']\<rparr>]\<rparr>)
     (demo_ct_world None)) = Ok (identities, [])"
proof -
  let ?config = "demo_config\<lparr>StartIndex := Some 3, EndIndex := Some 9\<rparr>"
  let ?mvs = "demo_mvs\<lparr>mv_OIDMatchers := [\<lparr>oe_ObjectIdentifier = [1, 2], oe_ExtensionValues = [''a'']\<rparr>]\<rparr>"
  let ?ms = "[extension_entry [1, 2] ''a'' 3 [], extension_entry [1, 2] ''a'' 4 []]"
  let ?w = "demo_ct_world None :: (unit, string) ct_net world"
  let ?w' = "append_file ''ids'' (concat (map (identity_line demo_codec ''text'') ?ms)) ?w"
  have "scan_entry_ct demo_certlib demo_ct_lib ?w (\<lambda>_. 0) ?mvs [] [] (demo_ct_entry i) =
      Ok ([extension_entry [1, 2] ''a'' i []], [])" for i
    by (simp add: scan_entry_ct_def validate_entry_chain_def demo_ct_entry_def demo_ct_lib_def
        ScanEntryCertSubject_def ScanEntryOIDExtensions_def scanned_cert_def demo_mvs_def rconcat_def
        OIDMatchesPolicy_def getExtension_def demo_cert_def demo_certlib_def)
  then have matched: "MatchedIndices_ct demo_certlib demo_ct_lib ?w (\<lambda>_. 0) (map demo_ct_entry [3..4]) ?mvs [] [] =
      Ok (?ms, [])"
    by (simp add: MatchedIndices_ct_def scan_all_def)
  have wrote: "WriteMatchedIdentityEntries demo_codec ''ids'' ''text'' ?ms None 9 ?w = (Ok (), ?w')"
    using WriteIdentity_all [of ?w "''ids''" "''text''" demo_codec ?ms]
    by (simp add: WriteMatchedIdentityEntries_def io_bind_def io_return_def writable_def demo_ct_world_def)
  have run: "IdentitySearch_ct demo_codec demo_certlib demo_ct_lib (\<lambda>_. 0) rev ?config ?mvs ?w =
      (Ok (CreateMonitoredIdentities rev ?ms (CreateIdentitiesList ?mvs), []), ?w')"
    using matched wrote
    by (simp add: IdentitySearch_ct_def field_of_def io_bind_def io_res_def io_read_def GetCTLogEntries_def
        io_wrap_apply demo_ct_calls demo_config_def io_return_def)
  have page: "GetEntries demo_ct_lib s e n = (Ok (map demo_ct_entry [s..min e (s + 2 - 1)]), n)" for s e n
    by (simp add: demo_ct_lib_def add.commute [of 1])
  from search_reports_ct [OF run page range_order_rev] matched run show ?thesis
    by (auto simp: demo_config_def)
qed

end
