(* ===== verification/Metrics.thy ===== *)
theory Metrics
  imports Prelude
begin

text \<open>
  \<open>pkg/server/metrics.go\<close>: the two counters the monitor exports, the registry that names them and the
  channel of termination signals. The package keeps them in a singleton that is made on first use;
  the loop has the made one in its state.
\<close>

datatype os_signal = Interrupt | SIGTERM

text \<open>The registry by the name and the help text of each counter; the channel by the signals in its
  buffer.\<close>

record metrics =
  reg :: "(string \<times> string) list"
  logIndexVerificationTotal :: nat
  logIndexVerificationFailure :: nat
  signalChan :: "os_signal list"

definition initMetrics :: metrics where
  "initMetrics =
     \<lparr>reg = [(''log_index_verification_total'', ''Total number of log consistency check attempts.''),
        (''log_index_verification_failure'', ''Total number of failed log consistency check attempts.'')],
      logIndexVerificationTotal = 0, logIndexVerificationFailure = 0, signalChan = []\<rparr>"

text \<open>\<open>sync.OnceValue\<close>: the first call makes the value, later ones return it. The singleton is \<open>None\<close>
  until then.\<close>

definition getMetrics :: "metrics option \<Rightarrow> metrics \<times> metrics option" where
  "getMetrics singleton =
     (case singleton of None \<Rightarrow> (initMetrics, Some initMetrics) | Some m \<Rightarrow> (m, Some m))"

definition IncLogIndexVerificationTotal :: "metrics \<Rightarrow> metrics" where
  "IncLogIndexVerificationTotal m = m\<lparr>logIndexVerificationTotal := Suc (logIndexVerificationTotal m)\<rparr>"

definition IncLogIndexVerificationFailure :: "metrics \<Rightarrow> metrics" where
  "IncLogIndexVerificationFailure m = m\<lparr>logIndexVerificationFailure := Suc (logIndexVerificationFailure m)\<rparr>"

definition GetSignalChan :: "metrics \<Rightarrow> os_signal list" where
  "GetSignalChan m = signalChan m"

definition GetLogIndexVerificationTotal :: "metrics \<Rightarrow> nat" where
  "GetLogIndexVerificationTotal m = logIndexVerificationTotal m"

definition GetLogIndexVerificationFailure :: "metrics \<Rightarrow> nat" where
  "GetLogIndexVerificationFailure m = logIndexVerificationFailure m"

text \<open>What \<open>os/signal\<close> does with a signal: it never blocks on the channel, whose buffer holds one.\<close>

definition deliver :: "os_signal \<Rightarrow> metrics \<Rightarrow> metrics" where
  "deliver sig m = (if length (signalChan m) < 1 then m\<lparr>signalChan := signalChan m @ [sig]\<rparr> else m)"

lemma metrics_counts [simp]:
  "logIndexVerificationTotal (IncLogIndexVerificationTotal m) = Suc (logIndexVerificationTotal m)"
  "logIndexVerificationFailure (IncLogIndexVerificationTotal m) = logIndexVerificationFailure m"
  "logIndexVerificationTotal (IncLogIndexVerificationFailure m) = logIndexVerificationTotal m"
  "logIndexVerificationFailure (IncLogIndexVerificationFailure m) = Suc (logIndexVerificationFailure m)"
  by (simp_all add: IncLogIndexVerificationTotal_def IncLogIndexVerificationFailure_def)

lemma metrics_channel [simp]:
  "signalChan (IncLogIndexVerificationTotal m) = signalChan m" "reg (IncLogIndexVerificationTotal m) = reg m"
  "signalChan (IncLogIndexVerificationFailure m) = signalChan m" "reg (IncLogIndexVerificationFailure m) = reg m"
  by (simp_all add: IncLogIndexVerificationTotal_def IncLogIndexVerificationFailure_def)

text \<open>The channel keeps the first signal that nobody has taken.\<close>

lemma deliver_first:
  "signalChan m = [] \<Longrightarrow> signalChan (fold deliver (sig # sigs) m) = [sig]"
proof -
  have "signalChan (fold deliver sigs n) = [sig]" if "signalChan n = [sig]" for n
    using that by (induction sigs arbitrary: n) (simp_all add: deliver_def)
  then show "signalChan m = [] \<Longrightarrow> signalChan (fold deliver (sig # sigs) m) = [sig]"
    by (simp add: deliver_def)
qed

lemma getMetrics_once: "getMetrics (snd (getMetrics st)) = getMetrics st"
  by (simp add: getMetrics_def split: option.splits)

end
