(* ===== verification/MonitorLoop.thy ===== *)
theory MonitorLoop
  imports Notifications Metrics
begin

text \<open>
  \<open>MonitorLoop\<close> of \<open>internal/cmd/common.go\<close>, over the interface \<open>MonitorLogic\<close> that the three
  monitors implement. One pass through the body of the loop is a function on the state of the loop;
  the loop itself is a function of what happens while it waits (ticks and the end of the context),
  and a step relation for what holds in every state it can reach. The locale \<open>monitor_logic\<close> is the
  contract between the loop and a monitor about the files.
\<close>

section \<open>The interface\<close>

text \<open>A checkpoint has the type \<open>'c\<close>, what the log says of itself the type \<open>'i\<close>; both are interface
  values, \<open>None\<close> for nil. Where the code's type assertion cannot fail there is no branch for it. The
  configuration that \<open>Config\<close> points to is part of the state of the loop. The interval and the port
  configure the ticker and the metrics server, which are outside the model.\<close>

record ('n, 'c, 'i, 'o) MonitorLogic =
  ml_Interval :: int64
  ml_MonitoredValues :: MonitoredValues
  ml_Once :: bool
  ml_MonitorPort :: int64
  ml_NotificationContextNew :: "'n world \<Rightarrow> NotificationContext"
  ml_RunConsistencyCheck :: "('n world, 'c option \<times> 'i option) io"
  ml_WriteCheckpoint :: "'c option \<Rightarrow> 'i option \<Rightarrow> ('n world, unit) io"
  ml_GetStartIndex :: "'c \<Rightarrow> 'i option \<Rightarrow> int64 option res"
  ml_GetEndIndex :: "'i option \<Rightarrow> int64 option res"
  ml_IdentitySearch :: "'o IdentityMonitorConfiguration \<Rightarrow> MonitoredValues \<Rightarrow>
    ('n world, MonitoredIdentity list \<times> FailedLogEntry list) io"

text \<open>The state of the loop: the configuration it shares with the monitor, the counters, the world,
  and \<open>ls_Searched\<close>, the history of the ranges whose search has finished, which the code does not
  keep.\<close>

record ('n, 'o) loop_state =
  ls_Config :: "'o IdentityMonitorConfiguration"
  ls_Metrics :: metrics
  ls_World :: "'n world"
  ls_Searched :: "(int64 \<times> int64) list"

type_synonym ('n, 'o, 'a) loop_io = "(('n, 'o) loop_state, 'a) io"

definition on_world :: "('n world, 'a) io \<Rightarrow> ('n, 'o, 'a) loop_io" where
  "on_world m = (\<lambda>s. case m (ls_World s) of (r, w) \<Rightarrow> (r, s\<lparr>ls_World := w\<rparr>))"

definition set_indices :: "int64 option \<Rightarrow> int64 option \<Rightarrow> ('n, 'o, unit) loop_io" where
  "set_indices i j = (\<lambda>s. (Ok (), s\<lparr>ls_Config := (ls_Config s)\<lparr>StartIndex := i, EndIndex := j\<rparr>\<rparr>))"

section \<open>The body of the loop\<close>

text \<open>The start index, if there is none, is taken from the previous checkpoint, if there is one.\<close>

definition choose_start ::
  "('n, 'c, 'i, 'o) MonitorLogic \<Rightarrow> 'c option \<Rightarrow> 'i option \<Rightarrow> ('n, 'o, unit) loop_io"
where
  "choose_start M prevCheckpoint curCheckpoint = (\<lambda>s.
     case (StartIndex (ls_Config s), prevCheckpoint) of
       (None, Some prev) \<Rightarrow>
         io_bind (io_res (ml_GetStartIndex M prev curCheckpoint))
           (\<lambda>i. set_indices i (EndIndex (ls_Config s))) s
     | _ \<Rightarrow> (Ok (), s))"

definition choose_end :: "('n, 'c, 'i, 'o) MonitorLogic \<Rightarrow> 'i option \<Rightarrow> ('n, 'o, unit) loop_io" where
  "choose_end M curCheckpoint = (\<lambda>s.
     case EndIndex (ls_Config s) of
       None \<Rightarrow>
         io_bind (io_res (ml_GetEndIndex M curCheckpoint))
           (\<lambda>j. set_indices (StartIndex (ls_Config s)) j) s
     | Some j \<Rightarrow> (Ok (), s))"

text \<open>Found entries and failed ones go out in two notifications, to the same platforms.\<close>

definition notify ::
  "('n, 'c, 'i, 'o) MonitorLogic \<Rightarrow> ('n, 'o) platform_lib \<Rightarrow> MonitoredIdentity list \<Rightarrow> FailedLogEntry list \<Rightarrow>
   ('n, 'o, unit) loop_io"
where
  "notify M pl foundEntries failedEntries = (\<lambda>s.
     let notificationPool = CreateNotificationPool (ls_Config s);
         trigger = (\<lambda>msg p. \<lambda>s. io_wrap msg (on_world (net_call (TriggerNotifications pl notificationPool
           \<lparr>nd_Context = ml_NotificationContextNew M (ls_World s), nd_Payload = p\<rparr>))) s)
     in io_bind (if foundEntries \<noteq> []
           then trigger ''failed to trigger notifications for found entries: '' (MonitoredIdentityList foundEntries)
           else io_return ()) (\<lambda>_.
         if failedEntries \<noteq> []
           then trigger ''failed to trigger notifications for failed entries: '' (FailedLogEntryList failedEntries)
           else io_return ()) s)"

definition record_search :: "int64 \<Rightarrow> int64 \<Rightarrow> ('n, 'o, unit) loop_io" where
  "record_search i j = (\<lambda>s. (Ok (), s\<lparr>ls_Searched := ls_Searched s @ [(i, j)]\<rparr>))"

text \<open>A failure is an error that is printed and ends the loop.\<close>

definition search_range ::
  "('n, 'c, 'i, 'o) MonitorLogic \<Rightarrow> ('n, 'o) platform_lib \<Rightarrow> ('n, 'o, unit) loop_io"
where
  "search_range M pl = (\<lambda>s.
     case (StartIndex (ls_Config s), EndIndex (ls_Config s)) of
       (Some i, Some j) \<Rightarrow>
         (if i > j then
            (Fail (Err (''start index '' @ itoa i @ '' must be less or equal than end index '' @ itoa j)), s)
          else
            io_bind (io_wrap ''failed to successfully complete identity search: ''
                (on_world (ml_IdentitySearch M (ls_Config s) (ml_MonitoredValues M))))
              (\<lambda>(foundEntries, failedEntries).
                 io_bind (notify M pl foundEntries failedEntries) (\<lambda>_. record_search i j)) s)
     | _ \<Rightarrow> (Ok (), s))"

definition advance :: "('n, 'o, unit) loop_io" where
  "advance = (\<lambda>s. set_indices (EndIndex (ls_Config s)) None s)"

definition search_step ::
  "('n, 'c, 'i, 'o) MonitorLogic \<Rightarrow> ('n, 'o) platform_lib \<Rightarrow> 'c option \<Rightarrow> 'i option \<Rightarrow> ('n, 'o, unit) loop_io"
where
  "search_step M pl prevCheckpoint curCheckpoint =
     (if MonitoredValuesExist (ml_MonitoredValues M) then
        io_bind (choose_start M prevCheckpoint curCheckpoint) (\<lambda>_.
        io_bind (choose_end M curCheckpoint) (\<lambda>_.
        io_bind (search_range M pl) (\<lambda>_. advance)))
      else io_return ())"

text \<open>What follows a pass through the body: wait for the next tick, or leave the function.\<close>

datatype verdict = Wait | Leave | Crash string

fun finish :: "verdict \<Rightarrow> unit res \<times> 's \<Rightarrow> verdict \<times> 's" where
  "finish v (Ok (), s) = (v, s)"
| "finish v (Fail err, s) = (Leave, s)"
| "finish v (Panic p, s) = (Crash p, s)"

definition monitor_run ::
  "('n, 'c, 'i, 'o) MonitorLogic \<Rightarrow> ('n, 'o) platform_lib \<Rightarrow> ('n, 'o) loop_state \<Rightarrow>
   verdict \<times> ('n, 'o) loop_state"
where
  "monitor_run M pl s =
     (let s1 = s\<lparr>ls_Metrics := IncLogIndexVerificationTotal (ls_Metrics s)\<rparr>;
          inputEndIndex = EndIndex (ls_Config s)
      in case on_world (ml_RunConsistencyCheck M) s1 of
           (Panic p, s2) \<Rightarrow> (Crash p, s2)
         | (Fail err, s2) \<Rightarrow>
             (if ml_Once M then (Leave, s2)
              else (Wait, s2\<lparr>ls_Metrics := IncLogIndexVerificationFailure (ls_Metrics s2)\<rparr>))
         | (Ok (prevCheckpoint, curCheckpoint), s2) \<Rightarrow>
             finish (if ml_Once M \<or> inputEndIndex \<noteq> None then Leave else Wait)
               (io_bind (search_step M pl prevCheckpoint curCheckpoint) (\<lambda>_.
                  io_wrap ''failed to write checkpoint: ''
                    (on_world (ml_WriteCheckpoint M prevCheckpoint curCheckpoint))) s2))"

section \<open>The loop\<close>

text \<open>While the loop waits, time passes outside the program and the ticker fires, or the context is
  done. \<open>Waiting\<close> is the state after the last event, the others are left for good.\<close>

datatype 'n event = Tick "'n \<Rightarrow> 'n" | Done

datatype phase = Running | Waiting | Stopped | Crashed string

fun phase_after :: "verdict \<Rightarrow> phase" where
  "phase_after Wait = Waiting"
| "phase_after Leave = Stopped"
| "phase_after (Crash p) = Crashed p"

definition pass_time :: "('n \<Rightarrow> 'n) \<Rightarrow> ('n, 'o) loop_state \<Rightarrow> ('n, 'o) loop_state" where
  "pass_time g s = s\<lparr>ls_World := (ls_World s)\<lparr>net := g (net (ls_World s))\<rparr>\<rparr>"

fun MonitorLoop ::
  "('n, 'c, 'i, 'o) MonitorLogic \<Rightarrow> ('n, 'o) platform_lib \<Rightarrow> 'n event list \<Rightarrow> ('n, 'o) loop_state \<Rightarrow>
   phase \<times> ('n, 'o) loop_state"
where
  "MonitorLoop M pl [] s = (case monitor_run M pl s of (v, s') \<Rightarrow> (phase_after v, s'))"
| "MonitorLoop M pl (Tick g # es) s =
     (case monitor_run M pl s of
        (Wait, s') \<Rightarrow> MonitorLoop M pl es (pass_time g s')
      | (v, s') \<Rightarrow> (phase_after v, s'))"
| "MonitorLoop M pl (Done # es) s =
     (case monitor_run M pl s of
        (Wait, s') \<Rightarrow> (Stopped, s')
      | (v, s') \<Rightarrow> (phase_after v, s'))"

text \<open>The steps of the loop, and the states it can reach from the start of the function.\<close>

inductive loop_step ::
  "('n, 'c, 'i, 'o) MonitorLogic \<Rightarrow> ('n, 'o) platform_lib \<Rightarrow>
   phase \<times> ('n, 'o) loop_state \<Rightarrow> phase \<times> ('n, 'o) loop_state \<Rightarrow> bool"
  for M pl
where
  run: "monitor_run M pl s = (v, s') \<Longrightarrow> loop_step M pl (Running, s) (phase_after v, s')"
| tick: "loop_step M pl (Waiting, s) (Running, pass_time g s)"
| shutdown: "loop_step M pl (Waiting, s) (Stopped, s)"

inductive_cases loop_stepE: "loop_step M pl (p, s) t"

inductive reachable ::
  "('n, 'c, 'i, 'o) MonitorLogic \<Rightarrow> ('n, 'o) platform_lib \<Rightarrow> ('n, 'o) loop_state \<Rightarrow>
   phase \<times> ('n, 'o) loop_state \<Rightarrow> bool"
  for M pl s0
where
  start: "reachable M pl s0 (Running, s0)"
| step: "reachable M pl s0 t \<Longrightarrow> loop_step M pl t u \<Longrightarrow> reachable M pl s0 u"

section \<open>What one pass through the body does\<close>

lemma on_world_eq: "on_world m s = (fst (m (ls_World s)), s\<lparr>ls_World := snd (m (ls_World s))\<rparr>)"
  by (simp add: on_world_def split_beta)

text \<open>The state after the consistency check.\<close>

definition checked :: "('n, 'o) loop_state \<Rightarrow> 'n world \<Rightarrow> ('n, 'o) loop_state" where
  "checked s w = s\<lparr>ls_Metrics := IncLogIndexVerificationTotal (ls_Metrics s), ls_World := w\<rparr>"

lemma checked_simps [simp]:
  "ls_Config (checked s w) = ls_Config s" "ls_Searched (checked s w) = ls_Searched s"
  "ls_World (checked s w) = w" "ls_Metrics (checked s w) = IncLogIndexVerificationTotal (ls_Metrics s)"
  by (simp_all add: checked_def)

lemma monitor_run_cases:
  assumes "monitor_run M pl s = (v, s')"
  obtains
    (check_panics) p w where "ml_RunConsistencyCheck M (ls_World s) = (Panic p, w)"
      and "v = Crash p" and "s' = checked s w"
  | (check_fails) err w where "ml_RunConsistencyCheck M (ls_World s) = (Fail err, w)"
      and "v = (if ml_Once M then Leave else Wait)"
      and "s' = (if ml_Once M then checked s w
        else (checked s w)\<lparr>ls_Metrics := IncLogIndexVerificationFailure (ls_Metrics (checked s w))\<rparr>)"
  | (search_stops) prev cur w r where "ml_RunConsistencyCheck M (ls_World s) = (Ok (prev, cur), w)"
      and "search_step M pl prev cur (checked s w) = (r, s')" and "r \<noteq> Ok ()" and "v \<noteq> Wait"
  | (written) prev cur w s2 r w' where "ml_RunConsistencyCheck M (ls_World s) = (Ok (prev, cur), w)"
      and "search_step M pl prev cur (checked s w) = (Ok (), s2)"
      and "ml_WriteCheckpoint M prev cur (ls_World s2) = (r, w')" and "s' = s2\<lparr>ls_World := w'\<rparr>"
      and "v = Wait \<longrightarrow> r = Ok () \<and> \<not> ml_Once M \<and> EndIndex (ls_Config s) = None"
      and "r = Ok () \<longrightarrow> v = (if ml_Once M \<or> EndIndex (ls_Config s) \<noteq> None then Leave else Wait)"
proof -
  let ?s1 = "s\<lparr>ls_Metrics := IncLogIndexVerificationTotal (ls_Metrics s)\<rparr>"
  obtain c w where c: "ml_RunConsistencyCheck M (ls_World s) = (c, w)" by fastforce
  have check: "on_world (ml_RunConsistencyCheck M) ?s1 = (c, checked s w)"
    by (simp add: on_world_eq c checked_def)
  show thesis
  proof (cases c)
    case (Panic p)
    with assms check c show thesis by (intro check_panics) (auto simp: monitor_run_def)
  next
    case (Fail err)
    with assms check c show thesis
      by (intro check_fails) (auto simp: monitor_run_def split: if_splits)
  next
    case (Ok pc)
    obtain prev cur where pc: "pc = (prev, cur)" by (cases pc)
    obtain r s2 where step: "search_step M pl prev cur (checked s w) = (r, s2)" by fastforce
    let ?v = "if ml_Once M \<or> EndIndex (ls_Config s) \<noteq> None then Leave else Wait"
    have run: "finish ?v (io_bind (search_step M pl prev cur) (\<lambda>_.
        io_wrap ''failed to write checkpoint: ''
          (on_world (ml_WriteCheckpoint M prev cur))) (checked s w)) = (v, s')"
      using assms check c Ok pc by (simp add: monitor_run_def)
    show thesis
    proof (cases r)
      case (Ok u)
      obtain r' w' where wr: "ml_WriteCheckpoint M prev cur (ls_World s2) = (r', w')" by fastforce
      show thesis
        using run step Ok c pc \<open>c = Ok pc\<close> wr
        by (intro written [OF _ _ wr, of w])
          (cases r'; auto simp: io_bind_def io_wrap_apply on_world_eq split: if_splits)+
    next
      case (Fail err)
      with run step c pc \<open>c = Ok pc\<close> show thesis
        by (intro search_stops [of prev cur w r]) (auto simp: io_bind_def split: if_splits)
    next
      case (Panic p)
      with run step c pc \<open>c = Ok pc\<close> show thesis
        by (intro search_stops [of prev cur w r]) (auto simp: io_bind_def split: if_splits)
    qed
  qed
qed

text \<open>What the indices become before the search, and what a finished search leaves.\<close>

definition chosen_start ::
  "('n, 'c, 'i, 'o) MonitorLogic \<Rightarrow> 'c option \<Rightarrow> 'i option \<Rightarrow> 'o IdentityMonitorConfiguration \<Rightarrow> int64 option res"
where
  "chosen_start M prev cur config =
     (case StartIndex config of
        Some i \<Rightarrow> Ok (Some i)
      | None \<Rightarrow> (case prev of None \<Rightarrow> Ok None | Some p \<Rightarrow> ml_GetStartIndex M p cur))"

definition chosen_end ::
  "('n, 'c, 'i, 'o) MonitorLogic \<Rightarrow> 'i option \<Rightarrow> 'o IdentityMonitorConfiguration \<Rightarrow> int64 option res"
where
  "chosen_end M cur config =
     (case EndIndex config of Some j \<Rightarrow> Ok (Some j) | None \<Rightarrow> ml_GetEndIndex M cur)"

definition range_of :: "int64 option \<Rightarrow> int64 option \<Rightarrow> (int64 \<times> int64) list" where
  "range_of i j = (case (i, j) of (Some a, Some b) \<Rightarrow> [(a, b)] | _ \<Rightarrow> [])"

lemma choose_start_Ok:
  assumes "choose_start M prev cur s = (Ok (), s')"
  shows "\<exists>i. chosen_start M prev cur (ls_Config s) = Ok i \<and>
    s' = s\<lparr>ls_Config := (ls_Config s)\<lparr>StartIndex := i\<rparr>\<rparr>"
  using assms
  by (auto simp: choose_start_def chosen_start_def set_indices_def res_simps split: option.splits)

lemma choose_end_Ok:
  assumes "choose_end M cur s = (Ok (), s')"
  shows "\<exists>j. chosen_end M cur (ls_Config s) = Ok j \<and>
    s' = s\<lparr>ls_Config := (ls_Config s)\<lparr>EndIndex := j\<rparr>\<rparr>"
  using assms
  by (auto simp: choose_end_def chosen_end_def set_indices_def res_simps split: option.splits)

text \<open>Calls that only change the world.\<close>

definition only_world :: "('n, 'o) loop_state \<Rightarrow> ('n, 'o) loop_state \<Rightarrow> bool" where
  "only_world s s' \<longleftrightarrow> ls_Config s' = ls_Config s \<and> ls_Metrics s' = ls_Metrics s \<and> ls_Searched s' = ls_Searched s"

lemma on_world_only: "on_world m s = (r, s') \<Longrightarrow> only_world s s'"
  by (auto simp: on_world_eq only_world_def)

lemma notify_only: "notify M pl found failed s = (r, s') \<Longrightarrow> only_world s s'"
  by (auto simp: notify_def Let_def io_bind_def io_wrap_apply on_world_eq only_world_def io_return_def
      split: if_splits prod.splits res.splits)

lemma search_range_Ok:
  assumes "search_range M pl s = (Ok (), s')"
  shows "ls_Config s' = ls_Config s \<and> ls_Metrics s' = ls_Metrics s \<and>
    ls_Searched s' = ls_Searched s @ range_of (StartIndex (ls_Config s)) (EndIndex (ls_Config s)) \<and>
    (\<forall>i j. StartIndex (ls_Config s) = Some i \<longrightarrow> EndIndex (ls_Config s) = Some j \<longrightarrow> i \<le> j)"
  using assms
  by (auto simp: search_range_def range_of_def res_simps record_search_def only_world_def
      dest!: on_world_only notify_only split: option.splits if_splits)

lemma search_range_fails:
  assumes "search_range M pl s = (r, s')" and "r \<noteq> Ok ()"
  shows "only_world s s'"
  using assms
  by (auto simp: search_range_def io_bind_def io_wrap_apply on_world_eq record_search_def only_world_def
      split: option.splits if_splits prod.splits res.splits dest!: notify_only)

text \<open>A search step that succeeds searches the chosen range, if both indices are known, and moves
  the start to the end.\<close>

lemma search_step_Ok:
  assumes "search_step M pl prev cur s = (Ok (), s')"
  shows "if MonitoredValuesExist (ml_MonitoredValues M) then
      \<exists>i j. chosen_start M prev cur (ls_Config s) = Ok i \<and> chosen_end M cur (ls_Config s) = Ok j \<and>
        ls_Config s' = (ls_Config s)\<lparr>StartIndex := j, EndIndex := None\<rparr> \<and> ls_Metrics s' = ls_Metrics s \<and>
        ls_Searched s' = ls_Searched s @ range_of i j \<and> (\<forall>a b. i = Some a \<longrightarrow> j = Some b \<longrightarrow> a \<le> b)
    else s' = s"
proof (cases "MonitoredValuesExist (ml_MonitoredValues M)")
  case True
  with assms obtain s1 s2 s3 where "choose_start M prev cur s = (Ok (), s1)"
    "choose_end M cur s1 = (Ok (), s2)" "search_range M pl s2 = (Ok (), s3)" "advance s3 = (Ok (), s')"
    by (auto simp: search_step_def res_simps)
  then show ?thesis
    using True
    by (auto simp: advance_def set_indices_def chosen_end_def
        dest!: choose_start_Ok choose_end_Ok search_range_Ok)
qed (use assms in \<open>simp add: search_step_def res_simps\<close>)

text \<open>One that does not succeed finishes no search.\<close>

lemma search_step_fails:
  assumes "search_step M pl prev cur s = (r, s')" and "r \<noteq> Ok ()"
  shows "ls_Metrics s' = ls_Metrics s \<and> ls_Searched s' = ls_Searched s"
  using assms
  by (auto simp: search_step_def io_bind_def choose_start_def choose_end_def set_indices_def io_res_def
      advance_def only_world_def io_return_def dest!: search_range_fails
      split: if_splits prod.splits res.splits option.splits)

text \<open>An error of the search step ends the loop.\<close>

lemma monitor_run_search_fails:
  assumes "ml_RunConsistencyCheck M (ls_World s) = (Ok (prev, cur), w)"
    and "search_step M pl prev cur (checked s w) = (Fail err, s2)"
  shows "monitor_run M pl s = (Leave, s2)"
  using assms by (simp add: monitor_run_def on_world_eq Let_def checked_def io_bind_def)

text \<open>A pass in which nothing fails.\<close>

lemma monitor_run_written:
  assumes "ml_RunConsistencyCheck M (ls_World s) = (Ok (prev, cur), w)"
    and "search_step M pl prev cur (checked s w) = (Ok (), s2)"
    and "ml_WriteCheckpoint M prev cur (ls_World s2) = (Ok (), w')"
  shows "monitor_run M pl s =
    (if ml_Once M \<or> EndIndex (ls_Config s) \<noteq> None then Leave else Wait, s2\<lparr>ls_World := w'\<rparr>)"
  using assms by (simp add: monitor_run_def on_world_eq Let_def checked_def io_bind_def io_wrap_apply)

section \<open>Ranges that follow one another\<close>

text \<open>Each range \<open>(a, b]\<close> starts where the one before it ends.\<close>

fun contiguous :: "(int64 \<times> int64) list \<Rightarrow> bool" where
  "contiguous [] = True"
| "contiguous [r] = True"
| "contiguous ((a, b) # (c, d) # rs) \<longleftrightarrow> b = c \<and> contiguous ((c, d) # rs)"

definition ordered :: "(int64 \<times> int64) list \<Rightarrow> bool" where
  "ordered rs \<longleftrightarrow> list_all (\<lambda>(a, b). a \<le> b) rs"

text \<open>In how many of the ranges \<open>(a, b]\<close> an index is.\<close>

definition times_searched :: "int64 \<Rightarrow> (int64 \<times> int64) list \<Rightarrow> nat" where
  "times_searched x rs = length (filter (\<lambda>(a, b). a < x \<and> x \<le> b) rs)"

lemma contiguous_snoc:
  "contiguous (rs @ [(c, d)]) \<longleftrightarrow> contiguous rs \<and> (rs = [] \<or> snd (last rs) = c)"
  by (induction rs rule: contiguous.induct) auto

lemma contiguous_bounds: "contiguous rs \<Longrightarrow> ordered rs \<Longrightarrow> rs \<noteq> [] \<Longrightarrow> fst (hd rs) \<le> snd (last rs)"
  by (induction rs rule: contiguous.induct) (auto simp: ordered_def)

lemma contiguous_end:
  "contiguous rs \<Longrightarrow> ordered rs \<Longrightarrow> (a, b) \<in> set rs \<Longrightarrow> b \<le> snd (last rs)"
proof (induction rs rule: contiguous.induct)
  case (3 a' b' c d rs)
  then have "contiguous ((c, d) # rs)" "ordered ((c, d) # rs)" "b' = c" by (simp_all add: ordered_def)
  with contiguous_bounds [of "(c, d) # rs"] 3 show ?case by auto
qed auto

lemma contiguous_start:
  "contiguous rs \<Longrightarrow> ordered rs \<Longrightarrow> (a, b) \<in> set rs \<Longrightarrow> fst (hd rs) \<le> a"
proof (induction rs rule: contiguous.induct)
  case (3 a' b' c d rs)
  then have "contiguous ((c, d) # rs)" "ordered ((c, d) # rs)" "b' = c" "a' \<le> b'" by (simp_all add: ordered_def)
  with 3 show ?case by auto
qed auto

lemma times_searched_contiguous:
  "contiguous rs \<Longrightarrow> ordered rs \<Longrightarrow> rs \<noteq> [] \<Longrightarrow>
   times_searched x rs = (if fst (hd rs) < x \<and> x \<le> snd (last rs) then 1 else 0)"
proof (induction rs rule: contiguous.induct)
  case (3 a b c d rs)
  then have IH: "times_searched x ((c, d) # rs) = (if c < x \<and> x \<le> snd (last ((c, d) # rs)) then 1 else 0)"
    by (simp add: ordered_def)
  have "c \<le> snd (last ((c, d) # rs))"
    using contiguous_bounds [of "(c, d) # rs"] 3(2,3) by (simp add: ordered_def)
  moreover have "times_searched x ((a, b) # (c, d) # rs) =
      (if a < x \<and> x \<le> b then 1 else 0) + times_searched x ((c, d) # rs)"
    by (simp add: times_searched_def)
  ultimately show ?case using IH 3(2,3) by (auto simp: ordered_def)
qed (auto simp: times_searched_def)

section \<open>The states the loop can reach\<close>

text \<open>A monitor that knows the end of the log whenever the consistency check succeeds.\<close>

definition ends_known :: "('n, 'c, 'i, 'o) MonitorLogic \<Rightarrow> bool" where
  "ends_known M \<longleftrightarrow> (\<forall>w prev cur w'. ml_RunConsistencyCheck M w = (Ok (prev, cur), w') \<longrightarrow>
     ml_GetEndIndex M cur \<noteq> Ok None)"

definition in_loop :: "phase \<Rightarrow> bool" where
  "in_loop p \<longleftrightarrow> p = Running \<or> p = Waiting"

definition loop_inv :: "phase \<times> ('n, 'o) loop_state \<Rightarrow> bool" where
  "loop_inv t \<longleftrightarrow> (case t of (p, s) \<Rightarrow>
     contiguous (ls_Searched s) \<and> ordered (ls_Searched s) \<and>
     (in_loop p \<longrightarrow> ls_Searched s \<noteq> [] \<longrightarrow>
        StartIndex (ls_Config s) = Some (snd (last (ls_Searched s)))) \<and>
     logIndexVerificationFailure (ls_Metrics s) \<le> logIndexVerificationTotal (ls_Metrics s))"

lemma monitor_run_inv:
  assumes "ends_known M" and "loop_inv (Running, s)" and "monitor_run M pl s = (v, s')"
  shows "loop_inv (phase_after v, s')"
  using assms(3)
proof (cases rule: monitor_run_cases)
  case (search_stops prev cur w r)
  then show ?thesis
    using assms(2) search_step_fails [OF search_stops(2,3)]
    by (cases v) (auto simp: loop_inv_def in_loop_def)
next
  case (written prev cur w s2 r w')
  show ?thesis
  proof (cases "MonitoredValuesExist (ml_MonitoredValues M)")
    case True
    with search_step_Ok [OF written(2)] obtain i j where
      i: "chosen_start M prev cur (ls_Config s) = Ok i" and j: "chosen_end M cur (ls_Config s) = Ok j" and
      s2: "ls_Config s2 = (ls_Config s)\<lparr>StartIndex := j, EndIndex := None\<rparr>"
        "ls_Metrics s2 = IncLogIndexVerificationTotal (ls_Metrics s)"
        "ls_Searched s2 = ls_Searched s @ range_of i j" and
      le: "\<And>a b. i = Some a \<Longrightarrow> j = Some b \<Longrightarrow> a \<le> b"
      by auto
    obtain b where b: "j = Some b"
      using j assms(1) written(1) by (cases j) (auto simp: chosen_end_def ends_known_def split: option.splits)
    have a: "i = Some (snd (last (ls_Searched s)))" if "ls_Searched s \<noteq> []"
      using i assms(2) that by (auto simp: loop_inv_def in_loop_def chosen_start_def)
    show ?thesis
      using assms(2) a le s2 b written(4)
      by (cases i) (auto simp: loop_inv_def in_loop_def range_of_def contiguous_snoc ordered_def)
  next
    case False
    with search_step_Ok [OF written(2)] assms(2) written(4) show ?thesis
      by (auto simp: loop_inv_def in_loop_def)
  qed
qed (use assms(2) in \<open>auto simp: loop_inv_def in_loop_def\<close>)

lemma loop_step_inv:
  assumes "ends_known M" and "loop_inv t" and "loop_step M pl t u"
  shows "loop_inv u"
  using assms(3)
proof cases
  case (run s v s')
  with assms monitor_run_inv show ?thesis by blast
qed (use assms(2) in \<open>auto simp: loop_inv_def in_loop_def pass_time_def\<close>)

lemma reachable_inv:
  assumes "ends_known M" and "ls_Searched s0 = []" and "ls_Metrics s0 = initMetrics"
    and "reachable M pl s0 t"
  shows "loop_inv t"
  using assms(4)
proof induction
  case start
  with assms(2,3) show ?case by (simp add: loop_inv_def ordered_def initMetrics_def)
next
  case (step t u)
  with assms(1) loop_step_inv show ?case by blast
qed

text \<open>The function reaches only states of the relation, whatever happens while it waits.\<close>

lemma MonitorLoop_reachable:
  "reachable M pl s0 (Running, s) \<Longrightarrow> reachable M pl s0 (MonitorLoop M pl es s)"
proof (induction M pl es s rule: MonitorLoop.induct)
  case (1 M pl s)
  then show ?case by (auto split: prod.splits intro: reachable.step loop_step.intros)
next
  case (2 M pl g es s)
  obtain v s' where run: "monitor_run M pl s = (v, s')" by fastforce
  with 2(2) have r: "reachable M pl s0 (phase_after v, s')"
    by (blast intro: reachable.step loop_step.run)
  show ?case
  proof (cases v)
    case Wait
    with r have "reachable M pl s0 (Running, pass_time g s')"
      by (auto intro: reachable.step loop_step.tick)
    with 2(1) [OF run [symmetric]] run Wait show ?thesis by simp
  qed (use r run in simp_all)
next
  case (3 M pl es s)
  obtain v s' where run: "monitor_run M pl s = (v, s')" by fastforce
  with 3 have r: "reachable M pl s0 (phase_after v, s')"
    by (blast intro: reachable.step loop_step.run)
  show ?case
  proof (cases v)
    case Wait
    with r run show ?thesis by (auto intro: reachable.step loop_step.shutdown)
  qed (use r run in simp_all)
qed

section \<open>Counting the checks\<close>

lemma search_step_metrics:
  "search_step M pl prev cur s = (r, s') \<Longrightarrow> ls_Metrics s' = ls_Metrics s"
  using search_step_Ok [of M pl prev cur s s'] search_step_fails [of M pl prev cur s r s']
  by (cases "r = Ok ()") (auto split: if_splits)

lemma monitor_run_metrics:
  assumes "monitor_run M pl s = (v, s')"
  shows "logIndexVerificationTotal (ls_Metrics s') = Suc (logIndexVerificationTotal (ls_Metrics s)) \<and>
    logIndexVerificationFailure (ls_Metrics s') =
      logIndexVerificationFailure (ls_Metrics s) +
      (if \<not> ml_Once M \<and> (\<exists>e. fst (ml_RunConsistencyCheck M (ls_World s)) = Fail e) then 1 else 0)"
  using assms by (cases rule: monitor_run_cases) (auto dest!: search_step_metrics)

lemma monitor_run_once: "ml_Once M \<Longrightarrow> monitor_run M pl s = (v, s') \<Longrightarrow> v \<noteq> Wait"
  by (cases rule: monitor_run_cases) auto

lemma monitor_run_end_given:
  "monitor_run M pl s = (Wait, s') \<Longrightarrow> EndIndex (ls_Config s) \<noteq> None \<Longrightarrow>
   \<exists>e w. ml_RunConsistencyCheck M (ls_World s) = (Fail e, w)"
  by (cases rule: monitor_run_cases) auto

lemma MonitorLoop_not_waiting:
  assumes "monitor_run M pl s = (v, s')" and "v \<noteq> Wait"
  shows "MonitorLoop M pl es s = (phase_after v, s')"
proof (cases es)
  case (Cons e es')
  with assms show ?thesis by (cases e; cases v) simp_all
qed (use assms in simp)

text \<open>A loop that is still waiting has made one check at the start and one for each tick.\<close>

lemma MonitorLoop_total:
  "MonitorLoop M pl es s = (p, s') \<Longrightarrow>
   logIndexVerificationTotal (ls_Metrics s') \<le> logIndexVerificationTotal (ls_Metrics s) + Suc (length es) \<and>
   (p = Waiting \<longrightarrow>
      logIndexVerificationTotal (ls_Metrics s') = logIndexVerificationTotal (ls_Metrics s) + Suc (length es))"
proof (induction es arbitrary: s)
  case Nil
  then show ?case by (auto dest!: monitor_run_metrics split: prod.splits)
next
  case (Cons e es)
  obtain v s1 where run: "monitor_run M pl s = (v, s1)" by fastforce
  note m = monitor_run_metrics [OF run]
  show ?case
  proof (cases "v = Wait")
    case True
    show ?thesis
    proof (cases e)
      case (Tick g)
      with Cons.prems run True have "MonitorLoop M pl es (pass_time g s1) = (p, s')" by simp
      from Cons.IH [OF this] m show ?thesis by (simp add: pass_time_def)
    qed (use Cons.prems run True m in auto)
  next
    case False
    from MonitorLoop_not_waiting [OF run this, of "e # es"] Cons.prems m False show ?thesis
      by (cases v) auto
  qed
qed

text \<open>What happens next depends on the state the loop waits in only.\<close>

lemma MonitorLoop_append:
  "MonitorLoop M pl es s = (Waiting, s') \<Longrightarrow>
   MonitorLoop M pl (es @ Tick g # es') s = MonitorLoop M pl es' (pass_time g s') \<and>
   MonitorLoop M pl (es @ Done # es') s = (Stopped, s')"
proof (induction M pl es s rule: MonitorLoop.induct)
  case (1 M pl s)
  then obtain v where "monitor_run M pl s = (v, s')" "phase_after v = Waiting"
    by (auto split: prod.splits)
  then show ?case by (cases v) simp_all
next
  case (2 M pl h es s)
  obtain v s1 where run: "monitor_run M pl s = (v, s1)" by fastforce
  show ?case
  proof (cases v)
    case Wait
    with 2(1) [OF run [symmetric] Wait] 2(2) run show ?thesis by simp
  qed (use 2(2) run in simp_all)
next
  case (3 M pl es s)
  obtain v s1 where run: "monitor_run M pl s = (v, s1)" by fastforce
  with 3 show ?case by (cases v) simp_all
qed

lemma search_range_config: "ls_Config (snd (search_range M pl s)) = ls_Config s"
proof (cases "fst (search_range M pl s) = Ok ()")
  case True
  then show ?thesis using search_range_Ok [of M pl s] by (metis prod.collapse)
next
  case False
  then show ?thesis using search_range_fails [of M pl s] by (metis only_world_def prod.collapse)
qed

text \<open>A file that is not written by the search step, as seen from the world \<open>u\<close>.\<close>

definition spared :: "string \<Rightarrow> 'n world \<Rightarrow> ('n, 'o) loop_state \<Rightarrow> bool" where
  "spared q u s \<longleftrightarrow> same_file q u (ls_World s) \<and> OutputIdentitiesFile (ls_Config s) \<noteq> q \<and>
     IdentityMetadataFile (ls_Config s) \<noteq> Some q"

lemma notify_keeps: "notify M pl found failed s = (r, s') \<Longrightarrow> same_files (ls_World s) (ls_World s')"
  by (auto simp: notify_def Let_def io_bind_def io_wrap_apply on_world_eq io_return_def net_call_def
      same_files_def os.defs split: if_splits prod.splits res.splits)

section \<open>The contract with a monitor\<close>

text \<open>
  A monitor keeps its last checkpoint in the log info file \<open>f\<close>. The check changes no file, the
  search touches its output files only, and writing the checkpoint touches no other file.
\<close>

locale monitor_logic =
  fixes M :: "('n, 'c, 'i, 'o) MonitorLogic" and f :: string
  assumes check_keeps: "ml_RunConsistencyCheck M w = (r, w') \<Longrightarrow> same_files w w'"
    and search_keeps:
      "OutputIdentitiesFile config \<noteq> q \<Longrightarrow> IdentityMetadataFile config \<noteq> Some q \<Longrightarrow>
       ml_IdentitySearch M config mvs w = (r', w') \<Longrightarrow> same_file q w w'"
    and write_frame:
      "ml_WriteCheckpoint M prev cur w = (r'', w') \<Longrightarrow> q \<noteq> f \<Longrightarrow> same_file q w w'"
begin

lemma search_range_keeps:
  assumes "OutputIdentitiesFile (ls_Config s) \<noteq> q" and "IdentityMetadataFile (ls_Config s) \<noteq> Some q"
  shows "same_file q (ls_World s) (ls_World (snd (search_range M pl s)))"
proof (cases "\<exists>i j. StartIndex (ls_Config s) = Some i \<and> EndIndex (ls_Config s) = Some j \<and> i \<le> j")
  case True
  then obtain i j where ij: "StartIndex (ls_Config s) = Some i" "EndIndex (ls_Config s) = Some j" "i \<le> j"
    by blast
  obtain r1 w1 where search: "ml_IdentitySearch M (ls_Config s) (ml_MonitoredValues M) (ls_World s) = (r1, w1)"
    by fastforce
  have w1: "same_file q (ls_World s) w1" by (rule search_keeps [OF assms search])
  show ?thesis
  proof (cases "\<exists>found failed. r1 = Ok (found, failed)")
    case True
    then obtain found failed where "r1 = Ok (found, failed)" by blast
    moreover obtain r2 s2 where notified: "notify M pl found failed (s\<lparr>ls_World := w1\<rparr>) = (r2, s2)" by fastforce
    from notify_keeps [OF this] have "same_file q w1 (ls_World s2)" by (auto intro: same_files_file)
    ultimately show ?thesis
      using ij search w1 notified same_file_trans
      by (auto simp: search_range_def io_bind_def io_wrap_apply on_world_eq record_search_def split: res.splits)
  next
    case False
    with ij search w1 show ?thesis
      by (cases r1) (auto simp: search_range_def io_bind_def io_wrap_apply on_world_eq)
  qed
qed (auto simp: search_range_def split: option.splits)

lemma search_step_spares: "keeps (spared q u) (search_step M pl prev cur)"
proof -
  have idx: "keeps (spared q u) (set_indices i j)" for i j
    by (simp add: keeps_def set_indices_def spared_def)
  have "keeps (spared q u) (choose_start M prev cur)" "keeps (spared q u) (choose_end M cur)"
    using idx by (auto simp: keeps_def choose_start_def choose_end_def io_bind_def io_res_def
        split: option.splits res.splits)
  moreover have "keeps (spared q u) (search_range M pl)"
    unfolding keeps_def spared_def search_range_config by (blast intro: same_file_trans search_range_keeps)
  moreover have "keeps (spared q u) advance"
    by (simp add: keeps_def advance_def set_indices_def spared_def)
  ultimately show ?thesis unfolding search_step_def by auto
qed

lemma search_step_keeps:
  assumes "search_step M pl prev cur s = (r, s')"
    and "OutputIdentitiesFile (ls_Config s) \<noteq> q" and "IdentityMetadataFile (ls_Config s) \<noteq> Some q"
  shows "same_file q (ls_World s) (ls_World s')"
  using keepsD [OF search_step_spares _ assms(1), of q "ls_World s"] assms(2,3) by (simp add: spared_def)

text \<open>One pass touches the output files and the log info file only.\<close>

lemma monitor_run_keeps:
  assumes "monitor_run M pl s = (v, s')" and "q \<noteq> f"
    and "OutputIdentitiesFile (ls_Config s) \<noteq> q" and "IdentityMetadataFile (ls_Config s) \<noteq> Some q"
  shows "same_file q (ls_World s) (ls_World s')"
  using assms(1)
proof (cases rule: monitor_run_cases)
  case (search_stops prev cur w r)
  have "same_file q (ls_World s) w" by (rule same_files_file [OF check_keeps [OF search_stops(1)]])
  moreover have "same_file q w (ls_World s')" using search_step_keeps [OF search_stops(2)] assms(3,4) by simp
  ultimately show ?thesis by (rule same_file_trans)
next
  case (written prev cur w s2 r w')
  have "same_file q (ls_World s) w" by (rule same_files_file [OF check_keeps [OF written(1)]])
  also have "same_file q w (ls_World s2)"
    using search_step_keeps [OF written(2)] assms(3,4) by simp
  also have "same_file q (ls_World s2) (ls_World s')"
    using write_frame [OF written(3) assms(2)] written(4) by simp
  finally show ?thesis .
qed (auto intro: same_files_file check_keeps)

text \<open>The log info file changes only after the search step has succeeded.\<close>

lemma run_writes_last:
  assumes "monitor_run M pl s = (v, s')"
    and "OutputIdentitiesFile (ls_Config s) \<noteq> f" and "IdentityMetadataFile (ls_Config s) \<noteq> Some f"
    and "os_files (ls_World s') f \<noteq> os_files (ls_World s) f"
  shows "\<exists>prev cur w s2 r w'. ml_RunConsistencyCheck M (ls_World s) = (Ok (prev, cur), w) \<and>
    search_step M pl prev cur (checked s w) = (Ok (), s2) \<and>
    ml_WriteCheckpoint M prev cur (ls_World s2) = (r, w') \<and> s' = s2\<lparr>ls_World := w'\<rparr>"
  using assms(1)
proof (cases rule: monitor_run_cases)
  case (check_panics p w)
  then show ?thesis using assms(4) check_keeps same_filesD by fastforce
next
  case (check_fails err w)
  then show ?thesis using assms(4) check_keeps same_filesD by (fastforce split: if_splits)
next
  case (search_stops prev cur w r)
  then show ?thesis
    using search_step_keeps [OF search_stops(2), of f] assms(2-4) same_filesD [OF check_keeps [OF search_stops(1)]]
    by (simp add: same_file_def)
next
  case (written prev cur w s2 r w')
  then show ?thesis by blast
qed

text \<open>A failed check leaves everything as it was, and the loop waits for the next tick.\<close>

lemma failed_check_waits:
  assumes "\<not> ml_Once M" and "ml_RunConsistencyCheck M (ls_World s) = (Fail err, w)"
  shows "\<exists>s'. monitor_run M pl s = (Wait, s') \<and> ls_Config s' = ls_Config s \<and>
    ls_Searched s' = ls_Searched s \<and> same_files (ls_World s) (ls_World s')"
  using assms check_keeps [OF assms(2)]
  by (simp add: monitor_run_def on_world_eq Let_def)

end

end
