(* ===== verification/Coverage.thy ===== *)
theory Coverage
  imports MonitorLoop Scan
begin

text \<open>
  What the history of a run of the loop stands for. Every range in \<open>ls_Searched\<close> was searched with the
  settings the run began with, and everything the search reported was accepted by the platforms.
  \<open>searched_range\<close> says so of one range and \<open>run_inv\<close> of all of them; the locale \<open>monitor_logic\<close>
  proves the invariant for every monitor, and at the end what the loop does with each of them.
\<close>

section \<open>Notifications that were accepted\<close>

text \<open>Every configured platform has accepted a notification with the payload.\<close>

definition delivered :: "('n, 'o) platform_lib \<Rightarrow> 'o IdentityMonitorConfiguration \<Rightarrow> payload \<Rightarrow> bool" where
  "delivered pl config p \<longleftrightarrow> (\<exists>ctx n n'. TriggerNotifications pl (CreateNotificationPool config)
     \<lparr>nd_Context = ctx, nd_Payload = p\<rparr> n = (Ok (), n'))"

text \<open>A found entry, or a failure of the entry with an index and a UUID, is part of an accepted
  notification.\<close>

definition told :: "('n, 'o) platform_lib \<Rightarrow> 'o IdentityMonitorConfiguration \<Rightarrow> LogEntry \<Rightarrow> bool" where
  "told pl config m \<longleftrightarrow> (\<exists>identities. m \<in> set (concat (map mi_FoundIdentityEntries identities)) \<and>
     delivered pl config (MonitoredIdentityList identities))"

definition told_failure ::
  "('n, 'o) platform_lib \<Rightarrow> 'o IdentityMonitorConfiguration \<Rightarrow> int64 \<Rightarrow> string \<Rightarrow> bool"
where
  "told_failure pl config i uuid \<longleftrightarrow> (\<exists>fs. (\<exists>f \<in> set fs. fl_Index f = i \<and> fl_UUID f = uuid) \<and>
     delivered pl config (FailedLogEntryList fs))"

text \<open>A search with this configuration succeeded in the world \<open>w\<close>, and what it reported was accepted.\<close>

definition finished ::
  "('n, 'c, 'i, 'o) MonitorLogic \<Rightarrow> ('n, 'o) platform_lib \<Rightarrow> 'o IdentityMonitorConfiguration \<Rightarrow> 'n world \<Rightarrow> bool"
where
  "finished M pl config w \<longleftrightarrow> (\<exists>found failed w'.
     ml_IdentitySearch M config (ml_MonitoredValues M) w = (Ok (found, failed), w') \<and>
     (found \<noteq> [] \<longrightarrow> delivered pl config (MonitoredIdentityList found)) \<and>
     (failed \<noteq> [] \<longrightarrow> delivered pl config (FailedLogEntryList failed)))"

text \<open>All that must be told of an entry has been told, and the others as well unless its failure has.\<close>

definition entry_reported ::
  "('n, 'o) platform_lib \<Rightarrow> 'o IdentityMonitorConfiguration \<Rightarrow> LogEntry set \<Rightarrow> LogEntry set \<Rightarrow> int64 \<Rightarrow> string \<Rightarrow> bool"
where
  "entry_reported pl config must others i uuid \<longleftrightarrow> (\<forall>m \<in> must. told pl config m) \<and>
     ((\<forall>m \<in> others. told pl config m) \<or> told_failure pl config i uuid)"

text \<open>What a search has found, and its failures, are told once its report is accepted.\<close>

definition scan_told :: "('n, 'o) platform_lib \<Rightarrow> 'o IdentityMonitorConfiguration \<Rightarrow> scan \<Rightarrow> bool" where
  "scan_told pl config r \<longleftrightarrow> (case r of (ms, fs) \<Rightarrow> (\<forall>m \<in> set ms. told pl config m) \<and>
     (\<forall>f \<in> set fs. told_failure pl config (fl_Index f) (fl_UUID f)))"

lemma scan_told_meets:
  "scan_told pl config r \<Longrightarrow> scan_meets must others i uuid r \<Longrightarrow> entry_reported pl config must others i uuid"
  by (auto simp: scan_told_def scan_meets_def entry_reported_def)

lemma delivered_told:
  assumes "mset (concat (map mi_FoundIdentityEntries identities)) = mset found"
    and "identities \<noteq> [] \<longrightarrow> delivered pl config (MonitoredIdentityList identities)"
    and "failed \<noteq> [] \<longrightarrow> delivered pl config (FailedLogEntryList failed)"
  shows "scan_told pl config (found, failed)"
proof -
  have eq: "set (concat (map mi_FoundIdentityEntries identities)) = set found"
    using assms(1) by (rule mset_eq_setD)
  have "told pl config m" if "m \<in> set found" for m
  proof -
    from that eq have m: "m \<in> set (concat (map mi_FoundIdentityEntries identities))" by blast
    then have "identities \<noteq> []" by auto
    with assms(2) m show ?thesis unfolding told_def by blast
  qed
  moreover have "told_failure pl config (fl_Index f) (fl_UUID f)" if "f \<in> set failed" for f
    using that assms(3) unfolding told_failure_def by (intro exI [of _ failed]) auto
  ultimately show ?thesis by (simp add: scan_told_def)
qed

lemma scan_told_mono:
  "scan_told pl config (ms, fs) \<Longrightarrow> set ms1 \<subseteq> set ms \<Longrightarrow> set fs1 \<subseteq> set fs \<Longrightarrow> scan_told pl config (ms1, fs1)"
  by (auto simp: scan_told_def)

lemma notify_Ok:
  assumes "notify M pl found failed s = (Ok (), s')"
  shows "(found \<noteq> [] \<longrightarrow> delivered pl (ls_Config s) (MonitoredIdentityList found)) \<and>
    (failed \<noteq> [] \<longrightarrow> delivered pl (ls_Config s) (FailedLogEntryList failed))"
proof -
  have sent: "delivered pl (ls_Config s) p"
    if "on_world (net_call (TriggerNotifications pl (CreateNotificationPool (ls_Config s))
      \<lparr>nd_Context = ctx, nd_Payload = p\<rparr>)) t = (Ok (), t')" for ctx p t t'
    using that unfolding delivered_def by (auto simp: on_world_eq net_call_def split_beta) (metis prod.collapse)
  from assms show ?thesis
    by (auto simp: notify_def Let_def res_simps dest!: sent)
qed

lemma search_range_finished:
  assumes "search_range M pl s = (Ok (), s')"
    and "StartIndex (ls_Config s) = Some a" and "EndIndex (ls_Config s) = Some b"
  shows "a \<le> b \<and> finished M pl (ls_Config s) (ls_World s)"
proof -
  obtain r w1 where search: "ml_IdentitySearch M (ls_Config s) (ml_MonitoredValues M) (ls_World s) = (r, w1)"
    by fastforce
  from assms search obtain found failed s2 where "r = Ok (found, failed)" "a \<le> b"
    and notified: "notify M pl found failed (s\<lparr>ls_World := w1\<rparr>) = (Ok (), s2)"
    by (auto simp: search_range_def res_simps on_world_eq split: if_splits)
  with search notify_Ok [OF notified] show ?thesis by (auto simp: finished_def)
qed

lemma search_step_finished:
  assumes "search_step M pl prev cur s = (Ok (), s')" and "MonitoredValuesExist (ml_MonitoredValues M)"
  shows "\<exists>i j. chosen_start M prev cur (ls_Config s) = Ok i \<and> chosen_end M cur (ls_Config s) = Ok j \<and>
    (\<forall>a b. i = Some a \<longrightarrow> j = Some b \<longrightarrow>
       a \<le> b \<and> finished M pl ((ls_Config s)\<lparr>StartIndex := Some a, EndIndex := Some b\<rparr>) (ls_World s))"
proof -
  from assms obtain s1 s2 s3 where one: "choose_start M prev cur s = (Ok (), s1)"
    and two: "choose_end M cur s1 = (Ok (), s2)" and range: "search_range M pl s2 = (Ok (), s3)"
    by (auto simp: search_step_def res_simps)
  from choose_start_Ok [OF one] obtain i where i: "chosen_start M prev cur (ls_Config s) = Ok i"
    "s1 = s\<lparr>ls_Config := (ls_Config s)\<lparr>StartIndex := i\<rparr>\<rparr>" by blast
  with choose_end_Ok [OF two] obtain j where "chosen_end M cur (ls_Config s) = Ok j"
    "s2 = s\<lparr>ls_Config := (ls_Config s)\<lparr>StartIndex := i, EndIndex := j\<rparr>\<rparr>"
    by (auto simp: chosen_end_def)
  with i search_range_finished [OF range] show ?thesis by auto
qed

section \<open>The settings of a run\<close>

text \<open>The loop changes the two indices of the configuration and nothing else of it.\<close>

definition same_settings :: "'o IdentityMonitorConfiguration \<Rightarrow> 'o IdentityMonitorConfiguration \<Rightarrow> bool" where
  "same_settings c c' \<longleftrightarrow> (\<exists>i j. c' = c\<lparr>StartIndex := i, EndIndex := j\<rparr>)"

lemma same_settings_refl [simp, intro]: "same_settings c c"
  unfolding same_settings_def by (intro exI [of _ "StartIndex c"] exI [of _ "EndIndex c"]) simp

lemma same_settings_update: "same_settings c c' \<Longrightarrow> same_settings c (c'\<lparr>StartIndex := i, EndIndex := j\<rparr>)"
  unfolding same_settings_def by (elim exE, intro exI [of _ i] exI [of _ j]) simp

lemma same_settingsD:
  assumes "same_settings c c'"
  shows "OutputIdentitiesFile c' = OutputIdentitiesFile c" "IdentityMetadataFile c' = IdentityMetadataFile c"
    "CARootsFile c' = CARootsFile c" "CAIntermediatesFile c' = CAIntermediatesFile c"
    "delivered pl c' = delivered pl c"
  using assms by (auto simp: same_settings_def delivered_def CreateNotificationPool_def)

lemma told_settings:
  assumes "same_settings c c'"
  shows "told pl c' = told pl c" "told_failure pl c' = told_failure pl c" "scan_told pl c' = scan_told pl c"
  by (simp_all add: scan_told_def told_def told_failure_def same_settingsD(5) [OF assms] fun_eq_iff)

lemma search_step_settings: "keeps (\<lambda>s. same_settings c (ls_Config s)) (search_step M pl prev cur)"
proof -
  have idx: "keeps (\<lambda>s. same_settings c (ls_Config s)) (set_indices i j)" for i j
    by (simp add: keeps_def set_indices_def same_settings_update)
  have "keeps (\<lambda>s. same_settings c (ls_Config s)) (choose_start M prev cur)"
    "keeps (\<lambda>s. same_settings c (ls_Config s)) (choose_end M cur)"
    using idx by (auto simp: keeps_def choose_start_def choose_end_def io_bind_def io_res_def
        split: option.splits res.splits)
  moreover have "keeps (\<lambda>s. same_settings c (ls_Config s)) (search_range M pl)"
    by (simp add: keeps_def search_range_config)
  moreover have "keeps (\<lambda>s. same_settings c (ls_Config s)) advance"
    by (simp add: keeps_def advance_def set_indices_def same_settings_update)
  ultimately show ?thesis unfolding search_step_def by auto
qed

section \<open>What holds all through a run\<close>

text \<open>The files the program does not write, which are all but the log info file \<open>f\<close> and the two
  output files, are as they were when the run began in the state \<open>s0\<close>.\<close>

definition kept_files :: "string \<Rightarrow> ('n, 'o) loop_state \<Rightarrow> 'n world \<Rightarrow> bool" where
  "kept_files f s0 w \<longleftrightarrow> (\<forall>q. q \<noteq> f \<longrightarrow> OutputIdentitiesFile (ls_Config s0) \<noteq> q \<longrightarrow>
     IdentityMetadataFile (ls_Config s0) \<noteq> Some q \<longrightarrow> same_file q (ls_World s0) w)"

definition searched_range ::
  "('n, 'c, 'i, 'o) MonitorLogic \<Rightarrow> ('n, 'o) platform_lib \<Rightarrow> string \<Rightarrow> ('n, 'o) loop_state \<Rightarrow> int64 \<times> int64 \<Rightarrow> bool"
where
  "searched_range M pl f s0 = (\<lambda>(a, b). a \<le> b \<and>
     (\<exists>config w. same_settings (ls_Config s0) config \<and> StartIndex config = Some a \<and> EndIndex config = Some b \<and>
        kept_files f s0 w \<and> finished M pl config w))"

definition run_inv ::
  "('n, 'c, 'i, 'o) MonitorLogic \<Rightarrow> ('n, 'o) platform_lib \<Rightarrow> string \<Rightarrow> ('n, 'o) loop_state \<Rightarrow> ('n, 'o) loop_state \<Rightarrow> bool"
where
  "run_inv M pl f s0 s \<longleftrightarrow> same_settings (ls_Config s0) (ls_Config s) \<and> kept_files f s0 (ls_World s) \<and>
     (\<forall>r \<in> set (ls_Searched s). searched_range M pl f s0 r)"

lemma kept_files_trans:
  "kept_files f s0 w \<Longrightarrow> same_files w w' \<Longrightarrow> kept_files f s0 w'"
  unfolding kept_files_def by (blast intro: same_file_trans same_files_file)

text \<open>The files of trusted certificates are none of those the program writes.\<close>

definition CAs_apart :: "string \<Rightarrow> 'o IdentityMonitorConfiguration \<Rightarrow> bool" where
  "CAs_apart f c \<longleftrightarrow> (\<forall>q \<in> {CARootsFile c, CAIntermediatesFile c}. q \<noteq> [] \<longrightarrow>
     q \<noteq> f \<and> OutputIdentitiesFile c \<noteq> q \<and> IdentityMetadataFile c \<noteq> Some q)"

lemma chain_kept:
  assumes "kept_files f s0 w" and "same_files w w'" and "CAs_apart f (ls_Config s0)"
    and "roots = CARootsFile (ls_Config s0)" and "ints = CAIntermediatesFile (ls_Config s0)"
  shows "ValidateCertificateChain lib w' certs roots ints = ValidateCertificateChain lib (ls_World s0) certs roots ints"
    "ValidatePreCertificateChain lib w' now certs roots ints =
       ValidatePreCertificateChain lib (ls_World s0) now certs roots ints"
proof -
  have "optional_pool lib w' q = optional_pool lib (ls_World s0) q" if "q \<in> {roots, ints}" for q
  proof (cases "q = []")
    case False
    with that assms(3-5) kept_files_trans [OF assms(1,2)] have "same_file q (ls_World s0) w'"
      by (auto simp: CAs_apart_def kept_files_def)
    then show ?thesis by (simp add: optional_pool_def getCertPool_def same_file_reads)
  qed (simp add: optional_pool_def)
  then have "optional_pool lib w' roots = optional_pool lib (ls_World s0) roots"
    "optional_pool lib w' ints = optional_pool lib (ls_World s0) ints" by auto
  then show "ValidateCertificateChain lib w' certs roots ints = ValidateCertificateChain lib (ls_World s0) certs roots ints"
    "ValidatePreCertificateChain lib w' now certs roots ints =
       ValidatePreCertificateChain lib (ls_World s0) now certs roots ints"
    by (simp_all add: ValidateCertificateChain_def ValidatePreCertificateChain_def)
qed

context monitor_logic
begin

lemma search_step_kept:
  assumes "search_step M pl prev cur s = (r, s')" and "run_inv M pl f s0 s"
  shows "kept_files f s0 (ls_World s')"
  unfolding kept_files_def
proof (intro allI impI)
  fix q
  assume q: "q \<noteq> f" "OutputIdentitiesFile (ls_Config s0) \<noteq> q" "IdentityMetadataFile (ls_Config s0) \<noteq> Some q"
  with assms(2) have "same_file q (ls_World s0) (ls_World s)" by (simp add: run_inv_def kept_files_def)
  also have "same_file q (ls_World s) (ls_World s')"
    using search_step_keeps [OF assms(1)] q same_settingsD(1,2) assms(2) unfolding run_inv_def by metis
  finally show "same_file q (ls_World s0) (ls_World s')" .
qed

lemma checked_inv:
  assumes "run_inv M pl f s0 s" and "ml_RunConsistencyCheck M (ls_World s) = (r, w)"
  shows "run_inv M pl f s0 (checked s w)"
  using assms kept_files_trans [OF _ check_keeps] by (auto simp: run_inv_def)

lemma search_step_inv:
  assumes "run_inv M pl f s0 s" and "search_step M pl prev cur s = (r, s')"
  shows "run_inv M pl f s0 s'"
proof -
  have settings: "same_settings (ls_Config s0) (ls_Config s')"
    using keepsD [OF search_step_settings _ assms(2)] assms(1) by (simp add: run_inv_def)
  have "\<forall>r \<in> set (ls_Searched s'). searched_range M pl f s0 r"
  proof (cases "r = Ok () \<and> MonitoredValuesExist (ml_MonitoredValues M)")
    case True
    with assms(2) have step: "search_step M pl prev cur s = (Ok (), s')" by simp
    from search_step_Ok [OF step] True obtain i j where ij: "chosen_start M prev cur (ls_Config s) = Ok i"
      "chosen_end M cur (ls_Config s) = Ok j" and s': "ls_Searched s' = ls_Searched s @ range_of i j" by auto
    have "searched_range M pl f s0 r" if "r \<in> set (range_of i j)" for r
    proof -
      from that obtain a b where ab: "i = Some a" "j = Some b" "r = (a, b)"
        by (auto simp: range_of_def split: option.splits)
      with search_step_finished [OF step] True ij
      have "a \<le> b \<and> finished M pl ((ls_Config s)\<lparr>StartIndex := Some a, EndIndex := Some b\<rparr>) (ls_World s)" by auto
      with assms(1) show ?thesis
        unfolding searched_range_def run_inv_def ab(3)
        by (auto intro!: exI [of _ "(ls_Config s)\<lparr>StartIndex := Some a, EndIndex := Some b\<rparr>"]
            exI [of _ "ls_World s"] same_settings_update)
    qed
    with assms(1) s' show ?thesis by (auto simp: run_inv_def)
  next
    case False
    then have "ls_Searched s' = ls_Searched s"
      using search_step_fails [OF assms(2)] search_step_Ok [of M pl prev cur s s'] assms(2) by auto
    with assms(1) show ?thesis by (simp add: run_inv_def)
  qed
  with settings search_step_kept [OF assms(2,1)] show ?thesis by (simp add: run_inv_def)
qed

lemma run_invariant:
  assumes "run_inv M pl f s0 s" and "monitor_run M pl s = (v, s')"
  shows "run_inv M pl f s0 s'"
  using assms(2)
proof (cases rule: monitor_run_cases)
  case (check_panics p w)
  with checked_inv [OF assms(1)] show ?thesis by blast
next
  case (check_fails err w)
  with checked_inv [OF assms(1) check_fails(1)] show ?thesis by (simp add: run_inv_def)
next
  case (search_stops prev cur w r)
  with checked_inv [OF assms(1)] search_step_inv show ?thesis by blast
next
  case (written prev cur w s2 r w')
  with checked_inv [OF assms(1)] search_step_inv have s2: "run_inv M pl f s0 s2" by blast
  have "kept_files f s0 w'"
    using s2 write_frame [OF written(3)] unfolding run_inv_def kept_files_def by (blast intro: same_file_trans)
  with s2 written(4) show ?thesis by (simp add: run_inv_def)
qed

lemma reachable_run_inv:
  assumes "reachable M pl s0 (p, s)" and "ls_Searched s0 = []"
  shows "run_inv M pl f s0 s"
  using assms(1)
proof (induction "(p, s)" arbitrary: p s)
  case start
  with assms(2) show ?case by (simp add: run_inv_def kept_files_def)
next
  case (step t)
  obtain p1 s1 where t: "t = (p1, s1)" by fastforce
  with step(2) have inv: "run_inv M pl f s0 s1" by blast
  from step(3) [unfolded t] show ?case
  proof (cases rule: loop_step.cases)
    case (run v)
    with inv run_invariant show ?thesis by blast
  next
    case (tick g)
    have "same_files (ls_World s1) (ls_World (pass_time g s1))"
      by (simp add: pass_time_def same_files_def os.defs)
    with inv kept_files_trans tick show ?thesis by (auto simp: run_inv_def pass_time_def)
  qed (use inv in simp)
qed

text \<open>Every index between the first start and the last end lies in a range that was searched.\<close>

lemma index_searched:
  assumes "reachable M pl s0 (p, s)" and "ls_Searched s0 = []" and "ls_Metrics s0 = initMetrics"
    and "ends_known M" and "ls_Searched s \<noteq> []"
    and "fst (hd (ls_Searched s)) < x" and "x \<le> snd (last (ls_Searched s))"
  shows "\<exists>a b. (a, b) \<in> set (ls_Searched s) \<and> a < x \<and> x \<le> b \<and> fst (hd (ls_Searched s)) \<le> a \<and>
    b \<le> snd (last (ls_Searched s)) \<and> searched_range M pl f s0 (a, b)"
proof -
  have inv: "contiguous (ls_Searched s)" "ordered (ls_Searched s)"
    using reachable_inv [OF assms(4,2,3,1)] by (simp_all add: loop_inv_def)
  have "times_searched x (ls_Searched s) = 1"
    using times_searched_contiguous [OF inv assms(5)] assms(6,7) by simp
  then have "filter (\<lambda>(a, b). a < x \<and> x \<le> b) (ls_Searched s) \<noteq> []"
    unfolding times_searched_def by (metis length_0_conv zero_neq_one)
  then obtain a b where "(a, b) \<in> set (ls_Searched s)" "a < x" "x \<le> b"
    by (auto simp: filter_empty_conv)
  moreover have "b \<le> snd (last (ls_Searched s))" using inv calculation(1) by (rule contiguous_end)
  moreover have "fst (hd (ls_Searched s)) \<le> a" using inv calculation(1) by (rule contiguous_start)
  ultimately show ?thesis using reachable_run_inv [OF assms(1,2)] by (auto simp: run_inv_def)
qed

end

section \<open>The indices stay in range\<close>

text \<open>The type of an index is \<open>int64\<close>: what the monitor computes, what the configuration holds and what
  the history records are values of it.\<close>

definition int64_monitor :: "('n, 'c, 'i, 'o) MonitorLogic \<Rightarrow> bool" where
  "int64_monitor M \<longleftrightarrow> (\<forall>prev cur i. ml_GetStartIndex M prev cur = Ok (Some i) \<longrightarrow> int64_range i) \<and>
     (\<forall>cur j. ml_GetEndIndex M cur = Ok (Some j) \<longrightarrow> int64_range j)"

definition int64_indices :: "('n, 'o) loop_state \<Rightarrow> bool" where
  "int64_indices s \<longleftrightarrow> pred_option int64_range (StartIndex (ls_Config s)) \<and>
     pred_option int64_range (EndIndex (ls_Config s)) \<and>
     list_all (\<lambda>(a, b). int64_range a \<and> int64_range b) (ls_Searched s)"

lemma int64_indices_world [simp]: "int64_indices (s\<lparr>ls_World := w\<rparr>) = int64_indices s"
  "int64_indices (s\<lparr>ls_Metrics := m\<rparr>) = int64_indices s" "int64_indices (checked s w) = int64_indices s"
  by (simp_all add: int64_indices_def)

lemma search_range_int64: "keeps int64_indices (search_range M pl)"
proof -
  have "int64_indices s'" if "int64_indices s" "search_range M pl s = (r, s')" for s s' r
  proof (cases "r = Ok ()")
    case True
    with search_range_Ok [of M pl s s'] that show ?thesis
      by (auto simp: int64_indices_def range_of_def split: option.splits)
  next
    case False
    with search_range_fails [OF that(2)] that(1) show ?thesis by (simp add: int64_indices_def only_world_def)
  qed
  then show ?thesis unfolding keeps_def by (metis prod.collapse)
qed

lemma search_step_int64:
  assumes "int64_monitor M"
  shows "keeps int64_indices (search_step M pl prev cur)"
proof -
  have "keeps int64_indices (choose_start M prev cur)" "keeps int64_indices (choose_end M cur)"
    using assms
    by (auto simp: keeps_def choose_start_def choose_end_def io_bind_def io_res_def set_indices_def
        int64_monitor_def int64_indices_def option.pred_set split: option.splits res.splits)
  moreover have "keeps int64_indices advance"
    by (simp add: keeps_def advance_def set_indices_def int64_indices_def)
  ultimately show ?thesis unfolding search_step_def by (auto intro: search_range_int64)
qed

lemma monitor_run_int64:
  assumes "int64_monitor M" and "int64_indices s" and "monitor_run M pl s = (v, s')"
  shows "int64_indices s'"
  using assms(3)
proof (cases rule: monitor_run_cases)
  case (search_stops prev cur w r)
  then show ?thesis using keepsD [OF search_step_int64 [OF assms(1)] _ search_stops(2)] assms(2) by simp
next
  case (written prev cur w s2 r w')
  then show ?thesis using keepsD [OF search_step_int64 [OF assms(1)] _ written(2)] assms(2) by simp
qed (use assms(2) in auto)

lemma reachable_int64:
  assumes "reachable M pl s0 (p, s)" and "int64_monitor M" and "int64_indices s0"
  shows "int64_indices s"
  using assms(1)
proof (induction "(p, s)" arbitrary: p s)
  case start
  with assms(3) show ?case by simp
next
  case (step t)
  obtain p1 s1 where t: "t = (p1, s1)" by fastforce
  with step(2) have "int64_indices s1" by blast
  with step(3) [unfolded t] monitor_run_int64 [OF assms(2)] show ?case
    by (cases rule: loop_step.cases) (auto simp: pass_time_def)
qed

text \<open>What a run keeps, in every state it can reach: the indices are of their type, the rest of the
  configuration and the files of others are as they were.\<close>

definition run_keeps ::
  "('n, 'c, 'i, 'o) MonitorLogic \<Rightarrow> ('n, 'o) platform_lib \<Rightarrow> string \<Rightarrow> ('n, 'o) loop_state \<Rightarrow> bool"
where
  "run_keeps M pl f s0 \<longleftrightarrow> (\<forall>p s. reachable M pl s0 (p, s) \<longrightarrow> int64_indices s \<and>
     same_settings (ls_Config s0) (ls_Config s) \<and> kept_files f s0 (ls_World s))"

context monitor_logic
begin

lemma run_keepsI: "int64_monitor M \<Longrightarrow> ls_Searched s0 = [] \<Longrightarrow> int64_indices s0 \<Longrightarrow> run_keeps M pl f s0"
  using reachable_int64 reachable_run_inv unfolding run_keeps_def run_inv_def by blast

end

section \<open>What holds of every monitor that meets the contract\<close>

text \<open>The finished searches of a run cover every index of their span once, and while the loop goes on the
  next one starts where the last has ended.\<close>

definition covers_once :: "('n, 'c, 'i, 'o) MonitorLogic \<Rightarrow> ('n, 'o) platform_lib \<Rightarrow> ('n, 'o) loop_state \<Rightarrow> bool" where
  "covers_once M pl s0 \<longleftrightarrow> (\<forall>p s x. reachable M pl s0 (p, s) \<longrightarrow>
     times_searched x (ls_Searched s) =
       (if ls_Searched s \<noteq> [] \<and> fst (hd (ls_Searched s)) < x \<and> x \<le> snd (last (ls_Searched s)) then 1 else 0) \<and>
     (p = Running \<or> p = Waiting \<longrightarrow> ls_Searched s \<noteq> [] \<longrightarrow>
        StartIndex (ls_Config s) = Some (snd (last (ls_Searched s)))) \<and>
     logIndexVerificationFailure (ls_Metrics s) \<le> logIndexVerificationTotal (ls_Metrics s))"

lemma covers_onceI:
  assumes "ends_known M" and "ls_Searched s0 = []" and "ls_Metrics s0 = initMetrics"
  shows "covers_once M pl s0"
  unfolding covers_once_def
proof (intro allI impI)
  fix p s x
  assume "reachable M pl s0 (p, s)"
  from reachable_inv [OF assms this] have inv: "contiguous (ls_Searched s)" "ordered (ls_Searched s)"
    "in_loop p \<longrightarrow> ls_Searched s \<noteq> [] \<longrightarrow> StartIndex (ls_Config s) = Some (snd (last (ls_Searched s)))"
    "logIndexVerificationFailure (ls_Metrics s) \<le> logIndexVerificationTotal (ls_Metrics s)"
    by (simp_all add: loop_inv_def)
  have "times_searched x [] = 0" by (simp add: times_searched_def)
  with inv(1,2) have "times_searched x (ls_Searched s) =
      (if ls_Searched s \<noteq> [] \<and> fst (hd (ls_Searched s)) < x \<and> x \<le> snd (last (ls_Searched s)) then 1 else 0)"
    using times_searched_contiguous [of "ls_Searched s" x] by (cases "ls_Searched s = []") simp_all
  with inv(3,4) show "times_searched x (ls_Searched s) =
       (if ls_Searched s \<noteq> [] \<and> fst (hd (ls_Searched s)) < x \<and> x \<le> snd (last (ls_Searched s)) then 1 else 0) \<and>
     (p = Running \<or> p = Waiting \<longrightarrow> ls_Searched s \<noteq> [] \<longrightarrow>
        StartIndex (ls_Config s) = Some (snd (last (ls_Searched s)))) \<and>
     logIndexVerificationFailure (ls_Metrics s) \<le> logIndexVerificationTotal (ls_Metrics s)"
    by (simp add: in_loop_def)
qed

text \<open>A pass that changes the log info file \<open>f\<close> has checked and, if there is something to monitor, has
  finished the search of the chosen range with its notifications.\<close>

definition writes_last :: "('n, 'c, 'i, 'o) MonitorLogic \<Rightarrow> ('n, 'o) platform_lib \<Rightarrow> string \<Rightarrow> bool" where
  "writes_last M pl f \<longleftrightarrow> (\<forall>s v s'. monitor_run M pl s = (v, s') \<longrightarrow>
     OutputIdentitiesFile (ls_Config s) \<noteq> f \<longrightarrow> IdentityMetadataFile (ls_Config s) \<noteq> Some f \<longrightarrow>
     os_files (ls_World s') f \<noteq> os_files (ls_World s) f \<longrightarrow>
     (\<exists>prev cur w. ml_RunConsistencyCheck M (ls_World s) = (Ok (prev, cur), w) \<and>
        (if MonitoredValuesExist (ml_MonitoredValues M) then
           \<exists>i j. chosen_start M prev cur (ls_Config s) = Ok i \<and> chosen_end M cur (ls_Config s) = Ok j \<and>
             ls_Searched s' = ls_Searched s @ range_of i j \<and>
             (\<forall>a b. i = Some a \<longrightarrow> j = Some b \<longrightarrow>
                finished M pl ((ls_Config s)\<lparr>StartIndex := Some a, EndIndex := Some b\<rparr>) w)
         else ls_Searched s' = ls_Searched s)))"

text \<open>A failed check ends nothing and loses nothing.\<close>

definition retries :: "('n, 'c, 'i, 'o) MonitorLogic \<Rightarrow> ('n, 'o) platform_lib \<Rightarrow> bool" where
  "retries M pl \<longleftrightarrow> (\<forall>s err w g es. \<not> ml_Once M \<longrightarrow> ml_RunConsistencyCheck M (ls_World s) = (Fail err, w) \<longrightarrow>
     (\<exists>s'. MonitorLoop M pl (Tick g # es) s = MonitorLoop M pl es (pass_time g s') \<and>
        ls_Config s' = ls_Config s \<and> ls_Searched s' = ls_Searched s \<and> same_files (ls_World s) (ls_World s') \<and>
        logIndexVerificationFailure (ls_Metrics s') = Suc (logIndexVerificationFailure (ls_Metrics s))))"

context monitor_logic
begin

lemma writes_lastI: "writes_last M pl f"
  unfolding writes_last_def
proof (intro allI impI)
  fix s v s'
  assume run: "monitor_run M pl s = (v, s')" and files: "OutputIdentitiesFile (ls_Config s) \<noteq> f"
    "IdentityMetadataFile (ls_Config s) \<noteq> Some f" "os_files (ls_World s') f \<noteq> os_files (ls_World s) f"
  from run_writes_last [OF run files] obtain prev cur w s2 w' where
    check: "ml_RunConsistencyCheck M (ls_World s) = (Ok (prev, cur), w)"
    and step: "search_step M pl prev cur (checked s w) = (Ok (), s2)" and s': "s' = s2\<lparr>ls_World := w'\<rparr>" by blast
  have "if MonitoredValuesExist (ml_MonitoredValues M) then
      \<exists>i j. chosen_start M prev cur (ls_Config s) = Ok i \<and> chosen_end M cur (ls_Config s) = Ok j \<and>
        ls_Searched s' = ls_Searched s @ range_of i j \<and>
        (\<forall>a b. i = Some a \<longrightarrow> j = Some b \<longrightarrow>
           finished M pl ((ls_Config s)\<lparr>StartIndex := Some a, EndIndex := Some b\<rparr>) w)
    else ls_Searched s' = ls_Searched s"
    using search_step_Ok [OF step] search_step_finished [OF step] s' by (auto split: if_splits)
  with check show "\<exists>prev cur w. ml_RunConsistencyCheck M (ls_World s) = (Ok (prev, cur), w) \<and>
      (if MonitoredValuesExist (ml_MonitoredValues M) then
         \<exists>i j. chosen_start M prev cur (ls_Config s) = Ok i \<and> chosen_end M cur (ls_Config s) = Ok j \<and>
           ls_Searched s' = ls_Searched s @ range_of i j \<and>
           (\<forall>a b. i = Some a \<longrightarrow> j = Some b \<longrightarrow>
              finished M pl ((ls_Config s)\<lparr>StartIndex := Some a, EndIndex := Some b\<rparr>) w)
       else ls_Searched s' = ls_Searched s)" by blast
qed

lemma failed_check_retried:
  fixes s :: "('n, 'o) loop_state"
  assumes "\<not> ml_Once M" and "ml_RunConsistencyCheck M (ls_World s) = (Fail err, w)"
  shows "\<exists>s'. MonitorLoop M pl (Tick g # es) s = MonitorLoop M pl es (pass_time g s') \<and>
    ls_Config s' = ls_Config s \<and> ls_Searched s' = ls_Searched s \<and> same_files (ls_World s) (ls_World s') \<and>
    logIndexVerificationFailure (ls_Metrics s') = Suc (logIndexVerificationFailure (ls_Metrics s))"
proof -
  obtain s' where run: "monitor_run M pl s = (Wait, s')"
    and same: "ls_Config s' = ls_Config s" "ls_Searched s' = ls_Searched s" "same_files (ls_World s) (ls_World s')"
    using failed_check_waits [OF assms] by blast
  have "logIndexVerificationFailure (ls_Metrics s') = Suc (logIndexVerificationFailure (ls_Metrics s))"
    using monitor_run_metrics [OF run] assms by simp
  with run same show ?thesis by (intro exI [of _ s']) simp
qed

lemma retriesI: "retries M pl"
  using failed_check_retried unfolding retries_def by blast

end

end
