(* ===== verification/CmdSetup.thy ===== *)
theory CmdSetup
  imports Notifications LogFile GoEncoding
begin

text \<open>
  What the commands share before their loop starts, of \<open>internal/cmd/common.go\<close>: the flags, the
  configuration and its defaults, the TUF client, and the files of trusted certificates that are
  written from the TUF data if the configuration names none.
\<close>

section \<open>Flags\<close>

record MonitorFlags =
  mf_ConfigFile :: string
  mf_ConfigYaml :: string
  mf_Once :: bool
  mf_LogInfoFile :: string
  mf_ServerURL :: string
  mf_Interval :: int64
  mf_UserAgent :: string
  mf_TUFRepository :: string
  mf_TUFRootPath :: string
  mf_MonitorPort :: int64
  mf_CARootsFile :: string
  mf_CAIntermediatesFile :: string
  mf_HTTPSCertChainFile :: string

text \<open>What package \<open>flag\<close> has read from the command line: the value of each flag that was given.\<close>

record command_line =
  cl_config_file :: "string option"
  cl_config :: "string option"
  cl_once :: "bool option"
  cl_file :: "string option"
  cl_monitor_port :: "int64 option"
  cl_url :: "string option"
  cl_interval :: "int64 option"
  cl_user_agent :: "string option"
  cl_tuf_repository :: "string option"
  cl_tuf_root_path :: "string option"
  cl_ca_roots :: "string option"
  cl_ca_intermediates :: "string option"
  cl_https_cert_chain :: "string option"

definition flag_value :: "'a \<Rightarrow> 'a option \<Rightarrow> 'a" where
  "flag_value dflt given = (case given of None \<Rightarrow> dflt | Some v \<Rightarrow> v)"

text \<open>The version of the binary and the platform it was built for.\<close>

record build_info =
  GitVersion :: string
  GOOS :: string
  GOARCH :: string

definition ParseMonitorFlags ::
  "build_info \<Rightarrow> string \<Rightarrow> string \<Rightarrow> string \<Rightarrow> command_line \<Rightarrow> MonitorFlags res"
where
  "ParseMonitorFlags bi defaultServerURL defaultTUFRepository baseUserAgentName args =
     (let caRootsFilePath = flag_value [] (cl_ca_roots args);
          caIntermediatesFilePath = flag_value [] (cl_ca_intermediates args)
      in if caIntermediatesFilePath \<noteq> [] \<and> caRootsFilePath = []
         then Fail (Err ''ca-intermediates must be used together with --ca-roots'')
         else Ok
           \<lparr>mf_ConfigFile = flag_value [] (cl_config_file args),
            mf_ConfigYaml = flag_value [] (cl_config args),
            mf_Once = flag_value True (cl_once args),
            mf_LogInfoFile = flag_value [] (cl_file args),
            mf_ServerURL = flag_value defaultServerURL (cl_url args),
            mf_Interval = flag_value 300000000000 (cl_interval args),
            mf_UserAgent = trim_space (baseUserAgentName @ ''/'' @ GitVersion bi @ '' ('' @ GOOS bi @ ''; '' @
              GOARCH bi @ '') '' @ flag_value [] (cl_user_agent args)),
            mf_TUFRepository = flag_value defaultTUFRepository (cl_tuf_repository args),
            mf_TUFRootPath = flag_value [] (cl_tuf_root_path args),
            mf_MonitorPort = flag_value 9464 (cl_monitor_port args),
            mf_CARootsFile = caRootsFilePath,
            mf_CAIntermediatesFile = caIntermediatesFilePath,
            mf_HTTPSCertChainFile = flag_value [] (cl_https_cert_chain args)\<rparr>)"

section \<open>Configuration\<close>

text \<open>The zero value of the configuration.\<close>

definition zero_config :: "'o IdentityMonitorConfiguration" where
  "zero_config =
     \<lparr>StartIndex = None, EndIndex = None,
      MonitoredValues_of = \<lparr>cm_CertificateIdentities = [], cm_Fingerprints = [], cm_Subjects = [],
        cm_OIDMatchers = \<lparr>om_OIDExtensions = [], om_FulcioExtensions =
          \<lparr>fe_Issuer = [], fe_GithubWorkflowTrigger = [], fe_GithubWorkflowSHA = [], fe_GithubWorkflowName = [],
           fe_GithubWorkflowRepository = [], fe_GithubWorkflowRef = [], fe_BuildSignerURI = [],
           fe_BuildSignerDigest = [], fe_RunnerEnvironment = [], fe_SourceRepositoryURI = [],
           fe_SourceRepositoryDigest = [], fe_SourceRepositoryRef = [], fe_SourceRepositoryIdentifier = [],
           fe_SourceRepositoryOwnerURI = [], fe_SourceRepositoryOwnerIdentifier = [], fe_BuildConfigURI = [],
           fe_BuildConfigDigest = [], fe_BuildTrigger = [], fe_RunInvocationURI = [],
           fe_SourceRepositoryVisibilityAtSigning = []\<rparr>, om_CustomExtensions = []\<rparr>\<rparr>,
      OutputIdentitiesFile = [], OutputIdentitiesFormat = [], LogInfoFile = [], IdentityMetadataFile = None,
      GitHubIssue = None, EmailNotificationSMTP = None, EmailNotificationMailgun = None,
      EmailNotificationSendGrid = None, CARootsFile = [], CAIntermediatesFile = []\<rparr>"

text \<open>\<open>yaml.Unmarshal\<close> into a configuration is the parameter \<open>yaml\<close>.\<close>

definition parsed_config ::
  "(string \<Rightarrow> 'o IdentityMonitorConfiguration \<Rightarrow> 'o IdentityMonitorConfiguration res) \<Rightarrow> MonitorFlags \<Rightarrow>
   'a os_scheme \<Rightarrow> 'o IdentityMonitorConfiguration res"
where
  "parsed_config yaml flags w =
     (if mf_ConfigFile flags \<noteq> [] \<and> mf_ConfigYaml flags \<noteq> []
      then Fail (Err ''error: only one of --config and --config-file should be specified'')
      else
      rbind (if mf_ConfigFile flags \<noteq> [] then
          rbind (rwrap ''error reading from identity monitor configuration file: ''
              (os_ReadFile (mf_ConfigFile flags) w)) (\<lambda>readConfig.
            rwrap ''error parsing identities: '' (yaml readConfig zero_config))
        else Ok zero_config) (\<lambda>config.
      if mf_ConfigYaml flags \<noteq> [] then rwrap ''error parsing identities: '' (yaml (mf_ConfigYaml flags) config)
      else Ok config))"

definition default_output :: "string \<Rightarrow> 'o IdentityMonitorConfiguration \<Rightarrow> 'o IdentityMonitorConfiguration" where
  "default_output defaultOutputFile c =
     (let config = (if OutputIdentitiesFormat c = [] then c\<lparr>OutputIdentitiesFormat := ''text''\<rparr> else c)
      in if OutputIdentitiesFile config = [] then
           config\<lparr>OutputIdentitiesFile := defaultOutputFile @
             (if OutputIdentitiesFormat config = ''text'' then ''.txt''
              else if OutputIdentitiesFormat config = ''json'' then ''.json'' else [])\<rparr>
         else config)"

definition configured_CAs :: "MonitorFlags \<Rightarrow> 'o IdentityMonitorConfiguration \<Rightarrow> 'o IdentityMonitorConfiguration" where
  "configured_CAs flags c =
     c\<lparr>CARootsFile := (if mf_CARootsFile flags \<noteq> [] then mf_CARootsFile flags else CARootsFile c),
       CAIntermediatesFile :=
         (if mf_CAIntermediatesFile flags \<noteq> [] then mf_CAIntermediatesFile flags else CAIntermediatesFile c)\<rparr>"

definition LoadMonitorConfig ::
  "certlib \<Rightarrow> (string \<Rightarrow> 'o IdentityMonitorConfiguration \<Rightarrow> 'o IdentityMonitorConfiguration res) \<Rightarrow>
   MonitorFlags \<Rightarrow> string \<Rightarrow> 'a os_scheme \<Rightarrow> 'o IdentityMonitorConfiguration res"
where
  "LoadMonitorConfig lib yaml flags defaultOutputFile w =
     rbind (parsed_config yaml flags w) (\<lambda>parsed.
       let config = configured_CAs flags (default_output defaultOutputFile parsed)
       in rbind (rwrap ''invalid configuration: '' (Validate lib w config)) (\<lambda>_. Ok config))"

definition ParseAndLoadConfig ::
  "build_info \<Rightarrow> certlib \<Rightarrow> (string \<Rightarrow> 'o IdentityMonitorConfiguration \<Rightarrow> 'o IdentityMonitorConfiguration res) \<Rightarrow>
   string \<Rightarrow> string \<Rightarrow> string \<Rightarrow> string \<Rightarrow> command_line \<Rightarrow> 'a os_scheme \<Rightarrow>
   (MonitorFlags \<times> 'o IdentityMonitorConfiguration) res"
where
  "ParseAndLoadConfig bi lib yaml defaultServerURL defaultTUFRepository defaultOutputFile baseUserAgentName args w =
     rbind (ParseMonitorFlags bi defaultServerURL defaultTUFRepository baseUserAgentName args) (\<lambda>flags.
     rbind (LoadMonitorConfig lib yaml flags defaultOutputFile w) (\<lambda>config. Ok (flags, config)))"

section \<open>The TUF client\<close>

record ('n, 't) tuf_lib =
  DefaultClient :: "('n, 't) io"
  StagingRoot :: string
  StagingMirror :: string
  tuf_New :: "string \<Rightarrow> string \<Rightarrow> ('n, 't) io"

definition GetTUFClient :: "('n, 't) tuf_lib \<Rightarrow> MonitorFlags \<Rightarrow> ('n world, 't) io" where
  "GetTUFClient tuf flags =
     (if mf_TUFRepository flags = ''default'' then
        (if mf_TUFRootPath flags \<noteq> []
         then io_fail (Err ''tuf-root-path is not supported when using the default TUF repository'')
         else net_call (DefaultClient tuf))
      else if mf_TUFRepository flags = ''staging'' then
        (if mf_TUFRootPath flags \<noteq> []
         then io_fail (Err ''tuf-root-path is not supported when using the staging TUF repository'')
         else net_call (tuf_New tuf (StagingRoot tuf) (StagingMirror tuf)))
      else if mf_TUFRootPath flags = []
        then io_fail (Err ''tuf-root-path is required when using a custom TUF repository'')
      else io_bind (io_wrap ''failed to read TUF root path: '' (io_read (os_ReadFile (mf_TUFRootPath flags))))
        (\<lambda>rootBytes. net_call (tuf_New tuf rootBytes (mf_TUFRepository flags))))"

section \<open>Trusted certificates\<close>

text \<open>\<open>os.CreateTemp\<close> with the name that \<open>pick\<close> finds for the pattern, and \<open>os.Remove\<close>.\<close>

definition os_CreateTemp ::
  "(string \<Rightarrow> 'a os_scheme \<Rightarrow> string res) \<Rightarrow> string \<Rightarrow> ('a os_scheme, string) io" where
  "os_CreateTemp pick pat = (\<lambda>w.
     case pick pat w of
       Ok p \<Rightarrow> (Ok p, w\<lparr>os_files := (os_files w)(p \<mapsto> [])\<rparr>)
     | Fail e \<Rightarrow> (Fail e, w)
     | Panic s \<Rightarrow> (Panic s, w))"

definition os_Remove :: "string \<Rightarrow> 'a os_scheme \<Rightarrow> 'a os_scheme" where
  "os_Remove p w = w\<lparr>os_files := (os_files w)(p := None)\<rparr>"

text \<open>A Fulcio authority of the trusted root: the DER bytes of its certificates, \<open>None\<close> for a nil
  pointer. An authority of another type fails the type assertion.\<close>

record FulcioCertificateAuthority =
  ca_Root :: "string option"
  ca_Intermediates :: "string option list"

text \<open>The bytes of \<open>cert.Raw\<close>.\<close>

definition raw_bytes :: "string option \<Rightarrow> string res" where
  "raw_bytes cert = (case cert of None \<Rightarrow> Panic nil_deref | Some der \<Rightarrow> Ok der)"

definition write_pem :: "string \<Rightarrow> string \<Rightarrow> string option \<Rightarrow> ('a os_scheme, unit) io" where
  "write_pem msg f cert =
     io_bind (io_res (raw_bytes cert)) (\<lambda>der.
       io_wrap msg (os_write f (pem_encode ''CERTIFICATE'' der)))"

definition write_authority ::
  "string \<Rightarrow> string \<Rightarrow> FulcioCertificateAuthority option \<Rightarrow> ('a os_scheme, unit) io" where
  "write_authority rootFile intermediateFile ca =
     (case ca of
        None \<Rightarrow> io_res (Panic ''interface conversion: root.CertificateAuthority'')
      | Some fulcioCA \<Rightarrow>
          io_bind (write_pem ''failed to write Fulcio CA root to temp file: '' rootFile (ca_Root fulcioCA)) (\<lambda>_.
            io_each (write_pem ''failed to write Fulcio CA intermediate to temp file: '' intermediateFile)
              (ca_Intermediates fulcioCA)))"

text \<open>The configuration with the names of the two files, and the function that removes them. When an
  error is returned the files are removed, and the caller exits.\<close>

definition ConfigureTrustedCAs ::
  "(string \<Rightarrow> 'a os_scheme \<Rightarrow> string res) \<Rightarrow> 'o IdentityMonitorConfiguration \<Rightarrow>
   FulcioCertificateAuthority option list \<Rightarrow>
   ('a os_scheme, 'o IdentityMonitorConfiguration \<times> ('a os_scheme \<Rightarrow> 'a os_scheme)) io"
where
  "ConfigureTrustedCAs pick config authorities =
     (if CARootsFile config \<noteq> [] then io_return (config, \<lambda>w. w)
      else
      io_bind (io_wrap ''failed to create temp file for Fulcio CA: ''
          (os_CreateTemp pick ''fulcio-root-*.pem'')) (\<lambda>rootFile w1.
        case os_CreateTemp pick ''fulcio-intermediate-*.pem'' w1 of
          (Fail err, w2) \<Rightarrow>
            (Fail (Errorf ''failed to create temp file for Fulcio CA intermediate: '' err), os_Remove rootFile w2)
        | (Panic p, w2) \<Rightarrow> (Panic p, w2)
        | (Ok intermediateFile, w2) \<Rightarrow>
            (let cleanupFiles = (\<lambda>w. os_Remove intermediateFile (os_Remove rootFile w))
             in case io_each (write_authority rootFile intermediateFile) authorities w2 of
                  (Fail err, w3) \<Rightarrow> (Fail err, cleanupFiles w3)
                | (Panic p, w3) \<Rightarrow> (Panic p, w3)
                | (Ok u, w3) \<Rightarrow>
                    (Ok (config\<lparr>CARootsFile := rootFile, CAIntermediatesFile := intermediateFile\<rparr>, cleanupFiles),
                     w3))))"

section \<open>The banner\<close>

text \<open>The lines that \<open>PrintMonitoredValues\<close> prints.\<close>

definition PrintMonitoredValues :: "MonitoredValues \<Rightarrow> string list" where
  "PrintMonitoredValues mvs =
     map (\<lambda>certID.
         if length (ci_Issuers certID) = 0 then ''Monitoring certificate subject '' @ ci_CertSubject certID
         else ''Monitoring certificate subject '' @ ci_CertSubject certID @ '' for issuer(s) '' @
           join '','' (ci_Issuers certID)) (mv_CertificateIdentities mvs) @
     map (\<lambda>fp. ''Monitoring fingerprint '' @ fp) (mv_Fingerprints mvs) @
     map (\<lambda>sub. ''Monitoring subject '' @ sub) (mv_Subjects mvs)"

section \<open>Lemmas\<close>

lemma os_write_Ok:
  "os_write p d w = (Ok (), w') \<Longrightarrow> os_files w p = Some c \<Longrightarrow> os_files w' p = Some (c @ d)"
  by (auto simp: os_write_def Let_def split: option.splits if_splits)

definition bundle_of :: "string list \<Rightarrow> string" where
  "bundle_of ders = concat (map (pem_encode ''CERTIFICATE'') ders)"

definition roots_of :: "FulcioCertificateAuthority option list \<Rightarrow> string list" where
  "roots_of cas = List.map_filter (\<lambda>ca. case ca of None \<Rightarrow> None | Some c \<Rightarrow> ca_Root c) cas"

definition intermediates_of :: "FulcioCertificateAuthority option list \<Rightarrow> string list" where
  "intermediates_of cas =
     concat (map (\<lambda>ca. case ca of None \<Rightarrow> [] | Some c \<Rightarrow> List.map_filter id (ca_Intermediates c)) cas)"

text \<open>What one more certificate adds to a file.\<close>

lemma write_pem_keeps: "f \<noteq> q \<Longrightarrow> keeps (same_file q u) (write_pem msg f cert)"
  unfolding write_pem_def by (intro keeps_intros os_write_keeps)

lemma write_authority_keeps:
  assumes "a \<noteq> q" and "b \<noteq> q"
  shows "keeps (same_file q u) (write_authority a b ca)"
  unfolding write_authority_def using assms
  by (cases ca) (auto intro!: keeps_intros write_pem_keeps)

lemma write_authorities_keeps:
  "a \<noteq> q \<Longrightarrow> b \<noteq> q \<Longrightarrow> keeps (same_file q u) (io_each (write_authority a b) cas)"
  by (intro keeps_intros write_authority_keeps)

lemma write_pem_Ok:
  assumes "write_pem msg f cert w = (Ok (), w')" and "os_files w f = Some c"
  shows "\<exists>der. cert = Some der \<and> os_files w' f = Some (c @ pem_encode ''CERTIFICATE'' der)"
  using assms by (auto simp: write_pem_def res_simps raw_bytes_def dest!: os_write_Ok split: option.splits)

lemma write_pems_Ok:
  "io_each (write_pem msg f) certs w = (Ok (), w') \<Longrightarrow> os_files w f = Some c \<Longrightarrow>
   os_files w' f = Some (c @ bundle_of (List.map_filter id certs))"
proof (induction certs arbitrary: w c)
  case (Cons cert certs)
  then obtain w1 where first: "write_pem msg f cert w = (Ok (), w1)"
    and rest: "io_each (write_pem msg f) certs w1 = (Ok (), w')"
    by (auto simp: res_simps)
  from write_pem_Ok [OF first Cons.prems(2)] obtain der where
    der: "cert = Some der" "os_files w1 f = Some (c @ pem_encode ''CERTIFICATE'' der)" by blast
  from Cons.IH [OF rest der(2)] der(1) show ?case by (simp add: bundle_of_def)
qed (simp add: io_return_def bundle_of_def List.map_filter_def)

lemma write_authority_Ok:
  assumes "write_authority a b ca w = (Ok (), w')" and "a \<noteq> b"
    and "os_files w a = Some x" and "os_files w b = Some y"
  shows "os_files w' a = Some (x @ bundle_of (roots_of [ca])) \<and> os_files w' b = Some (y @ bundle_of (intermediates_of [ca]))"
proof -
  obtain c w1 where ca: "ca = Some c"
    and root: "write_pem ''failed to write Fulcio CA root to temp file: '' a (ca_Root c) w = (Ok (), w1)"
    and ints: "io_each (write_pem ''failed to write Fulcio CA intermediate to temp file: '' b)
      (ca_Intermediates c) w1 = (Ok (), w')"
    using assms(1) by (auto simp: write_authority_def res_simps split: option.splits)
  from write_pem_Ok [OF root assms(3)] obtain der where der: "ca_Root c = Some der"
    "os_files w1 a = Some (x @ pem_encode ''CERTIFICATE'' der)" by blast
  have "os_files w1 b = Some y" using keeps_this_file [OF write_pem_keeps root] assms(2,4) by simp
  from write_pems_Ok [OF ints this] keeps_this_file [OF keeps_each [OF write_pem_keeps] ints, of a] assms(2) der ca
  show ?thesis
    by (simp add: roots_of_def intermediates_of_def bundle_of_def)
qed

lemma write_authorities_Ok:
  "io_each (write_authority a b) cas w = (Ok (), w') \<Longrightarrow> a \<noteq> b \<Longrightarrow> os_files w a = Some x \<Longrightarrow>
   os_files w b = Some y \<Longrightarrow>
   os_files w' a = Some (x @ bundle_of (roots_of cas)) \<and> os_files w' b = Some (y @ bundle_of (intermediates_of cas))"
proof (induction cas arbitrary: w x y)
  case (Cons ca cas)
  then obtain w1 where first: "write_authority a b ca w = (Ok (), w1)"
    and rest: "io_each (write_authority a b) cas w1 = (Ok (), w')"
    by (auto simp: res_simps)
  from write_authority_Ok [OF first Cons.prems(2-4)] Cons.IH [OF rest Cons.prems(2)] show ?case
    by (auto simp: bundle_of_def roots_of_def intermediates_of_def List.map_filter_def)
qed (simp add: io_return_def bundle_of_def roots_of_def intermediates_of_def List.map_filter_def)

text \<open>\<open>os.CreateTemp\<close> makes a new file: the name is not empty, and no file had it.\<close>

definition fresh_names :: "(string \<Rightarrow> 'a os_scheme \<Rightarrow> string res) \<Rightarrow> bool" where
  "fresh_names pick \<longleftrightarrow> (\<forall>pat w p. pick pat w = Ok p \<longrightarrow> p \<noteq> [] \<and> os_files w p = None)"

lemma os_CreateTemp_cases:
  assumes "fresh_names pick" and "os_CreateTemp pick pat w = (r, w1)"
  shows "(\<exists>p. r = Ok p \<and> p \<noteq> [] \<and> os_files w p = None \<and> w1 = w\<lparr>os_files := (os_files w)(p \<mapsto> [])\<rparr>) \<or>
    (\<forall>p. r \<noteq> Ok p) \<and> w1 = w"
proof (cases "pick pat w")
  case (Ok p)
  with assms show ?thesis by (intro disjI1 exI [of _ p]) (auto simp: os_CreateTemp_def fresh_names_def)
qed (use assms in \<open>auto simp: os_CreateTemp_def\<close>)

lemma ConfigureTrustedCAs_cases:
  assumes "fresh_names pick" and "CARootsFile config = []" and "ConfigureTrustedCAs pick config cas w = (r, w')"
  obtains (failed) "\<forall>x. r \<noteq> Ok x" and "(\<forall>p. r \<noteq> Panic p) \<longrightarrow> os_files w' = os_files w"
  | (written) a b w2 where "a \<noteq> []" and "b \<noteq> []" and "a \<noteq> b" and "os_files w a = None" and "os_files w b = None"
      and "os_files w2 = (os_files w)(a \<mapsto> [], b \<mapsto> [])"
      and "io_each (write_authority a b) cas w2 = (Ok (), w')"
      and "r = Ok (config\<lparr>CARootsFile := a, CAIntermediatesFile := b\<rparr>, \<lambda>w. os_Remove b (os_Remove a w))"
proof -
  obtain r1 w1 where c1: "os_CreateTemp pick ''fulcio-root-*.pem'' w = (r1, w1)" by fastforce
  show thesis
  proof (cases r1)
    case (Ok a)
    with os_CreateTemp_cases [OF assms(1) c1] have a: "a \<noteq> []" "os_files w a = None"
      "os_files w1 = (os_files w)(a \<mapsto> [])" by auto
    obtain r2 w2 where c2: "os_CreateTemp pick ''fulcio-intermediate-*.pem'' w1 = (r2, w2)" by fastforce
    show thesis
    proof (cases r2)
      case b: (Ok b)
      with os_CreateTemp_cases [OF assms(1) c2] a have b': "b \<noteq> []" "a \<noteq> b" "os_files w b = None"
        "os_files w2 = (os_files w)(a \<mapsto> [], b \<mapsto> [])" by (auto split: if_splits)
      obtain r3 w3 where c3: "io_each (write_authority a b) cas w2 = (r3, w3)" by fastforce
      have run: "(r, w') = (case r3 of
          Fail e \<Rightarrow> (Fail e, os_Remove b (os_Remove a w3)) | Panic p \<Rightarrow> (Panic p, w3)
        | Ok u \<Rightarrow> (Ok (config\<lparr>CARootsFile := a, CAIntermediatesFile := b\<rparr>, \<lambda>w. os_Remove b (os_Remove a w)), w3))"
        using assms(2,3) c1 c2 c3 Ok b
        by (simp add: ConfigureTrustedCAs_def io_bind_def io_wrap_apply Let_def split: res.splits)
      have other: "os_files w3 q = os_files w q" if "q \<noteq> a" "q \<noteq> b" for q
        using keeps_this_file [OF write_authorities_keeps c3, of q] b' that by simp
      show thesis
      proof (cases r3)
        case (Ok u)
        with run a b' c3 written show thesis by simp
      next
        case (Fail e)
        have "os_files (os_Remove b (os_Remove a w3)) = os_files w"
          using other a b' by (auto simp: os_Remove_def)
        with run Fail failed show thesis by simp
      qed (use run failed in simp)
    next
      case (Fail e)
      with os_CreateTemp_cases [OF assms(1) c2] have "w2 = w1" by simp
      with a have "os_files (os_Remove a w2) = os_files w" by (auto simp: os_Remove_def)
      with assms(2,3) c1 c2 Ok Fail show thesis
        by (intro failed) (auto simp: ConfigureTrustedCAs_def io_bind_def io_wrap_apply)
    next
      case (Panic p)
      with assms(2,3) c1 c2 Ok show thesis
        by (intro failed) (auto simp: ConfigureTrustedCAs_def io_bind_def io_wrap_apply)
    qed
  next
    case (Fail e)
    with os_CreateTemp_cases [OF assms(1) c1] assms(2,3) c1 show thesis
      by (intro failed) (auto simp: ConfigureTrustedCAs_def io_bind_def io_wrap_apply)
  next
    case (Panic p)
    with assms(2,3) c1 show thesis
      by (intro failed) (auto simp: ConfigureTrustedCAs_def io_bind_def io_wrap_apply)
  qed
qed

section \<open>Properties\<close>

text \<open>C26. Without CAs of its own, the configuration gets two new files that hold exactly the root and
  the intermediate certificates of the trusted root's authorities, in order and PEM-encoded, and
  nothing else in it changes. The cleanup function restores all files to what they were, and so
  does every failure.\<close>

theorem trusted_cas_written:
  assumes "fresh_names pick" and "CARootsFile config = []" and "ConfigureTrustedCAs pick config cas w = (r, w')"
  shows "case r of
      Ok (config', cleanup) \<Rightarrow>
        config' = config\<lparr>CARootsFile := CARootsFile config', CAIntermediatesFile := CAIntermediatesFile config'\<rparr> \<and>
        os_files w' = (os_files w)(CARootsFile config' \<mapsto> bundle_of (roots_of cas),
          CAIntermediatesFile config' \<mapsto> bundle_of (intermediates_of cas)) \<and>
        CARootsFile config' \<noteq> CAIntermediatesFile config' \<and>
        os_files (cleanup w') = os_files w
    | Fail e \<Rightarrow> os_files w' = os_files w
    | Panic p \<Rightarrow> True"
  using assms
proof (cases rule: ConfigureTrustedCAs_cases)
  case (written a b w2)
  then have "os_files w' a = Some (bundle_of (roots_of cas))" "os_files w' b = Some (bundle_of (intermediates_of cas))"
    using write_authorities_Ok [OF written(7) written(3), of "[]" "[]"] by simp_all
  moreover have "os_files w' q = os_files w q" if "q \<noteq> a" "q \<noteq> b" for q
    using keeps_this_file [OF write_authorities_keeps written(7), of q] written(6) that by simp
  ultimately have "os_files w' = (os_files w)(a \<mapsto> bundle_of (roots_of cas), b \<mapsto> bundle_of (intermediates_of cas))"
    using written(3) by auto
  moreover from this written(3-5) have "os_files (os_Remove b (os_Remove a w')) = os_files w"
    by (auto simp: os_Remove_def)
  ultimately show ?thesis using written(3,8) by simp
qed (auto split: res.splits)

text \<open>Two names for each pattern, of which the first that is not in use is taken.\<close>

definition demo_pick :: "string \<Rightarrow> 'a os_scheme \<Rightarrow> string res" where
  "demo_pick pat w =
     (if os_files w (CHR ''1'' # pat) = None then Ok (CHR ''1'' # pat)
      else if os_files w (CHR ''2'' # pat) = None then Ok (CHR ''2'' # pat) else Fail (Err ''exists''))"

lemma demo_pick_fresh: "fresh_names demo_pick"
  by (simp add: fresh_names_def demo_pick_def)

lemma demo_cas:
  "ConfigureTrustedCAs demo_pick zero_config [Some \<lparr>ca_Root = Some ''r'', ca_Intermediates = []\<rparr>] demo_os =
     (Ok (zero_config\<lparr>CARootsFile := ''1fulcio-root-*.pem'', CAIntermediatesFile := ''1fulcio-intermediate-*.pem''\<rparr>,
        \<lambda>w. os_Remove ''1fulcio-intermediate-*.pem'' (os_Remove ''1fulcio-root-*.pem'' w)),
      demo_os\<lparr>os_files := [''1fulcio-root-*.pem'' \<mapsto> bundle_of [''r''], ''1fulcio-intermediate-*.pem'' \<mapsto> []]\<rparr>)"
  by (simp add: ConfigureTrustedCAs_def zero_config_def io_bind_def io_wrap_apply os_CreateTemp_def demo_pick_def
      demo_os_def Let_def write_authority_def write_pem_def io_res_def raw_bytes_def os_write_def io_return_def
      bundle_of_def fun_upd_twist)

theorem trusted_cas_written_witness:
  "os_files (os_Remove ''1fulcio-intermediate-*.pem'' (os_Remove ''1fulcio-root-*.pem''
     (demo_os\<lparr>os_files := [''1fulcio-root-*.pem'' \<mapsto> bundle_of [''r''], ''1fulcio-intermediate-*.pem'' \<mapsto> []]\<rparr>))) =
   os_files demo_os"
proof -
  have "CARootsFile zero_config = []" by (simp add: zero_config_def)
  from trusted_cas_written [OF demo_pick_fresh this demo_cas] show ?thesis
    unfolding res.case prod.case by (elim conjE)
qed

definition demo_lib :: certlib where
  "demo_lib =
     \<lparr>regexp_Compile = (\<lambda>e. Ok (\<lambda>s. s = e)), asn1_Unmarshal = (\<lambda>v. Ok (v, [])),
      UnmarshalOtherNameSAN = (\<lambda>_. ([], None)), AppendCertsFromPEM = (\<lambda>s. s \<noteq> []), pem_Decode = (\<lambda>s. s \<noteq> []),
      x509_Verify = (\<lambda>_ _. True), google_Verify = (\<lambda>_ _. True)\<rparr>"

definition demo_cmd_flags :: MonitorFlags where
  "demo_cmd_flags = \<lparr>mf_ConfigFile = [], mf_ConfigYaml = ''x'', mf_Once = True, mf_LogInfoFile = ''log'',
     mf_ServerURL = ''u'', mf_Interval = 1, mf_UserAgent = [], mf_TUFRepository = ''default'', mf_TUFRootPath = [],
     mf_MonitorPort = 9464, mf_CARootsFile = [], mf_CAIntermediatesFile = [], mf_HTTPSCertChainFile = []\<rparr>"

text \<open>C28. What \<open>LoadMonitorConfig\<close> returns has passed the validation; it has a format and an output
  file, by default one with the ending of the format; certificate files given as flags win; and
  nothing else differs from what was parsed. Applying the defaults again changes nothing.\<close>

theorem load_config_spec:
  assumes "LoadMonitorConfig lib yaml flags defaultFile w = Ok c" and "defaultFile \<noteq> []"
  shows "Validate lib w c = Ok () \<and> OutputIdentitiesFormat c \<in> {''text'', ''json''} \<and>
    OutputIdentitiesFile c \<noteq> [] \<and> (mf_ConfigFile flags = [] \<or> mf_ConfigYaml flags = []) \<and>
    (CAIntermediatesFile c = [] \<or> CARootsFile c \<noteq> []) \<and>
    (\<exists>parsed. parsed_config yaml flags w = Ok parsed \<and>
       c = parsed\<lparr>OutputIdentitiesFormat := OutputIdentitiesFormat c,
         OutputIdentitiesFile := (if OutputIdentitiesFile parsed \<noteq> [] then OutputIdentitiesFile parsed
           else defaultFile @ ''.'' @ (if OutputIdentitiesFormat c = ''text'' then ''txt'' else ''json'')),
         CARootsFile := (if mf_CARootsFile flags \<noteq> [] then mf_CARootsFile flags else CARootsFile parsed),
         CAIntermediatesFile := (if mf_CAIntermediatesFile flags \<noteq> [] then mf_CAIntermediatesFile flags
           else CAIntermediatesFile parsed)\<rparr>) \<and>
    configured_CAs flags (default_output defaultFile c) = c"
proof -
  obtain parsed where parsed: "parsed_config yaml flags w = Ok parsed"
    and c: "c = configured_CAs flags (default_output defaultFile parsed)" and valid: "Validate lib w c = Ok ()"
    using assms(1) by (auto simp: LoadMonitorConfig_def Let_def res_simps)
  have "OutputIdentitiesFormat c \<noteq> []"
    by (simp add: c configured_CAs_def default_output_def Let_def)
  with valid have format: "OutputIdentitiesFormat c \<in> {''text'', ''json''}"
    and ints: "CAIntermediatesFile c = [] \<or> CARootsFile c \<noteq> []"
    by (auto simp: Validate_Ok)
  moreover have "mf_ConfigFile flags = [] \<or> mf_ConfigYaml flags = []"
    using parsed by (auto simp: parsed_config_def split: if_splits)
  moreover have "OutputIdentitiesFile c \<noteq> []"
    using assms(2) by (simp add: c configured_CAs_def default_output_def Let_def)
  moreover have "configured_CAs flags (default_output defaultFile c) = c"
  proof -
    have "default_output defaultFile c = c" using calculation by (auto simp: default_output_def Let_def)
    then show ?thesis by (simp only:) (simp add: c configured_CAs_def)
  qed
  moreover have "c = parsed\<lparr>OutputIdentitiesFormat := OutputIdentitiesFormat c,
      OutputIdentitiesFile := (if OutputIdentitiesFile parsed \<noteq> [] then OutputIdentitiesFile parsed
        else defaultFile @ ''.'' @ (if OutputIdentitiesFormat c = ''text'' then ''txt'' else ''json'')),
      CARootsFile := (if mf_CARootsFile flags \<noteq> [] then mf_CARootsFile flags else CARootsFile parsed),
      CAIntermediatesFile := (if mf_CAIntermediatesFile flags \<noteq> [] then mf_CAIntermediatesFile flags
        else CAIntermediatesFile parsed)\<rparr>"
    using format unfolding c
    by (cases "OutputIdentitiesFormat parsed = []"; cases "OutputIdentitiesFile parsed = []")
      (auto simp: configured_CAs_def default_output_def Let_def)
  ultimately show ?thesis using parsed valid by blast
qed

theorem load_config_spec_witness:
  "\<exists>c. LoadMonitorConfig demo_lib (\<lambda>s c. Ok c) demo_cmd_flags ''ids'' demo_os = Ok (c :: unit IdentityMonitorConfiguration) \<and>
     OutputIdentitiesFile c = ''ids.txt''"
proof -
  let ?c = "zero_config\<lparr>OutputIdentitiesFormat := ''text'', OutputIdentitiesFile := ''ids.txt''\<rparr> ::
    unit IdentityMonitorConfiguration"
  have "parsed_config (\<lambda>s c. Ok c) demo_cmd_flags demo_os = Ok (zero_config :: unit IdentityMonitorConfiguration)"
    by (simp add: parsed_config_def demo_cmd_flags_def)
  moreover have "configured_CAs demo_cmd_flags (default_output ''ids'' zero_config) = ?c"
    by (simp add: configured_CAs_def default_output_def demo_cmd_flags_def zero_config_def)
  moreover have "Validate demo_lib demo_os ?c = Ok ()"
    by (simp add: Validate_Ok zero_config_def regexes_ok_def pem_file_ok_def)
  ultimately have run: "LoadMonitorConfig demo_lib (\<lambda>s c. Ok c) demo_cmd_flags ''ids'' demo_os = Ok ?c"
    by (simp add: LoadMonitorConfig_def)
  have "OutputIdentitiesFormat ?c \<in> {''text'', ''json''}" "OutputIdentitiesFile ?c = ''ids.txt''"
    using load_config_spec [OF run] by simp_all
  with run show ?thesis by blast
qed

end
