(* ===== verification/Monitors.thy ===== *)
theory Monitors
  imports RekorV2 CTMonitor Coverage CmdSetup
begin

text \<open>
  The three implementations of \<open>MonitorLogic\<close>: \<open>RekorV1MonitorLogic\<close> and \<open>RekorV2MonitorLogic\<close> of
  \<open>cmd/rekor_monitor/main.go\<close> and \<open>CTMonitorLogic\<close> of \<open>cmd/ct_monitor/main.go\<close>, and what the loop
  does with each of them. The methods have value receivers: what they assign to a field of the
  receiver is lost when they return.
\<close>

section \<open>Notifications\<close>

text \<open>\<open>time.Now().Format(time.RFC822)\<close> is the parameter \<open>now_text\<close>.\<close>

definition notification_context :: "string \<Rightarrow> string \<Rightarrow> ('n \<Rightarrow> string) \<Rightarrow> 'n world \<Rightarrow> NotificationContext" where
  "notification_context name title now_text w =
     CreateNotificationContext name (title @ '' workflow results for '' @ now_text (net w))"

text \<open>An assertion \<open>x.(T)\<close> on a nil interface panics.\<close>

definition asserted :: "'a option \<Rightarrow> 'a res" where
  "asserted x = (case x of None \<Rightarrow> Panic ''interface conversion: interface {} is nil'' | Some y \<Rightarrow> Ok y)"

section \<open>Rekor v1\<close>

definition WriteCheckpoint_v1 ::
  "codec \<Rightarrow> MonitorFlags \<Rightarrow> SignedCheckpoint option \<Rightarrow> (nat \<times> LogInfo) option \<Rightarrow> ('n world, unit) io"
where
  "WriteCheckpoint_v1 cd flags prevCheckpoint cur =
     io_bind (io_res (asserted cur)) (\<lambda>logInfo.
     io_bind (io_res (rwrap ''failed to read latest checkpoint: '' (ReadLatestCheckpoint cd (Some logInfo))))
       (\<lambda>curCheckpoint.
     io_wrap ''failed to write checkpoint: ''
       (WriteCheckpointRekorV1 cd curCheckpoint prevCheckpoint (mf_LogInfoFile flags) False)))"

definition GetStartIndex_v1 :: "SignedCheckpoint \<Rightarrow> (nat \<times> LogInfo) option \<Rightarrow> int64 option res" where
  "GetStartIndex_v1 prev cur =
     rbind (asserted cur) (\<lambda>logInfo.
     rbind (GetCheckpointIndex (Some logInfo) prev) (\<lambda>checkpointStartIndex. Ok (Some checkpointStartIndex)))"

definition GetEndIndex_v1 :: "codec \<Rightarrow> (nat \<times> LogInfo) option \<Rightarrow> int64 option res" where
  "GetEndIndex_v1 cd cur =
     rbind (asserted cur) (\<lambda>logInfo.
     rcatch (ReadLatestCheckpoint cd (Some logInfo)) (\<lambda>err. Ok None) (\<lambda>checkpoint.
     rbind (GetCheckpointIndex (Some logInfo) checkpoint) (\<lambda>checkpointEndIndex. Ok (Some checkpointEndIndex))))"

definition RekorV1MonitorLogic ::
  "'n clock \<Rightarrow> codec \<Rightarrow> 'k sig_lib \<Rightarrow> certlib \<Rightarrow> ('p, 'e) entry_lib \<Rightarrow>
   (models_LogEntry \<Rightarrow> models_LogEntry) \<Rightarrow>
   ((string \<times> LogEntry list) list \<Rightarrow> (string \<times> LogEntry list) list) \<Rightarrow> ('n \<Rightarrow> string) \<Rightarrow>
   'n v1_client \<Rightarrow> 'k \<Rightarrow> MonitorFlags \<Rightarrow> MonitoredValues \<Rightarrow>
   ('n, SignedCheckpoint, nat \<times> LogInfo, 'o) MonitorLogic"
where
  "RekorV1MonitorLogic M cd sl lib el ordE ordM now_text rekorClient verifier flags monitoredValues =
     \<lparr>ml_Interval = mf_Interval flags, ml_MonitoredValues = monitoredValues, ml_Once = mf_Once flags,
      ml_MonitorPort = mf_MonitorPort flags,
      ml_NotificationContextNew = notification_context ''rekor-monitor'' ''rekor-monitor'' now_text,
      ml_RunConsistencyCheck = RunConsistencyCheck M cd sl rekorClient verifier (mf_LogInfoFile flags),
      ml_WriteCheckpoint = WriteCheckpoint_v1 cd flags,
      ml_GetStartIndex = GetStartIndex_v1, ml_GetEndIndex = GetEndIndex_v1 cd,
      ml_IdentitySearch = (\<lambda>config mvs. IdentitySearch M cd lib el ordE ordM config rekorClient mvs)\<rparr>"

section \<open>Rekor v2\<close>

text \<open>The check of one run: the signing config is fetched again and the shards are loaded again if
  it has changed, for this check only. \<open>GetTrustedRoot\<close> is the TUF client's.\<close>

definition RunConsistencyCheck_logic_v2 ::
  "('n, 'c, 'k, 'b) v2_lib \<Rightarrow> codec \<Rightarrow> (Service list \<Rightarrow> Service list) \<Rightarrow>
   ((string \<times> TransparencyLog option) list \<Rightarrow> (string \<times> TransparencyLog option) list) \<Rightarrow>
   ('n, (string \<times> TransparencyLog option) list) io \<Rightarrow> MonitorFlags \<Rightarrow> ('c, 'k) shards \<Rightarrow> string \<Rightarrow>
   ('n world, Checkpoint option \<times> Checkpoint option) io"
where
  "RunConsistencyCheck_logic_v2 L cd srt ord GetTrustedRoot flags rekorShards latestShardOrigin =
     io_bind (RefreshSigningConfig L) (\<lambda>signingConfig.
     io_bind (io_read (\<lambda>w. ShardsNeedUpdating L srt (time_Now L (net w)) rekorShards signingConfig))
       (\<lambda>shouldUpdate.
     io_bind (if shouldUpdate then
         io_bind (io_wrap ''error getting trusted root: '' (net_call GetTrustedRoot)) (\<lambda>trustedRoot.
           io_wrap ''error getting shards: ''
             (GetRekorShards L srt ord trustedRoot signingConfig (mf_UserAgent flags)
                (mf_HTTPSCertChainFile flags)))
       else io_return (rekorShards, latestShardOrigin)) (\<lambda>(shards, latest).
     io_bind (RunConsistencyCheck_v2 L cd shards latest (mf_LogInfoFile flags)) (\<lambda>(prev, cur).
       io_return (prev, Some cur)))))"

definition WriteCheckpoint_v2 ::
  "codec \<Rightarrow> MonitorFlags \<Rightarrow> Checkpoint option \<Rightarrow> Checkpoint option \<Rightarrow> ('n world, unit) io"
where
  "WriteCheckpoint_v2 cd flags prevCheckpoint cur =
     (case cur of
        None \<Rightarrow> io_fail (Err ''cur is not a Checkpoint'')
      | Some curCheckpoint \<Rightarrow>
          io_wrap ''failed to write checkpoint: ''
            (WriteCheckpointRekorV2 cd curCheckpoint prevCheckpoint (mf_LogInfoFile flags) False))"

definition MaxInt64 :: int where
  "MaxInt64 = 9223372036854775807"

definition checkpoint_index :: "Checkpoint \<Rightarrow> int64 option" where
  "checkpoint_index cp = (if cp_Size cp \<le> 0 \<or> cp_Size cp > MaxInt64 then None else Some (i64 (cp_Size cp) - 1))"

definition GetStartIndex_v2 :: "Checkpoint \<Rightarrow> Checkpoint option \<Rightarrow> int64 option res" where
  "GetStartIndex_v2 prevCheckpoint cur = Ok (checkpoint_index prevCheckpoint)"

text \<open>A nil \<open>cur\<close> is let through, and dereferenced.\<close>

definition GetEndIndex_v2 :: "Checkpoint option \<Rightarrow> int64 option res" where
  "GetEndIndex_v2 cur = rbind (field_of cur) (\<lambda>curCheckpoint. Ok (checkpoint_index curCheckpoint))"

definition RekorV2MonitorLogic ::
  "('n, 'c, 'k, 'b) v2_lib \<Rightarrow> codec \<Rightarrow> certlib \<Rightarrow> (Service list \<Rightarrow> Service list) \<Rightarrow>
   ((string \<times> TransparencyLog option) list \<Rightarrow> (string \<times> TransparencyLog option) list) \<Rightarrow>
   ((string \<times> LogEntry list) list \<Rightarrow> (string \<times> LogEntry list) list) \<Rightarrow> ('n \<Rightarrow> string) \<Rightarrow>
   ('n, (string \<times> TransparencyLog option) list) io \<Rightarrow> MonitorFlags \<Rightarrow> ('c, 'k) shards \<Rightarrow> string \<Rightarrow>
   MonitoredValues \<Rightarrow> ('n, Checkpoint, Checkpoint, 'o) MonitorLogic"
where
  "RekorV2MonitorLogic L cd lib srt ord ordM now_text GetTrustedRoot flags rekorShards latestShardOrigin
     monitoredValues =
     \<lparr>ml_Interval = mf_Interval flags, ml_MonitoredValues = monitoredValues, ml_Once = mf_Once flags,
      ml_MonitorPort = mf_MonitorPort flags,
      ml_NotificationContextNew = notification_context ''rekor-monitor-v2'' ''rekor-monitor v2'' now_text,
      ml_RunConsistencyCheck =
        RunConsistencyCheck_logic_v2 L cd srt ord GetTrustedRoot flags rekorShards latestShardOrigin,
      ml_WriteCheckpoint = WriteCheckpoint_v2 cd flags,
      ml_GetStartIndex = GetStartIndex_v2, ml_GetEndIndex = GetEndIndex_v2,
      ml_IdentitySearch = (\<lambda>config mvs. IdentitySearch_v2 cd lib L ordM config rekorShards latestShardOrigin mvs)\<rparr>"

section \<open>Certificate transparency\<close>

definition RunConsistencyCheck_logic_ct ::
  "('n, 'v, 'p) ct_lib \<Rightarrow> codec \<Rightarrow> ((string \<times> 'p CTLog) list \<Rightarrow> (string \<times> 'p CTLog) list) \<Rightarrow>
   (string \<times> 'p CTLog) list \<Rightarrow> MonitorFlags \<Rightarrow>
   (('n, 'v) ct_net world, SignedTreeHead option \<times> SignedTreeHead option) io"
where
  "RunConsistencyCheck_logic_ct L cd ord trustedRoot flags =
     io_bind (RunConsistencyCheck_ct L cd ord trustedRoot (mf_LogInfoFile flags)) (\<lambda>(prev, cur).
       io_return (prev, Some cur))"

definition WriteCheckpoint_ct ::
  "codec \<Rightarrow> MonitorFlags \<Rightarrow> SignedTreeHead option \<Rightarrow> SignedTreeHead option \<Rightarrow> ('n world, unit) io"
where
  "WriteCheckpoint_ct cd flags prevCheckpoint cur =
     (case cur of
        None \<Rightarrow> io_fail (Err ''cur is not a SignedTreeHead'')
      | Some curCheckpoint \<Rightarrow>
          io_wrap ''failed to write checkpoint: ''
            (WriteCTSignedTreeHead cd curCheckpoint prevCheckpoint (mf_LogInfoFile flags) False))"

definition GetStartIndex_ct :: "SignedTreeHead \<Rightarrow> SignedTreeHead option \<Rightarrow> int64 option res" where
  "GetStartIndex_ct prevSTH cur = Ok (Some (i64 (i64 (sth_TreeSize prevSTH) - 1)))"

definition GetEndIndex_ct :: "SignedTreeHead option \<Rightarrow> int64 option res" where
  "GetEndIndex_ct cur = rbind (asserted cur) (\<lambda>currentSTH. Ok (Some (i64 (sth_TreeSize currentSTH))))"

definition CTMonitorLogic ::
  "('n, 'v, 'p) ct_lib \<Rightarrow> codec \<Rightarrow> certlib \<Rightarrow> ((string \<times> 'p CTLog) list \<Rightarrow> (string \<times> 'p CTLog) list) \<Rightarrow>
   ((string \<times> LogEntry list) list \<Rightarrow> (string \<times> LogEntry list) list) \<Rightarrow>
   (('n, 'v) ct_net \<Rightarrow> string) \<Rightarrow> (ct_LogEntry \<Rightarrow> int64) \<Rightarrow> (string \<times> 'p CTLog) list \<Rightarrow> MonitorFlags \<Rightarrow>
   MonitoredValues \<Rightarrow> (('n, 'v) ct_net, SignedTreeHead, SignedTreeHead, 'o) MonitorLogic"
where
  "CTMonitorLogic L cd lib ord ordM now_text now trustedRoot flags monitoredValues =
     \<lparr>ml_Interval = mf_Interval flags, ml_MonitoredValues = monitoredValues, ml_Once = mf_Once flags,
      ml_MonitorPort = mf_MonitorPort flags,
      ml_NotificationContextNew = notification_context ''ct-monitor'' ''ct-monitor'' now_text,
      ml_RunConsistencyCheck = RunConsistencyCheck_logic_ct L cd ord trustedRoot flags,
      ml_WriteCheckpoint = WriteCheckpoint_ct cd flags,
      ml_GetStartIndex = GetStartIndex_ct, ml_GetEndIndex = GetEndIndex_ct,
      ml_IdentitySearch = (\<lambda>config mvs. IdentitySearch_ct cd lib L now ordM config mvs)\<rparr>"

section \<open>What the monitors do to the files\<close>

lemma tls_keeps:
  "keeps (same_files u) (if chain \<noteq> [] then io_wrap p (io_bind (io_read g) (\<lambda>tls. io_return (Some tls)))
     else io_return None)"
  by (intro keeps_intros)

lemma GetRekorShards_keeps: "keeps (same_files u) (GetRekorShards L srt ord logs services ua chain)"
proof -
  have "keeps (same_files u) (add_shard L ord logs ua tls service st)" for tls service st
    unfolding add_shard_def GetLogVerifier_v2_def GetCheckpointKeyIDUnverified_def Let_def
    by (intro keeps_intros net_call_keeps)
  then have "keeps (same_files u) (add_shards L ord logs ua tls ss st)" for tls ss st
    by (induction ss arbitrary: st) (auto intro: keeps_intros)
  then show ?thesis unfolding GetRekorShards_def by (intro keeps_intros)
qed

lemma check_keeps_v2: "keeps (same_files u) (RunConsistencyCheck_logic_v2 L cd srt ord tr flags shards orig)"
  unfolding RunConsistencyCheck_logic_v2_def RunConsistencyCheck_v2_def verify_previous_v2_def
    RefreshSigningConfig_def
  by (intro keeps_intros net_call_keeps GetRekorShards_keeps)

lemma GetEntriesByIndexRange_v2_keeps: "keeps (same_files u) (GetEntriesByIndexRange_v2 L shard start end)"
proof -
  have tile: "keeps (same_files u) (getEntriesFromTile L shard t p)" for t p
    unfolding getEntriesFromTile_def
    by (intro keeps_intros) (simp add: keeps_def apfst_def net_call_keeps [unfolded keeps_def])
  show ?thesis
    unfolding GetEntriesByIndexRange_v2_def unread_entries_def Let_def by (intro keeps_intros tile)
qed

lemma ct_call_keeps: "keeps (same_files u) (ct_call f)"
  unfolding ct_call_def by (rule net_call_keeps)

lemma check_keeps_ct: "keeps (same_files u) (RunConsistencyCheck_logic_ct L cd ord logs flags)"
proof -
  have ensure: "keeps (same_files u) (ensure_verifier L ord logs)"
    using keeps_bind [of "same_files u" "io_res (rwrap ''error loading public key: ''
      (getCTLogVerifier L ord (BaseURI L) logs))" set_verifier] net_call_keeps
    by (auto simp: keeps_def ensure_verifier_def set_verifier_def io_res_def split: option.splits)
  have sth: "keeps (same_files u) (\<lambda>w. ct_call (GetSTH L (get_verifier w)) w)"
    using ct_call_keeps by (auto simp: keeps_def)
  show ?thesis
    unfolding RunConsistencyCheck_logic_ct_def RunConsistencyCheck_ct_def
      verifyCertificateTransparencyConsistency_def Let_def
    by (intro keeps_intros ensure sth ct_call_keeps)
qed

text \<open>The search writes to its two output files only.\<close>

lemmas search_keeps_intros =
  keeps_intros keeps_file [OF GetEntriesByIndexRange_keeps] keeps_file [OF GetEntriesByIndexRange_v2_keeps]
  keeps_file [OF ct_call_keeps] WriteMatchedIdentityEntries_keeps

lemma IdentitySearch_keeps:
  assumes "OutputIdentitiesFile config \<noteq> q" and "IdentityMetadataFile config \<noteq> Some q"
  shows "keeps (same_file q u) (IdentitySearch M cd lib el ordE ordM config cl mvs)"
    and "keeps (same_file q u') (IdentitySearch_v2 cd lib L ordM config shards orig mvs)"
    and "keeps (same_file q u'') (IdentitySearch_ct cd lib Lc now ordM config mvs)"
  unfolding IdentitySearch_def IdentitySearch_v2_def IdentitySearch_ct_def GetCTLogEntries_def Let_def
  by (intro search_keeps_intros assms)+

lemma write_log_keeps:
  assumes "q \<noteq> f"
  shows "keeps (same_file q u) (WriteCheckpointRekorV1 cd c p f force)"
    and "keeps (same_file q u') (WriteCheckpointRekorV2 cd c2 p2 f force)"
    and "keeps (same_file q u'') (WriteCTSignedTreeHead cd c3 p3 f force)"
  using assms v1_log.write_frame [of cd c p f force] v2_log.write_frame [of cd c2 p2 f force]
    ct_log.write_frame [of cd c3 p3 f force]
  unfolding keeps_def same_file_def by (metis prod.collapse)+

lemma WriteCheckpoint_keeps:
  assumes "q \<noteq> mf_LogInfoFile flags"
  shows "keeps (same_file q u) (WriteCheckpoint_v1 cd flags prev cur)"
    and "keeps (same_file q u') (WriteCheckpoint_v2 cd flags prev2 cur2)"
    and "keeps (same_file q u'') (WriteCheckpoint_ct cd flags prev3 cur3)"
  unfolding WriteCheckpoint_v1_def WriteCheckpoint_v2_def WriteCheckpoint_ct_def
  by (intro keeps_intros write_log_keeps assms)+

section \<open>The monitors meet the contract of the loop\<close>

interpretation v1: monitor_logic
  "RekorV1MonitorLogic M cd sl lib el ordE ordM now_text cl k flags mvs" "mf_LogInfoFile flags"
  for M cd sl lib el ordE ordM now_text cl k flags mvs
  by (unfold_locales; unfold RekorV1MonitorLogic_def MonitorLogic.simps)
    (blast intro: keeps_same_files [OF RunConsistencyCheck_keeps] keeps_same_file [OF IdentitySearch_keeps(1)]
      keeps_same_file [OF WriteCheckpoint_keeps(1)])+

interpretation v2: monitor_logic
  "RekorV2MonitorLogic L cd lib srt ord ordM now_text tr flags shards orig mvs" "mf_LogInfoFile flags"
  for L cd lib srt ord ordM now_text tr flags shards orig mvs
  by (unfold_locales; unfold RekorV2MonitorLogic_def MonitorLogic.simps)
    (blast intro: keeps_same_files [OF check_keeps_v2] keeps_same_file [OF IdentitySearch_keeps(2)]
      keeps_same_file [OF WriteCheckpoint_keeps(2)])+

interpretation ct: monitor_logic
  "CTMonitorLogic L cd lib ord ordM now_text now logs flags mvs" "mf_LogInfoFile flags"
  for L cd lib ord ordM now_text now logs flags mvs
  by (unfold_locales; unfold CTMonitorLogic_def MonitorLogic.simps)
    (blast intro: keeps_same_files [OF check_keeps_ct] keeps_same_file [OF IdentitySearch_keeps(3)]
      keeps_same_file [OF WriteCheckpoint_keeps(3)])+

section \<open>The monitors know the end of the log\<close>

lemma ends_known_v1: "ends_known (RekorV1MonitorLogic M cd sl lib el ordE ordM now_text cl k flags mvs)"
  unfolding ends_known_def
proof (intro allI impI)
  fix w prev cur w'
  assume "ml_RunConsistencyCheck (RekorV1MonitorLogic M cd sl lib el ordE ordM now_text cl k flags mvs) w =
    (Ok (prev, cur), w')"
  then have "RunConsistencyCheck M cd sl cl k (mf_LogInfoFile flags) w = (Ok (prev, cur), w')"
    by (simp add: RekorV1MonitorLogic_def)
  from RunConsistencyCheck_Ok [OF this] obtain a info b sth checkpoint where "cur = Some (a, info)"
    "li_SignedTreeHead info = Some (b, sth)" "sc_UnmarshalText cd sth = Ok checkpoint" by blast
  then show "ml_GetEndIndex (RekorV1MonitorLogic M cd sl lib el ordE ordM now_text cl k flags mvs) cur \<noteq> Ok None"
    by (simp add: RekorV1MonitorLogic_def GetEndIndex_v1_def asserted_def ReadLatestCheckpoint_def res_simps)
qed

lemma ends_known_ct: "ends_known (CTMonitorLogic L cd lib ord ordM now_text now logs flags mvs)"
  by (simp add: ends_known_def CTMonitorLogic_def GetEndIndex_ct_def res_simps)

section \<open>The monitors compute 64-bit indices\<close>

lemma int64_v1: "int64_monitor (RekorV1MonitorLogic M cd sl lib el ordE ordM now_text cl k flags mvs)"
  by (auto simp: int64_monitor_def RekorV1MonitorLogic_def GetStartIndex_v1_def GetEndIndex_v1_def
      GetCheckpointIndex_def res_simps)

lemma int64_v2: "int64_monitor (RekorV2MonitorLogic L cd lib srt ord ordM now_text tr flags shards orig mvs)"
  by (auto simp: int64_monitor_def RekorV2MonitorLogic_def GetStartIndex_v2_def GetEndIndex_v2_def
      checkpoint_index_def MaxInt64_def i64_id int64_range_def res_simps split: if_splits)

lemma int64_ct: "int64_monitor (CTMonitorLogic L cd lib ord ordM now_text now logs flags mvs)"
  by (auto simp: int64_monitor_def CTMonitorLogic_def GetStartIndex_ct_def GetEndIndex_ct_def res_simps)

section \<open>A small log\<close>

text \<open>A log of one shard with seven entries; the monitor has not run before, and starts at index 5.\<close>

definition demo_small_client :: "unit v1_client" where
  "demo_small_client = demo_v1_client\<lparr>rpc_GetLogInfo := (\<lambda>n. (Ok (Some (1, \<lparr>li_InactiveShards = [],
     li_SignedTreeHead = Some (4, newline # ''7''), li_TreeID = Some (5, ''tree'')\<rparr>)), n))\<rparr>"

definition demo_flags :: "bool \<Rightarrow> MonitorFlags" where
  "demo_flags once = \<lparr>mf_ConfigFile = [], mf_ConfigYaml = [], mf_Once = once, mf_LogInfoFile = ''log'',
     mf_ServerURL = ''u'', mf_Interval = 1, mf_UserAgent = [], mf_TUFRepository = ''default'', mf_TUFRootPath = [],
     mf_MonitorPort = 9464, mf_CARootsFile = [], mf_CAIntermediatesFile = [], mf_HTTPSCertChainFile = []\<rparr>"

definition demo_v1_logic :: "bool \<Rightarrow> string \<Rightarrow> (unit, SignedCheckpoint, nat \<times> LogInfo, unit) MonitorLogic" where
  "demo_v1_logic once key = RekorV1MonitorLogic demo_clock demo_codec demo_sig_lib demo_certlib demo_entry_lib
     rev rev (\<lambda>_. ''now'') demo_small_client key (demo_flags once) demo_mvs"

definition demo_quiet :: "(unit, unit) platform_lib" where
  "demo_quiet =
     \<lparr>json_Identities = (\<lambda>_. Ok ''[]''), json_Failed = (\<lambda>_. Ok ''[]''), mail_Address = (\<lambda>_. Ok ()),
      mail_NewClient = (\<lambda>_ _ _ _. Ok ()), mail_DialAndSend = (\<lambda>_ _ _ _ m n. (Ok (), n)),
      Issues_Create = (\<lambda>_ _ _ r n. (Ok (), n)), sendgrid_Send = (\<lambda>_ m n. (Ok (), n)),
      mailgun_Send = (\<lambda>_ _ m n. (Ok (), n))\<rparr>"

definition demo_start :: "(unit, unit) loop_state" where
  "demo_start = \<lparr>ls_Config = demo_config\<lparr>StartIndex := Some 5, GitHubIssue := None, EmailNotificationSMTP := None,
       EmailNotificationSendGrid := None\<rparr>,
     ls_Metrics = initMetrics, ls_World = demo_world, ls_Searched = []\<rparr>"

definition demo_info :: "nat \<times> LogInfo" where
  "demo_info = (1, \<lparr>li_InactiveShards = [], li_SignedTreeHead = Some (4, newline # ''7''),
     li_TreeID = Some (5, ''tree'')\<rparr>)"

lemma demo_latest: "ReadLatestCheckpoint demo_codec (Some demo_info) = Ok demo_checkpoint"
  by (simp add: ReadLatestCheckpoint_def demo_info_def demo_reads)

lemma demo_check:
  "RunConsistencyCheck demo_clock demo_codec demo_sig_lib demo_small_client key ''log'' demo_world =
     (if key = ''rekor'' then (Ok (None, Some demo_info), demo_world)
      else (Fail (Errorf ''failed to verify signature of latest checkpoint: ''
        (verify_failed demo_checkpoint)), demo_world))"
proof -
  have info: "GetLogInfo demo_clock demo_small_client demo_world = (Ok (Some demo_info), demo_world)"
    unfolding GetLogInfo_def
    using rpc_first_try [of "rpc_GetLogInfo demo_small_client" demo_world "Some demo_info" "()" demo_clock]
    by (simp add: demo_small_client_def demo_info_def demo_world_def)
  have signed: "verifyLatestCheckpointSignature demo_codec demo_sig_lib (Some demo_info) key =
      (if key = ''rekor'' then Ok demo_checkpoint else Fail (verify_failed demo_checkpoint))"
    by (auto simp: verifyLatestCheckpointSignature_def demo_latest demo_sig_lib_def) (simp_all add: demo_checkpoint_def)
  have "\<not> has_log_info ''log'' demo_world"
    by (simp add: has_log_info_def os_Stat_def demo_world_def)
  with info signed show ?thesis
    by (simp add: RunConsistencyCheck_def io_bind_def io_wrap_apply io_res_def io_read_def io_return_def)
qed

lemma demo_end: "GetEndIndex_v1 demo_codec (Some demo_info) = Ok (Some 6)"
  by (simp add: GetEndIndex_v1_def asserted_def demo_latest GetCheckpointIndex_def)
    (simp add: demo_info_def demo_checkpoint_def i64_def)

text \<open>The first pass finds one identity, and stores the checkpoint.\<close>

lemma demo_search:
  "\<exists>found w. IdentitySearch demo_clock demo_codec demo_certlib demo_entry_lib rev rev
     ((ls_Config demo_start)\<lparr>StartIndex := Some 5, EndIndex := Some 6\<rparr>) demo_small_client demo_mvs demo_world = (Ok (found, []), w) \<and>
   found \<noteq> [] \<and> writable w ''log'' \<and> os_files w ''log'' = None"
proof -
  let ?m = "fingerprint_entry ''fp'' ''fp'' 6 ''uuid''"
  let ?w' = "append_file ''ids'' (identity_line demo_codec ''text'' ?m) demo_world"
  have "GetEntriesByIndexRange demo_clock demo_small_client 5 6 demo_world =
      (Ok (map demo_v1_entry [5 + 1..6]), demo_world)"
    by (rule GetEntriesByIndexRange_serves)
      (simp_all add: serves_def demo_small_client_def demo_v1_client_def demo_clock_def)
  then have entries: "GetEntriesByIndexRange demo_clock demo_small_client 5 6 demo_world =
      (Ok [demo_v1_entry 6], demo_world)" by simp
  have "writable demo_world ''ids''" by (simp add: writable_def demo_world_def)
  then have "WriteIdentity demo_codec ''ids'' ''text'' ?m demo_world = (Ok (), ?w')"
    by (intro WriteIdentity_ok) simp_all
  then have "WriteMatchedIdentityEntries demo_codec ''ids'' ''text'' [?m] None 6 demo_world = (Ok (), ?w')"
    by (simp add: WriteMatchedIdentityEntries_def io_bind_def io_wrap_apply io_return_def)
  then have "IdentitySearch demo_clock demo_codec demo_certlib demo_entry_lib rev rev
      ((ls_Config demo_start)\<lparr>StartIndex := Some 5, EndIndex := Some 6\<rparr>) demo_small_client demo_mvs demo_world =
      (Ok (CreateMonitoredIdentities rev [?m] (CreateIdentitiesList demo_mvs), []), ?w')"
    by (simp add: IdentitySearch_def field_of_def io_bind_def io_res_def io_wrap_apply io_read_def
        entries demo_matched demo_start_def demo_config_def io_return_def)
  moreover have "writable ?w' ''log''" "os_files ?w' ''log'' = None"
    by (simp_all add: writable_def append_file_def demo_world_def)
  moreover have "CreateMonitoredIdentities rev [?m] (CreateIdentitiesList demo_mvs) \<noteq> []"
    using reported_mset [of rev "[?m]" "CreateIdentitiesList demo_mvs"]
    by (auto simp: fingerprint_entry_def demo_mvs_def CreateIdentitiesList_def range_order_rev accepted_def)
  ultimately show ?thesis by blast
qed

lemma demo_pass:
  "\<exists>s. monitor_run (demo_v1_logic once ''rekor'') demo_quiet demo_start = (if once then Leave else Wait, s) \<and>
     ls_Searched s = [(5, 6)] \<and> os_files (ls_World s) ''log'' = Some (backslash_n @ ''7'' @ [newline])"
proof -
  let ?M = "demo_v1_logic once ''rekor''"
  obtain found w where search: "IdentitySearch demo_clock demo_codec demo_certlib demo_entry_lib rev rev
      ((ls_Config demo_start)\<lparr>StartIndex := Some 5, EndIndex := Some 6\<rparr>) demo_small_client demo_mvs demo_world = (Ok (found, []), w)"
    and w: "found \<noteq> []" "writable w ''log''" "os_files w ''log'' = None"
    using demo_search by blast
  have start: "StartIndex (ls_Config demo_start) = Some 5" "EndIndex (ls_Config demo_start) = None"
    "ls_World demo_start = demo_world" "ls_Searched demo_start = []"
    by (simp_all add: demo_start_def demo_config_def)
  have mvs: "MonitoredValuesExist demo_mvs" by (simp add: MonitoredValuesExist_def demo_mvs_def)
  have pool: "CreateNotificationPool ((ls_Config demo_start)\<lparr>StartIndex := i, EndIndex := j\<rparr>) = []" for i j
    by (simp add: CreateNotificationPool_def demo_start_def demo_config_def)
  have notify: "notify ?M demo_quiet found [] s = (Ok (), s)"
    if "ls_Config s = (ls_Config demo_start)\<lparr>StartIndex := Some 5, EndIndex := Some 6\<rparr>" for s :: "(unit, unit) loop_state"
    using that
    by (simp add: notify_def Let_def io_bind_def io_wrap_apply on_world_eq pool io_return_def
        TriggerNotifications_def net_call_def)
  have step: "\<exists>s2. search_step ?M demo_quiet None (Some demo_info) (checked demo_start demo_world) = (Ok (), s2) \<and>
      ls_Searched s2 = [(5, 6)] \<and> ls_World s2 = w"
    using search
    by (simp add: search_step_def demo_v1_logic_def RekorV1MonitorLogic_def mvs io_bind_def choose_start_def
        choose_end_def start demo_end io_res_def set_indices_def search_range_def io_wrap_apply on_world_eq
        notify [unfolded demo_v1_logic_def RekorV1MonitorLogic_def] record_search_def advance_def)
  then obtain s2 where s2: "search_step ?M demo_quiet None (Some demo_info) (checked demo_start demo_world) = (Ok (), s2)"
    "ls_Searched s2 = [(5, 6)]" "ls_World s2 = w" by blast
  have flat: "flatten (newline # ''7'') @ [newline] = backslash_n @ ''7'' @ [newline]"
    by (simp add: flatten_eq newline_def)
  have "writeCheckpointBytes (newline # ''7'') ''log'' w =
      (Ok (), w\<lparr>os_files := (os_files w)(''log'' \<mapsto> backslash_n @ ''7'' @ [newline])\<rparr>)"
    unfolding writeCheckpointBytes_def flat by (simp only: io_wrap_apply os_WriteFile_ok [OF w(2)]) simp
  moreover have "sc_MarshalText demo_codec demo_checkpoint = Ok (newline # ''7'')" "sc_Size demo_checkpoint = 7"
    by (simp_all add: demo_codec_def demo_checkpoint_def itoa_def show_nat.simps)
  ultimately have "ml_WriteCheckpoint ?M None (Some demo_info) w =
      (Ok (), w\<lparr>os_files := (os_files w)(''log'' \<mapsto> backslash_n @ ''7'' @ [newline])\<rparr>)"
    by (simp add: demo_v1_logic_def RekorV1MonitorLogic_def WriteCheckpoint_v1_def asserted_def io_bind_def
        io_res_def io_wrap_apply demo_latest WriteCheckpointRekorV1_def demo_flags_def)
  moreover have "ml_RunConsistencyCheck ?M (ls_World demo_start) = (Ok (None, Some demo_info), demo_world)"
    by (simp add: demo_v1_logic_def RekorV1MonitorLogic_def demo_flags_def start demo_check)
  moreover have "ml_Once ?M = once"
    by (simp add: demo_v1_logic_def RekorV1MonitorLogic_def demo_flags_def)
  ultimately show ?thesis
    using s2 by (simp add: monitor_run_written start)
qed

section \<open>Properties\<close>

text \<open>C20. With \<open>--once\<close> the loop returns: it makes exactly one pass, whatever happens afterwards, and
  leaves the function (or panics). A consistency check that fails on it is not counted as a failure.\<close>

theorem once_returns:
  assumes "ml_Once M"
  shows "MonitorLoop M pl es s = MonitorLoop M pl [] s \<and>
    (fst (MonitorLoop M pl es s) = Stopped \<or> (\<exists>p. fst (MonitorLoop M pl es s) = Crashed p)) \<and>
    logIndexVerificationTotal (ls_Metrics (snd (MonitorLoop M pl es s))) = Suc (logIndexVerificationTotal (ls_Metrics s)) \<and>
    logIndexVerificationFailure (ls_Metrics (snd (MonitorLoop M pl es s))) = logIndexVerificationFailure (ls_Metrics s)"
proof -
  obtain v s' where run: "monitor_run M pl s = (v, s')" by fastforce
  note v = monitor_run_once [OF assms run]
  have "MonitorLoop M pl es s = (phase_after v, s')" for es by (rule MonitorLoop_not_waiting [OF run v])
  moreover have "phase_after v = Stopped \<or> (\<exists>p. phase_after v = Crashed p)" using v by (cases v) simp_all
  ultimately show ?thesis using monitor_run_metrics [OF run] assms by (simp add: run)
qed

theorem once_returns_witness:
  "MonitorLoop (demo_v1_logic True ''rekor'') demo_quiet [Tick id, Tick id] demo_start =
     MonitorLoop (demo_v1_logic True ''rekor'') demo_quiet [] demo_start"
  by (rule conjunct1 [OF once_returns]) (simp add: demo_v1_logic_def RekorV1MonitorLogic_def demo_flags_def)

text \<open>C21. While the loop waits it stays responsive: it has made one check at the start and one for
  each tick; the next tick starts a new pass from the state it is in, and the end of the context
  makes it return at once with that state.\<close>

theorem every_tick_checks:
  assumes "MonitorLoop M pl es s = (Waiting, s')"
  shows "logIndexVerificationTotal (ls_Metrics s') = logIndexVerificationTotal (ls_Metrics s) + Suc (length es) \<and>
    MonitorLoop M pl (es @ Tick g # es') s = MonitorLoop M pl es' (pass_time g s') \<and>
    MonitorLoop M pl (es @ Done # es') s = (Stopped, s')"
  using assms MonitorLoop_total [OF assms] MonitorLoop_append [OF assms] by simp

theorem every_tick_checks_witness:
  "\<exists>s. MonitorLoop (demo_v1_logic False ''rekor'') demo_quiet [] demo_start = (Waiting, s) \<and>
     logIndexVerificationTotal (ls_Metrics s) = 1 \<and>
     MonitorLoop (demo_v1_logic False ''rekor'') demo_quiet [Done] demo_start = (Stopped, s)"
proof -
  obtain s where "MonitorLoop (demo_v1_logic False ''rekor'') demo_quiet [] demo_start = (Waiting, s)"
    using demo_pass [of False] by auto
  from this every_tick_checks [OF this, of _ "[]"] show ?thesis
    by (auto simp: demo_start_def initMetrics_def)
qed

text \<open>Over any run of the v1 monitor, however long and with whatever failures in between, the
  searches that have finished cover every index after the first start up to the last end exactly
  once, and no other index; while the loop goes on, the next search starts where the last one ended.
  The failure counter never exceeds the total.\<close>

theorem searched_once_v1:
  fixes s :: "('n, 'o) loop_state"
  assumes "reachable (RekorV1MonitorLogic M cd sl lib el ordE ordM now_text cl k flags mvs) pl s0 (p, s)"
    and "ls_Searched s0 = []" and "ls_Metrics s0 = initMetrics"
  shows "times_searched x (ls_Searched s) =
      (if ls_Searched s \<noteq> [] \<and> fst (hd (ls_Searched s)) < x \<and> x \<le> snd (last (ls_Searched s)) then 1 else 0) \<and>
    (p = Running \<or> p = Waiting \<longrightarrow> ls_Searched s \<noteq> [] \<longrightarrow>
       StartIndex (ls_Config s) = Some (snd (last (ls_Searched s)))) \<and>
    logIndexVerificationFailure (ls_Metrics s) \<le> logIndexVerificationTotal (ls_Metrics s)"
  using covers_onceI [OF ends_known_v1 assms(2,3), unfolded covers_once_def, rule_format, OF assms(1)] .

theorem searched_once_v1_witness:
  "\<exists>s. reachable (demo_v1_logic False ''rekor'') demo_quiet demo_start (Waiting, s) \<and>
     times_searched 6 (ls_Searched s) = 1 \<and> times_searched 5 (ls_Searched s) = 0 \<and>
     StartIndex (ls_Config s) = Some 6"
proof -
  obtain s where run: "monitor_run (demo_v1_logic False ''rekor'') demo_quiet demo_start = (Wait, s)"
    and s: "ls_Searched s = [(5, 6)]"
    using demo_pass [of False] by auto
  from loop_step.run [OF run] have r: "reachable (demo_v1_logic False ''rekor'') demo_quiet demo_start (Waiting, s)"
    by (auto intro: reachable.intros)
  have "ls_Searched demo_start = []" "ls_Metrics demo_start = initMetrics" by (simp_all add: demo_start_def)
  note searched = searched_once_v1 [OF r [unfolded demo_v1_logic_def] this]
  from searched [of 5] searched [of 6] r s show ?thesis by (intro exI [of _ s]) simp
qed

text \<open>The checkpoint is written last. If one pass of the v1 monitor through the loop changes the
  log info file, then the consistency check has succeeded, and, if there is something to monitor,
  the search up to the current end of the log and all notifications have finished first: whatever
  fails before that leaves the old checkpoint, so that the same entries are searched again.\<close>

theorem checkpoint_written_last_v1:
  fixes s :: "('n, 'o) loop_state"
  assumes "monitor_run (RekorV1MonitorLogic M cd sl lib el ordE ordM now_text cl k flags mvs) pl s = (v, s')"
    and "OutputIdentitiesFile (ls_Config s) \<noteq> mf_LogInfoFile flags"
    and "IdentityMetadataFile (ls_Config s) \<noteq> Some (mf_LogInfoFile flags)"
    and "os_files (ls_World s') (mf_LogInfoFile flags) \<noteq> os_files (ls_World s) (mf_LogInfoFile flags)"
  shows "\<exists>prev cur w. RunConsistencyCheck M cd sl cl k (mf_LogInfoFile flags) (ls_World s) = (Ok (prev, cur), w) \<and>
    (if MonitoredValuesExist mvs then
       \<exists>i j. (case StartIndex (ls_Config s) of
            Some a \<Rightarrow> Ok (Some a)
          | None \<Rightarrow> (case prev of None \<Rightarrow> Ok None | Some c \<Rightarrow> GetStartIndex_v1 c cur)) = Ok i \<and>
         (case EndIndex (ls_Config s) of Some b \<Rightarrow> Ok (Some b) | None \<Rightarrow> GetEndIndex_v1 cd cur) = Ok j \<and>
         ls_Searched s' = ls_Searched s @ (case (i, j) of (Some a, Some b) \<Rightarrow> [(a, b)] | _ \<Rightarrow> [])
     else ls_Searched s' = ls_Searched s)"
  using v1.writes_lastI [unfolded writes_last_def, rule_format, OF assms]
  unfolding chosen_start_def chosen_end_def range_of_def RekorV1MonitorLogic_def MonitorLogic.simps
  by (auto split: if_splits)

theorem checkpoint_written_last_v1_witness:
  "\<exists>s. monitor_run (demo_v1_logic True ''rekor'') demo_quiet demo_start = (Leave, s) \<and>
     os_files (ls_World s) ''log'' \<noteq> None \<and> ls_Searched s = [(5, 6)] \<and>
     (\<exists>prev cur w. RunConsistencyCheck demo_clock demo_codec demo_sig_lib demo_small_client ''rekor'' ''log''
        demo_world = (Ok (prev, cur), w))"
proof -
  obtain s where run: "monitor_run (demo_v1_logic True ''rekor'') demo_quiet demo_start = (Leave, s)"
    and s: "ls_Searched s = [(5, 6)]" "os_files (ls_World s) ''log'' \<noteq> None"
    using demo_pass [of True] by auto
  have "os_files (ls_World s) (mf_LogInfoFile (demo_flags True)) \<noteq>
      os_files (ls_World demo_start) (mf_LogInfoFile (demo_flags True))"
    using s by (simp add: demo_flags_def demo_start_def demo_world_def)
  from checkpoint_written_last_v1 [OF run [unfolded demo_v1_logic_def] _ _ this] have
    "\<exists>prev cur w. RunConsistencyCheck demo_clock demo_codec demo_sig_lib demo_small_client ''rekor'' ''log''
       demo_world = (Ok (prev, cur), w)"
    by (auto simp: demo_flags_def demo_start_def demo_config_def)
  with run s show ?thesis by blast
qed

text \<open>A failed consistency check of the v1 monitor, unless it runs only once, ends nothing and
  loses nothing: the failure is counted, files, configuration and the next start index are as
  before, and the next tick makes the loop go on from there.\<close>

theorem failed_check_retried_v1:
  fixes s :: "('n, 'o) loop_state"
  assumes "\<not> mf_Once flags"
    and "RunConsistencyCheck M cd sl cl k (mf_LogInfoFile flags) (ls_World s) = (Fail err, w)"
  shows "\<exists>s'. MonitorLoop (RekorV1MonitorLogic M cd sl lib el ordE ordM now_text cl k flags mvs) pl
      (Tick g # es) s =
      MonitorLoop (RekorV1MonitorLogic M cd sl lib el ordE ordM now_text cl k flags mvs) pl es (pass_time g s') \<and>
    ls_Config s' = ls_Config s \<and> ls_Searched s' = ls_Searched s \<and> same_files (ls_World s) (ls_World s') \<and>
    logIndexVerificationFailure (ls_Metrics s') = Suc (logIndexVerificationFailure (ls_Metrics s))"
  using assms by (intro v1.failed_check_retried) (simp_all add: RekorV1MonitorLogic_def)

theorem failed_check_retried_v1_witness:
  "\<exists>s. MonitorLoop (demo_v1_logic False ''other'') demo_quiet [Tick id] demo_start =
       MonitorLoop (demo_v1_logic False ''other'') demo_quiet [] (pass_time id s) \<and>
     StartIndex (ls_Config s) = Some 5 \<and> logIndexVerificationFailure (ls_Metrics s) = 1"
proof -
  have start: "\<not> mf_Once (demo_flags False)" "ls_World demo_start = demo_world"
    "mf_LogInfoFile (demo_flags False) = ''log''" "StartIndex (ls_Config demo_start) = Some 5"
    "logIndexVerificationFailure (ls_Metrics demo_start) = 0"
    by (simp_all add: demo_flags_def demo_start_def initMetrics_def)
  have "RunConsistencyCheck demo_clock demo_codec demo_sig_lib demo_small_client ''other''
      (mf_LogInfoFile (demo_flags False)) (ls_World demo_start) =
      (Fail (Errorf ''failed to verify signature of latest checkpoint: '' (verify_failed demo_checkpoint)), demo_world)"
    by (simp add: start demo_check)
  from failed_check_retried_v1 [OF start(1) this, of demo_certlib demo_entry_lib rev rev "\<lambda>_. ''now''" demo_mvs
      demo_quiet id "[]"]
  show ?thesis unfolding demo_v1_logic_def by (auto simp: start)
qed

text \<open>When the newest checkpoint of the v2 monitor lies before the index where the next search
  would start, as when a new shard has taken over, the pass ends the loop: the search is not made, no
  file is written, and the stored checkpoint stays the one of the old shard.\<close>

theorem rollover_stops_v2:
  fixes s :: "('n, 'o) loop_state"
  assumes "RunConsistencyCheck_logic_v2 L cd srt ord tr flags shards orig (ls_World s) = (Ok (prev, Some cp), w)"
    and "StartIndex (ls_Config s) = Some i" and "EndIndex (ls_Config s) = None" and "MonitoredValuesExist mvs"
    and "0 < cp_Size cp" and "cp_Size cp \<le> MaxInt64" and "cp_Size cp - 1 < i"
  shows "\<exists>s'. monitor_run (RekorV2MonitorLogic L cd lib srt ord ordM now_text tr flags shards orig mvs) pl s =
      (Leave, s') \<and> same_files (ls_World s) (ls_World s') \<and> ls_Searched s' = ls_Searched s"
proof -
  let ?M = "RekorV2MonitorLogic L cd lib srt ord ordM now_text tr flags shards orig mvs ::
    ('n, Checkpoint, Checkpoint, 'o) MonitorLogic"
  have check: "ml_RunConsistencyCheck ?M (ls_World s) = (Ok (prev, Some cp), w)"
    using assms(1) by (simp add: RekorV2MonitorLogic_def)
  have files: "same_files (ls_World s) w" by (rule v2.check_keeps [OF check])
  have "i64 (cp_Size cp) = cp_Size cp" using assms(5,6) by (simp add: i64_id int64_range_def MaxInt64_def)
  then have "search_step ?M pl prev (Some cp) (checked s w) =
      (Fail (Err (''start index '' @ itoa i @ '' must be less or equal than end index '' @ itoa (cp_Size cp - 1))),
       (checked s w)\<lparr>ls_Config := (ls_Config s)\<lparr>EndIndex := Some (cp_Size cp - 1)\<rparr>\<rparr>)"
    using assms(2-7)
    by (simp add: search_step_def io_bind_def choose_start_def choose_end_def search_range_def io_res_def
        set_indices_def RekorV2MonitorLogic_def GetEndIndex_v2_def field_of_def checkpoint_index_def)
  from monitor_run_search_fails [OF check this] files show ?thesis by simp
qed

theorem rollover_stops_v2_witness:
  "\<exists>s. monitor_run (RekorV2MonitorLogic (demo_v2_lib\<lparr>GetSigningConfig := \<lambda>n. (Ok
        [demo_service ''https://b'' 2, demo_service ''https://a'' 1], n)\<rparr>) demo_codec demo_certlib demo_sort rev rev
       (\<lambda>_. ''now'') (\<lambda>n. (Ok [], n)) (demo_flags False)
       [(''b'', demo_shard ''b''), (''a'', demo_shard ''a'')] ''b'' demo_mvs) demo_quiet
     (demo_start\<lparr>ls_Config := (ls_Config demo_start)\<lparr>StartIndex := Some 500\<rparr>, ls_World := demo_v2_world\<rparr>) = (Leave, s) \<and>
   os_files (ls_World s) ''log'' = os_files demo_v2_world ''log''"
proof -
  let ?services = "[demo_service ''https://b'' 2, demo_service ''https://a'' 1]"
  let ?L = "demo_v2_lib\<lparr>GetSigningConfig := \<lambda>n. (Ok ?services, n)\<rparr>"
  let ?shards = "[(''b'', demo_shard ''b''), (''a'', demo_shard ''a'')]"
  let ?new = "\<lparr>cp_Origin = ''b'', cp_Size = 300, cp_Hash = ''h''\<rparr>"
  let ?s = "demo_start\<lparr>ls_Config := (ls_Config demo_start)\<lparr>StartIndex := Some 500\<rparr>, ls_World := demo_v2_world\<rparr>"
  have "filterV2Shards demo_sort 1000 ?services = ?services"
    by (simp add: filterV2Shards_def demo_sort_def demo_service_def)
  then have "ShardsNeedUpdating ?L demo_sort 1000 ?shards ?services = Ok False"
    by (simp add: ShardsNeedUpdating_def demo_v2_calls demo_service_def getOrigin_def demo_shard_def eval_nat_numeral)
  moreover have "RefreshSigningConfig ?L demo_v2_world = (Ok ?services, demo_v2_world)"
    by (simp add: RefreshSigningConfig_def io_bind_def io_wrap_apply net_call_def demo_v2_lib_def)
  moreover have "RunConsistencyCheck_v2 ?L demo_codec ?shards ''b'' ''log'' demo_v2_world =
      (Ok (Some \<lparr>cp_Origin = ''a'', cp_Size = 7, cp_Hash = []\<rparr>, ?new), demo_v2_world)"
    by (simp add: RunConsistencyCheck_v2_def verify_previous_v2_def client_of_def io_bind_def io_res_def
        io_wrap_apply io_read_def io_return_def demo_v2_reads demo_v2_calls demo_shard_def)
  ultimately have "RunConsistencyCheck_logic_v2 ?L demo_codec demo_sort rev (\<lambda>n. (Ok [], n)) (demo_flags False)
      ?shards ''b'' (ls_World ?s) =
      (Ok (Some \<lparr>cp_Origin = ''a'', cp_Size = 7, cp_Hash = []\<rparr>, Some ?new), demo_v2_world)"
    by (simp add: RunConsistencyCheck_logic_v2_def io_bind_def io_read_def io_return_def demo_v2_calls demo_flags_def)
  from rollover_stops_v2 [OF this, of 500 demo_mvs demo_certlib rev "\<lambda>_. ''now''" demo_quiet] show ?thesis
    by (auto simp: demo_start_def demo_config_def MaxInt64_def MonitoredValuesExist_def demo_mvs_def dest!: same_filesD)
qed

end
