(* ===== verification/Mains.thy ===== *)
theory Mains
  imports Monitors
begin

text \<open>
  The two commands, \<open>cmd/rekor_monitor/main.go\<close> and \<open>cmd/ct_monitor/main.go\<close>: from the command line
  to the loop, and to the exit status. \<open>log.Fatal\<close> prints and exits with status 1 without running
  deferred functions; a panic runs them.
\<close>

section \<open>What a command is given\<close>

text \<open>The trusted root of the TUF repository, as far as the monitors read it.\<close>

record 'p trusted_root =
  tr_FulcioCAs :: "FulcioCertificateAuthority option list"
  tr_RekorLogs :: "(string \<times> TransparencyLog option) list"
  tr_CTLogs :: "(string \<times> 'p CTLog) list"

text \<open>Code outside the repository, the orders in which maps are ranged over (\<open>rng_\<close>), and the events
  of the loop.\<close>

record ('n, 't, 'o, 'p) cmd_env =
  env_build :: build_info
  env_args :: command_line
  env_yaml :: "string \<Rightarrow> 'o IdentityMonitorConfiguration \<Rightarrow> 'o IdentityMonitorConfiguration res"
  env_certlib :: certlib
  env_codec :: codec
  env_tuf :: "('n, 't) tuf_lib"
  env_GetTrustedRoot :: "'t \<Rightarrow> ('n, 'p trusted_root) io"
  env_GetSigningConfig :: "'t \<Rightarrow> ('n, Service list) io"
  env_pick :: "string \<Rightarrow> 'n world \<Rightarrow> string res"
  env_platforms :: "('n, 'o) platform_lib"
  env_now_text :: "'n \<Rightarrow> string"
  rng_OIDs :: "(string \<times> string list) list \<Rightarrow> (string \<times> string list) list"
  rng_values :: "string list \<Rightarrow> string list"
  rng_identities :: "(string \<times> LogEntry list) list \<Rightarrow> (string \<times> LogEntry list) list"
  env_events :: "'n event list"

record ('n, 't, 'o, 'p, 'k, 'q, 'e, 'c, 'l, 'b) rekor_env = "('n, 't, 'o, 'p) cmd_env" +
  env_clock :: "'n clock"
  env_sig :: "'k sig_lib"
  env_entry :: "('q, 'e) entry_lib"
  env_GetRekorClient :: "string \<Rightarrow> string \<Rightarrow> tls_config option \<Rightarrow> 'n v1_client res"
  env_v2 :: "'t \<Rightarrow> ('n, 'c, 'l, 'b) v2_lib"
  env_sort :: "Service list \<Rightarrow> Service list"
  rng_logs :: "(string \<times> TransparencyLog option) list \<Rightarrow> (string \<times> TransparencyLog option) list"
  rng_entries :: "models_LogEntry \<Rightarrow> models_LogEntry"

record ('n, 't, 'o, 'p, 'v) ct_env = "(('n, 'v) ct_net, 't, 'o, 'p) cmd_env" +
  env_NewCTClient :: "string \<Rightarrow> string \<Rightarrow> tls_config option \<Rightarrow> ('n, 'v, 'p) ct_lib res"
  env_now :: "ct_LogEntry \<Rightarrow> int64"
  rng_ctlogs :: "(string \<times> 'p CTLog) list \<Rightarrow> (string \<times> 'p CTLog) list"

section \<open>The end of a command\<close>

text \<open>\<open>StillRunning\<close>: the loop waits for more events than were given.\<close>

datatype exit = Exit int | Fatal go_error | Panicked string | StillRunning

fun loop_exit :: "phase \<Rightarrow> exit" where
  "loop_exit Running = StillRunning"
| "loop_exit Waiting = StillRunning"
| "loop_exit Stopped = Exit 0"
| "loop_exit (Crashed p) = Panicked p"

text \<open>\<open>cmd.MonitorLoop(logic); return 0\<close>.\<close>

definition run_loop ::
  "('n, 'c, 'i, 'o) MonitorLogic \<Rightarrow> ('n, 'o) platform_lib \<Rightarrow> 'n event list \<Rightarrow>
   'o IdentityMonitorConfiguration \<Rightarrow> 'n world \<Rightarrow> exit \<times> 'n world"
where
  "run_loop M pl es config w =
     (case MonitorLoop M pl es
         \<lparr>ls_Config = config, ls_Metrics = initMetrics, ls_World = w, ls_Searched = []\<rparr> of
        (p, s) \<Rightarrow> (loop_exit p, ls_World s))"

text \<open>\<open>if err != nil { log.Printf(...); return 1 }\<close> and \<open>if err != nil { log.Fatal(err) }\<close>.\<close>

definition or_exit :: "(go_error \<Rightarrow> exit) \<Rightarrow> ('w, 'a) io \<Rightarrow> ('a \<Rightarrow> 'w \<Rightarrow> exit \<times> 'w) \<Rightarrow> 'w \<Rightarrow> exit \<times> 'w" where
  "or_exit h m f = (\<lambda>w.
     case m w of
       (Ok x, w') \<Rightarrow> f x w'
     | (Fail err, w') \<Rightarrow> (h err, w')
     | (Panic p, w') \<Rightarrow> (Panicked p, w'))"

abbreviation or_return_1 :: "('w, 'a) io \<Rightarrow> ('a \<Rightarrow> 'w \<Rightarrow> exit \<times> 'w) \<Rightarrow> 'w \<Rightarrow> exit \<times> 'w" where
  "or_return_1 \<equiv> or_exit (\<lambda>_. Exit 1)"

abbreviation or_fatal :: "('w, 'a) io \<Rightarrow> ('a \<Rightarrow> 'w \<Rightarrow> exit \<times> 'w) \<Rightarrow> 'w \<Rightarrow> exit \<times> 'w" where
  "or_fatal \<equiv> or_exit Fatal"

text \<open>\<open>defer cleanup()\<close>: runs when the function returns or panics.\<close>

definition deferred :: "('w \<Rightarrow> 'w) \<Rightarrow> ('w \<Rightarrow> exit \<times> 'w) \<Rightarrow> 'w \<Rightarrow> exit \<times> 'w" where
  "deferred cleanup f = (\<lambda>w.
     case f w of (x, w') \<Rightarrow> (x, case x of StillRunning \<Rightarrow> w' | Fatal e \<Rightarrow> w' | _ \<Rightarrow> cleanup w'))"

definition tls_of :: "string \<Rightarrow> ('a os_scheme, tls_config option) io" where
  "tls_of chain =
     (if chain \<noteq> [] then io_bind (io_read (TLSConfigForCA chain)) (\<lambda>tls. io_return (Some tls))
      else io_return None)"

section \<open>The Rekor monitor\<close>

definition getRekorVersion :: "Service list \<Rightarrow> string \<Rightarrow> int" where
  "getRekorVersion allRekorServices serverURL =
     fold (\<lambda>service rekorVersion. if serverURL = svc_URL service then svc_MajorAPIVersion service else rekorVersion)
       allRekorServices 1"

definition monitored_of :: "'o IdentityMonitorConfiguration \<Rightarrow> OIDExtension list \<Rightarrow> MonitoredValues" where
  "monitored_of config allOIDMatchers =
     \<lparr>mv_CertificateIdentities = cm_CertificateIdentities (MonitoredValues_of config),
      mv_Fingerprints = cm_Fingerprints (MonitoredValues_of config),
      mv_Subjects = cm_Subjects (MonitoredValues_of config), mv_OIDMatchers = allOIDMatchers\<rparr>"

definition rendered :: "('n, 't, 'o, 'p, 'z) cmd_env_scheme \<Rightarrow> 'o IdentityMonitorConfiguration \<Rightarrow> OIDExtension list res"
where
  "rendered E config =
     RenderOIDMatchers (rng_OIDs E) (rng_values E) (cm_OIDMatchers (MonitoredValues_of config))"

definition mainLoopV1 ::
  "('n, 't, 'o, 'p, 'k, 'q, 'e, 'c, 'l, 'b) rekor_env \<Rightarrow> MonitorFlags \<Rightarrow> 'o IdentityMonitorConfiguration \<Rightarrow>
   'p trusted_root \<Rightarrow> 'n world \<Rightarrow> exit \<times> 'n world"
where
  "mainLoopV1 E flags config trustedRoot =
     or_return_1 (tls_of (mf_HTTPSCertChainFile flags)) (\<lambda>tlsConfig.
     or_return_1 (io_res (env_GetRekorClient E (mf_ServerURL flags) (mf_UserAgent flags) tlsConfig)) (\<lambda>rekorClient.
     or_return_1 (GetLogVerifier (env_clock E) (env_codec E) (env_sig E) rekorClient (rng_logs E)
         (tr_RekorLogs trustedRoot)) (\<lambda>verifier.
     or_return_1 (io_res (rendered E config)) (\<lambda>allOIDMatchers.
       run_loop (RekorV1MonitorLogic (env_clock E) (env_codec E) (env_sig E) (env_certlib E) (env_entry E)
           (rng_entries E) (rng_identities E) (env_now_text E) rekorClient verifier flags
           (monitored_of config allOIDMatchers))
         (env_platforms E) (env_events E) config))))"

definition mainLoopV2 ::
  "('n, 't, 'o, 'p, 'k, 'q, 'e, 'c, 'l, 'b) rekor_env \<Rightarrow> 't \<Rightarrow> MonitorFlags \<Rightarrow> 'o IdentityMonitorConfiguration \<Rightarrow>
   ('c, 'l) shards \<Rightarrow> string \<Rightarrow> 'n world \<Rightarrow> exit \<times> 'n world"
where
  "mainLoopV2 E tufClient flags config rekorShards latestShardOrigin =
     or_return_1 (io_res (rendered E config)) (\<lambda>allOIDMatchers.
       run_loop (RekorV2MonitorLogic (env_v2 E tufClient) (env_codec E) (env_certlib E) (env_sort E) (rng_logs E)
           (rng_identities E) (env_now_text E)
           (io_bind (env_GetTrustedRoot E tufClient) (\<lambda>trustedRoot. io_return (tr_RekorLogs trustedRoot)))
           flags rekorShards latestShardOrigin (monitored_of config allOIDMatchers))
         (env_platforms E) (env_events E) config)"

definition rekor_mainWithReturn ::
  "('n, 't, 'o, 'p, 'k, 'q, 'e, 'c, 'l, 'b) rekor_env \<Rightarrow> 'n world \<Rightarrow> exit \<times> 'n world"
where
  "rekor_mainWithReturn E =
     or_fatal (io_read (ParseAndLoadConfig (env_build E) (env_certlib E) (env_yaml E)
         ''https://rekor.sigstore.dev'' ''default'' ''identities'' ''rekor-monitor'' (env_args E))) (\<lambda>(flags, config).
     or_fatal (GetTUFClient (env_tuf E) flags) (\<lambda>tufClient.
     or_fatal (net_call (env_GetTrustedRoot E tufClient)) (\<lambda>trustedRoot.
     or_fatal (net_call (env_GetSigningConfig E tufClient)) (\<lambda>allRekorServices.
     or_fatal (ConfigureTrustedCAs (env_pick E) config (tr_FulcioCAs trustedRoot)) (\<lambda>(config, cleanupTrustedCAs).
       let rekorVersion = getRekorVersion allRekorServices (mf_ServerURL flags);
           flags = (if mf_LogInfoFile flags = []
             then flags\<lparr>mf_LogInfoFile := ''logInfo.v'' @ itoa rekorVersion @ ''.txt''\<rparr> else flags)
       in deferred cleanupTrustedCAs
         (if rekorVersion = 1 then mainLoopV1 E flags config trustedRoot
          else if rekorVersion = 2 then
            or_return_1 (GetRekorShards (env_v2 E tufClient) (env_sort E) (rng_logs E) (tr_RekorLogs trustedRoot)
                allRekorServices (mf_UserAgent flags) (mf_HTTPSCertChainFile flags))
              (\<lambda>(rekorShards, latestShardOrigin).
                 mainLoopV2 E tufClient flags config rekorShards latestShardOrigin)
          else Pair (Exit 1)))))))"

section \<open>The certificate transparency monitor\<close>

text \<open>A new client has no verifier yet. The fingerprints and subjects of the configuration are not
  monitored; an error in its matchers is printed, and the monitor goes on without any.\<close>

definition ct_mainWithReturn ::
  "('n, 't, 'o, 'p, 'v) ct_env \<Rightarrow> ('n, 'v) ct_net world \<Rightarrow> exit \<times> ('n, 'v) ct_net world"
where
  "ct_mainWithReturn E =
     or_fatal (io_read (ParseAndLoadConfig (env_build E) (env_certlib E) (env_yaml E)
         ''https://ctfe.sigstore.dev/2022'' ''default'' ''ctIdentities'' ''ct-monitor'' (env_args E))) (\<lambda>(flags, config).
     let flags = (if mf_LogInfoFile flags = [] then flags\<lparr>mf_LogInfoFile := ''ctLogInfo.txt''\<rparr> else flags) in
     or_fatal (GetTUFClient (env_tuf E) flags) (\<lambda>tufClient.
     or_fatal (net_call (env_GetTrustedRoot E tufClient)) (\<lambda>trustedRoot.
     or_fatal (ConfigureTrustedCAs (env_pick E) config (tr_FulcioCAs trustedRoot)) (\<lambda>(config, cleanupTrustedCAs).
       deferred cleanupTrustedCAs
         (or_return_1 (tls_of (mf_HTTPSCertChainFile flags)) (\<lambda>tlsConfig.
          or_return_1 (io_res (env_NewCTClient E (mf_ServerURL flags) (mf_UserAgent flags) tlsConfig)) (\<lambda>ctlogClient.
          or_return_1 (net_call (\<lambda>s. (Ok (), s\<lparr>ct_Verifier := None\<rparr>))) (\<lambda>_.
          or_return_1 (io_res (rcatch (rendered E config) (\<lambda>err. Ok []) Ok)) (\<lambda>allOIDMatchers.
            run_loop (CTMonitorLogic ctlogClient (env_codec E) (env_certlib E) (rng_ctlogs E) (rng_identities E)
                (env_now_text E) (env_now E) (tr_CTLogs trustedRoot) flags
                ((monitored_of config allOIDMatchers)\<lparr>mv_Fingerprints := [], mv_Subjects := []\<rparr>))
              (env_platforms E) (env_events E) config)))))))))"

section \<open>Lemmas\<close>

lemma or_exit_Ok: "m w = (Ok x, w') \<Longrightarrow> or_exit h m f w = f x w'"
  by (simp add: or_exit_def)

lemma run_loop_once_fails:
  assumes "ml_Once M" and "ml_RunConsistencyCheck M w = (Fail err, w')"
  shows "run_loop M pl es config w = (Exit 0, w')"
proof -
  let ?s = "\<lparr>ls_Config = config, ls_Metrics = initMetrics, ls_World = w, ls_Searched = []\<rparr>"
  have "monitor_run M pl ?s = (Leave, checked ?s w')"
    using assms by (simp add: monitor_run_def on_world_eq checked_def)
  from MonitorLoop_not_waiting [OF this] show ?thesis by (simp add: run_loop_def)
qed

text \<open>An empty file is no pool of certificates.\<close>

lemma getCertPool_empty:
  "os_files w f = Some [] \<Longrightarrow> \<not> AppendCertsFromPEM lib [] \<Longrightarrow> f \<noteq> [] \<Longrightarrow> \<exists>e. optional_pool lib w f = Fail e"
  by (auto simp: optional_pool_def getCertPool_def os_ReadFile_def res_simps split: option.splits)

lemma ValidateCertificateChain_empty_pool:
  assumes "os_files w imf = Some []" and "\<not> AppendCertsFromPEM lib []" and "imf \<noteq> []" and "certs \<noteq> []"
    and "\<And>p. optional_pool lib w roots \<noteq> Panic p"
  shows "\<exists>e. ValidateCertificateChain lib w certs roots imf = Fail e"
proof -
  obtain e where "optional_pool lib w imf = Fail e" using getCertPool_empty [OF assms(1-3)] by blast
  then show ?thesis
    using assms(3-5) by (cases "optional_pool lib w roots") (auto simp: ValidateCertificateChain_def)
qed

lemma optional_pool_no_panic: "optional_pool lib w f \<noteq> Panic p"
  by (auto simp: optional_pool_def getCertPool_def os_ReadFile_def res_simps split: option.splits)

section \<open>Properties\<close>

text \<open>With \<open>--once\<close>, a consistency check that fails (a log that has rolled back, or lost its key)
  makes the v1 monitor exit with status 0, like one that has passed.\<close>

theorem failed_check_exits_zero_v1:
  assumes "mf_Once flags" and "tls_of (mf_HTTPSCertChainFile flags) w = (Ok tls, w)"
    and "env_GetRekorClient E (mf_ServerURL flags) (mf_UserAgent flags) tls = Ok cl"
    and "GetLogVerifier (env_clock E) (env_codec E) (env_sig E) cl (rng_logs E) (tr_RekorLogs trustedRoot) w = (Ok k, w1)"
    and "rendered E config = Ok ms"
    and "RunConsistencyCheck (env_clock E) (env_codec E) (env_sig E) cl k (mf_LogInfoFile flags) w1 = (Fail err, w2)"
  shows "mainLoopV1 E flags config trustedRoot w = (Exit 0, w2)"
proof -
  have "run_loop (RekorV1MonitorLogic (env_clock E) (env_codec E) (env_sig E) (env_certlib E) (env_entry E)
      (rng_entries E) (rng_identities E) (env_now_text E) cl k flags (monitored_of config ms))
      (env_platforms E) (env_events E) config w1 = (Exit 0, w2)"
    using assms(1,6) by (intro run_loop_once_fails) (simp_all add: RekorV1MonitorLogic_def)
  then show ?thesis
    using assms(2-5) by (simp add: mainLoopV1_def or_exit_Ok io_res_def)
qed

text \<open>An environment whose log is signed with a key that is not the trusted one.\<close>

definition demo_signed :: SignedCheckpoint where
  "demo_signed = demo_checkpoint\<lparr>sc_Signatures := [\<lparr>ns_Name = [], ns_Hash = 0, ns_Base64 = []\<rparr>]\<rparr>"

definition demo_root :: "string trusted_root" where
  "demo_root = \<lparr>tr_FulcioCAs = [], tr_RekorLogs = [(''00000000'', Some \<lparr>tl_PublicKey = ''other'', tl_HashFunc = 0\<rparr>)],
     tr_CTLogs = []\<rparr>"

definition demo_env :: "(unit, unit, unit, string, string, unit, unit, string, unit, unit) rekor_env" where
  "demo_env =
     \<lparr>env_build = \<lparr>GitVersion = [], GOOS = [], GOARCH = []\<rparr>,
      env_args = \<lparr>cl_config_file = None, cl_config = Some ''x'', cl_once = None, cl_file = None, cl_monitor_port = None,
        cl_url = None, cl_interval = None, cl_user_agent = None, cl_tuf_repository = None, cl_tuf_root_path = None,
        cl_ca_roots = None, cl_ca_intermediates = None, cl_https_cert_chain = None\<rparr>,
      env_yaml = \<lambda>s c. Ok c, env_certlib = demo_certlib,
      env_codec = demo_codec\<lparr>sc_UnmarshalText := \<lambda>s. Ok demo_signed\<rparr>,
      env_tuf = \<lparr>DefaultClient = \<lambda>n. (Ok (), n), StagingRoot = [], StagingMirror = [], tuf_New = \<lambda>_ _ n. (Ok (), n)\<rparr>,
      env_GetTrustedRoot = \<lambda>_ n. (Ok demo_root, n), env_GetSigningConfig = \<lambda>_ n. (Ok [], n), env_pick = demo_pick,
      env_platforms = demo_quiet, env_now_text = \<lambda>_. ''now'', rng_OIDs = rev, rng_values = rev, rng_identities = rev,
      env_events = [], env_clock = demo_clock, env_sig = demo_sig_lib, env_entry = demo_entry_lib,
      env_GetRekorClient = \<lambda>_ _ _. Ok demo_small_client, env_v2 = \<lambda>_. demo_v2_lib, env_sort = demo_sort,
      rng_logs = rev, rng_entries = rev\<rparr>"

theorem failed_check_exits_zero_v1_witness:
  "mainLoopV1 demo_env (demo_flags True) zero_config demo_root demo_world = (Exit 0, demo_world)"
proof -
  let ?cd = "demo_codec\<lparr>sc_UnmarshalText := \<lambda>s. Ok demo_signed\<rparr>"
  have info: "GetLogInfo demo_clock demo_small_client demo_world = (Ok (Some demo_info), demo_world)"
    unfolding GetLogInfo_def
    using rpc_first_try [of "rpc_GetLogInfo demo_small_client" demo_world "Some demo_info" "()" demo_clock]
    by (simp add: demo_small_client_def demo_info_def demo_world_def)
  have latest: "ReadLatestCheckpoint ?cd (Some demo_info) = Ok demo_signed"
    by (simp add: ReadLatestCheckpoint_def demo_info_def)
  have "GetLogVerifier demo_clock ?cd demo_sig_lib demo_small_client rev (tr_RekorLogs demo_root) demo_world =
      (Ok ''other'', demo_world)"
    by (simp add: GetLogVerifier_def io_bind_def io_res_def info latest)
      (simp add: demo_signed_def demo_root_def put_uint32_def hex_val_def demo_sig_lib_def char_of_def)
  moreover have "RunConsistencyCheck demo_clock ?cd demo_sig_lib demo_small_client ''other'' ''log'' demo_world =
      (Fail (Errorf ''failed to verify signature of latest checkpoint: '' (verify_failed demo_signed)), demo_world)"
    by (simp add: RunConsistencyCheck_def io_bind_def io_wrap_apply io_res_def info
        verifyLatestCheckpointSignature_def latest)
      (simp add: demo_sig_lib_def demo_signed_def demo_checkpoint_def)
  moreover have "rendered demo_env zero_config = Ok []"
    by (simp add: rendered_def RenderOIDMatchers_def oid_map_def zero_config_def demo_env_def
        RenderFulcioOIDMatchers_def fulcio_matcher_def)
  ultimately show ?thesis
    by (intro failed_check_exits_zero_v1)
      (simp_all add: demo_env_def demo_flags_def tls_of_def io_return_def)
qed

text \<open>C27. When the trusted root names Fulcio authorities without intermediates, the monitor that takes
  its certificates from there finds nothing in any v1 entry with a certificate: the empty
  intermediates file is no pool, validation fails for every chain, and the entry is skipped
  without being listed as failed.\<close>

theorem no_intermediates_skips_v1:
  assumes "fresh_names pick" and "CARootsFile config = []"
    and "ConfigureTrustedCAs pick config cas w = (Ok (config', cleanup), w')"
    and "intermediates_of cas = []" and "\<not> AppendCertsFromPEM lib []"
    and "extractVerifiers el entry = Ok vs" and "extractAllIdentities vs = Ok (subjects, certs, fps)"
    and "certs \<noteq> []" and "lea_LogIndex entry = Some (a, i)"
  shows "scan_entry lib el w' mvs (CARootsFile config') (CAIntermediatesFile config') (uuid, entry) = Ok ([], [])"
proof -
  have "CAIntermediatesFile config' \<noteq> [] \<and> os_files w' (CAIntermediatesFile config') = Some []"
    using assms(1-3)
  proof (cases rule: ConfigureTrustedCAs_cases)
    case (written p q w2)
    with write_authorities_Ok [OF written(7,3), of "[]" "[]"] assms(4) show ?thesis
      by (simp add: bundle_of_def)
  qed simp
  with ValidateCertificateChain_empty_pool [of w' "CAIntermediatesFile config'" lib certs] assms(5,8)
  obtain e where "ValidateCertificateChain lib w' certs (CARootsFile config') (CAIntermediatesFile config') = Fail e"
    using optional_pool_no_panic by blast
  with assms(6,7,9) show ?thesis by (simp add: scan_entry_def)
qed

theorem no_intermediates_skips_v1_witness:
  "scan_entry demo_lib (demo_entry_lib\<lparr>Verifiers := \<lambda>_. Ok [\<lparr>pk_Subjects = [''s''], pk_Identities =
       Ok [\<lparr>id_Fingerprint = ''fp'', id_Crypto = CryptoCertificate (demo_cert ''a'')\<rparr>]\<rparr>]\<rparr>)
     (demo_os\<lparr>os_files := [''1fulcio-root-*.pem'' \<mapsto> bundle_of [''r''], ''1fulcio-intermediate-*.pem'' \<mapsto> []]\<rparr>)
     demo_mvs ''1fulcio-root-*.pem'' ''1fulcio-intermediate-*.pem''
     (''uuid'', \<lparr>lea_Body = BodyString [], lea_LogIndex = Some (9, 6)\<rparr>) = Ok ([], [])"
proof -
  let ?vs = "[\<lparr>pk_Subjects = [''s''], pk_Identities =
    Ok [\<lparr>id_Fingerprint = ''fp'', id_Crypto = CryptoCertificate (demo_cert ''a'')\<rparr>]\<rparr>]"
  let ?el = "demo_entry_lib\<lparr>Verifiers := \<lambda>_. Ok ?vs\<rparr>"
  have 1: "CARootsFile zero_config = []" by (simp add: zero_config_def)
  have 2: "intermediates_of [Some \<lparr>ca_Root = Some ''r'', ca_Intermediates = []\<rparr>] = []"
    by (simp add: intermediates_of_def List.map_filter_def)
  have 3: "extractVerifiers ?el \<lparr>lea_Body = BodyString [], lea_LogIndex = Some (9, 6)\<rparr> = Ok ?vs"
    by (simp add: extractVerifiers_def demo_entry_lib_def base64_decode_def)
  have 4: "extractAllIdentities ?vs = Ok ([''s''], [demo_cert ''a''], [''fp''])"
    by (simp add: extractAllIdentities_def)
  from no_intermediates_skips_v1 [OF demo_pick_fresh 1 demo_cas 2 _ 3 4, of demo_lib] show ?thesis
    by (simp add: demo_lib_def)
qed

end
