(* ===== verification/Runs.thy ===== *)
theory Runs
  imports Monitors
begin

text \<open>
  Whole runs of the three monitors: whatever a run has searched has been matched and told. The
  entries are those of a log that answers the queries of the client; the theorems join the loop
  (\<open>Coverage\<close>), the fetching of entries, the matchers and the notifications.
\<close>

section \<open>Rekor v1\<close>

lemma ValidateCertificateChain_files:
  assumes "same_files w w'"
  shows "ValidateCertificateChain lib w' certs roots ints = ValidateCertificateChain lib w certs roots ints"
proof -
  have "optional_pool lib w' = optional_pool lib w"
    by (rule ext) (simp add: optional_pool_def getCertPool_def same_files_reads [OF assms])
  then show ?thesis by (simp add: ValidateCertificateChain_def)
qed

text \<open>A finished search has scanned every entry of its range, and what the scan found was told.\<close>

lemma finished_v1:
  assumes "finished (RekorV1MonitorLogic M cd sl lib el ordE ordM now_text cl k flags mvs) pl config w"
    and "StartIndex config = Some a" and "EndIndex config = Some b"
    and "serves cl {a<..b} entry_at" and "\<forall>n. clk_done M n = None" and "- 9223372036854775809 \<le> a" and "a \<le> b"
    and "b + 10 < 9223372036854775808" and "range_order ordE" and "range_order ordM"
    and "(uuid, e) \<in> set (entry_at i)" and "a < i" and "i \<le> b"
  shows "\<exists>ms fs. scan_entry lib el w mvs (CARootsFile config) (CAIntermediatesFile config) (uuid, e) = Ok (ms, fs) \<and>
    scan_told pl config (ms, fs)"
proof -
  from assms(1) obtain identities failed w' where
    run: "IdentitySearch M cd lib el ordE ordM config cl mvs w = (Ok (identities, failed), w')" and
    told: "identities \<noteq> [] \<longrightarrow> delivered pl config (MonitoredIdentityList identities)"
      "failed \<noteq> [] \<longrightarrow> delivered pl config (FailedLogEntryList failed)"
    by (auto simp: finished_def RekorV1MonitorLogic_def)
  from IdentitySearch_Ok [OF run assms(10)] GetEntriesByIndexRange_serves [OF assms(4-8)] assms(2,3)
  obtain found where
    matched: "MatchedIndices lib el ordE w (map entry_at [a + 1..b]) mvs (CARootsFile config)
      (CAIntermediatesFile config) = Ok (found, failed)" and
    same: "mset (concat (map mi_FoundIdentityEntries identities)) = mset found"
    by auto
  have "entry_at i \<in> set (map entry_at [a + 1..b])" using assms(12,13) by simp
  from MatchedIndices_entry [OF matched assms(9) this assms(11)] scan_told_mono [OF delivered_told [OF same told]]
  show ?thesis by blast
qed

text \<open>What that says of an entry: if its identities can be read and its chain is trusted, everything
  it must yield has been told; if they cannot be read, the failure has.\<close>

lemma scan_reported_v1:
  assumes "scan_entry lib el w mvs caR caI (uuid, e) = Ok (ms, fs)" and "scan_told pl config (ms, fs)"
    and "lea_LogIndex e = Some (p, i)"
  shows "case rbind (extractVerifiers el e) extractAllIdentities of
      Ok (subjects, certs, fps) \<Rightarrow> ValidateCertificateChain lib w certs caR caI = Ok () \<longrightarrow>
        entry_reported pl config (fingerprint_matches mvs fps i uuid)
          (policy_matches lib mvs subjects (map X509 certs) i uuid) i uuid
    | Fail err \<Rightarrow> told_failure pl config i uuid
    | Panic s \<Rightarrow> False"
proof (cases "extractVerifiers el e")
  case (Ok vs)
  note vs = this
  show ?thesis
  proof (cases "extractAllIdentities vs")
    case (Ok ids)
    obtain subjects certs fps where "ids = (subjects, certs, fps)" by (cases ids) auto
    with Ok vs scan_told_meets [OF assms(2) scan_entry_meets [OF assms(1,3) vs]] show ?thesis by simp
  next
    case (Fail err)
    with vs assms show ?thesis by (auto simp: scan_entry_def res_simps failed_entry_def scan_told_def)
  qed (use vs assms(1) in \<open>auto simp: scan_entry_def\<close>)
next
  case (Fail err)
  with assms show ?thesis by (auto simp: scan_entry_def res_simps failed_entry_def scan_told_def)
qed (use assms(1) in \<open>auto simp: scan_entry_def\<close>)

section \<open>Rekor v2\<close>

lemma IdentitySearch_v2_Ok:
  assumes "IdentitySearch_v2 cd lib L ordM config shards orig mvs w = (Ok (identities, failed), w')"
    and "range_order ordM"
  shows "\<exists>start end entries w1 found.
    StartIndex config = Some start \<and> EndIndex config = Some end \<and>
    GetEntriesByIndexRange_v2 L (map_of shards orig) start end w = (Ok entries, w1) \<and>
    scan_all (scan_entry_v2 lib L w1 mvs (CARootsFile config) (CAIntermediatesFile config)) entries =
      Ok (found, failed) \<and>
    mset (concat (map mi_FoundIdentityEntries identities)) = mset found"
proof -
  from assms(1) obtain start e entries w1 found where run:
    "StartIndex config = Some start" "EndIndex config = Some e"
    "GetEntriesByIndexRange_v2 L (map_of shards orig) start e w = (Ok entries, w1)"
    "MatchedIndices_v2 lib L w1 entries mvs (CARootsFile config) (CAIntermediatesFile config) = Ok (found, failed)"
    and ids: "identities = CreateMonitoredIdentities ordM found (CreateIdentitiesList mvs)"
    unfolding IdentitySearch_v2_def by (auto simp: res_simps field_of_def split: option.splits)
  from run(4) have scan: "scan_all (scan_entry_v2 lib L w1 mvs (CARootsFile config) (CAIntermediatesFile config))
      entries = Ok (found, failed)"
    by (simp add: MatchedIndices_v2_def split: option.splits)
  from v2_scan.search_reported [OF scan assms(2)] run(1-3) scan show ?thesis by (auto simp: ids)
qed

lemma finished_v2:
  assumes "finished (RekorV2MonitorLogic L cd lib srt ord ordM now_text tr flags shards orig mvs) pl config w"
    and "StartIndex config = Some a" and "EndIndex config = Some b"
    and "map_of shards orig = Some sh" and "serves_tiles L (si_client sh) treeSize entry_at" and "- 1 \<le> a"
    and "b + 1 < 9223372036854775808" and "b < treeSize" and "range_order ordM" and "a < i" and "i \<le> b"
  shows "\<exists>ms fs. scan_entry_v2 lib L w mvs (CARootsFile config) (CAIntermediatesFile config) (numbered entry_at i) =
      Ok (ms, fs) \<and> scan_told pl config (ms, fs)"
proof -
  from assms(1) obtain identities failed w' where
    run: "IdentitySearch_v2 cd lib L ordM config shards orig mvs w = (Ok (identities, failed), w')" and
    told: "identities \<noteq> [] \<longrightarrow> delivered pl config (MonitoredIdentityList identities)"
      "failed \<noteq> [] \<longrightarrow> delivered pl config (FailedLogEntryList failed)"
    by (auto simp: finished_def RekorV2MonitorLogic_def)
  have "a < b" using assms(10,11) by simp
  from IdentitySearch_v2_Ok [OF run assms(9)] GetEntriesByIndexRange_v2_serves [OF assms(5,6) this assms(7,8)] assms(2-4)
  obtain found where
    scan: "scan_all (scan_entry_v2 lib L w mvs (CARootsFile config) (CAIntermediatesFile config))
      (map (numbered entry_at) [(if a div 256 < b div 256 then a + 1 else 256 * (b div 256))..b]) = Ok (found, failed)" and
    same: "mset (concat (map mi_FoundIdentityEntries identities)) = mset found"
    by auto
  have "256 * (b div 256) \<le> i" if "\<not> a div 256 < b div 256"
  proof -
    have "b div 256 \<le> i div 256" using that zdiv_mono1 [of a i 256] assms(10) by simp
    moreover have "256 * (i div 256) \<le> i" using div_mult_mod_eq [of i 256] by (simp add: mult.commute)
    ultimately show ?thesis by linarith
  qed
  then have "numbered entry_at i \<in> set (map (numbered entry_at)
      [(if a div 256 < b div 256 then a + 1 else 256 * (b div 256))..b])"
    using assms(10,11) by auto
  from scan_all_Ok [OF scan] this scan_told_mono [OF delivered_told [OF same told]] show ?thesis by blast
qed

lemma scan_reported_v2:
  assumes "scan_entry_v2 lib L w mvs caR caI e = Ok (ms, fs)" and "scan_told pl config (ms, fs)"
  shows "case rbind (extractVerifiers_v2 L (ve_ProtoEntry e)) (extractAllIdentities_v2 L) of
      Ok (subjects, certs, fps) \<Rightarrow> ValidateCertificateChain lib w certs caR caI = Ok () \<longrightarrow>
        entry_reported pl config (fingerprint_matches mvs fps (ve_Index e) [])
          (policy_matches lib mvs subjects (map X509 certs) (ve_Index e) []) (ve_Index e) []
    | Fail err \<Rightarrow> told_failure pl config (ve_Index e) []
    | Panic s \<Rightarrow> False"
proof (cases "extractVerifiers_v2 L (ve_ProtoEntry e)")
  case (Ok vs)
  note vs = this
  show ?thesis
  proof (cases "extractAllIdentities_v2 L vs")
    case (Ok ids)
    obtain subjects certs fps where "ids = (subjects, certs, fps)" by (cases ids) auto
    with Ok vs scan_told_meets [OF assms(2) scan_entry_v2_meets [OF assms(1) vs]] show ?thesis by simp
  next
    case (Fail err)
    with vs assms show ?thesis by (auto simp: scan_entry_v2_def res_simps failed_entry_v2_def scan_told_def)
  qed (use vs assms(1) in \<open>auto simp: scan_entry_v2_def\<close>)
next
  case (Fail err)
  with assms show ?thesis by (auto simp: scan_entry_v2_def res_simps failed_entry_v2_def scan_told_def)
qed (use assms(1) in \<open>auto simp: scan_entry_v2_def\<close>)

text \<open>The logs of the shards are never empty, and small enough to be indexed.\<close>

definition sized_logs :: "('n, 'c, 'k, 'b) v2_lib \<Rightarrow> bool" where
  "sized_logs L \<longleftrightarrow> (\<forall>c n cp n'. ReadCheckpoint L c n = (Ok cp, n') \<longrightarrow> 0 < cp_Size cp \<and> cp_Size cp \<le> MaxInt64)"

lemma ends_known_v2:
  assumes "sized_logs L"
  shows "ends_known (RekorV2MonitorLogic L cd lib srt ord ordM now_text tr flags shards orig mvs)"
  unfolding ends_known_def
proof (intro allI impI)
  fix w prev cur w'
  let ?M = "RekorV2MonitorLogic L cd lib srt ord ordM now_text tr flags shards orig mvs"
  assume "ml_RunConsistencyCheck ?M w = (Ok (prev, cur), w')"
  then obtain shards' orig' w1 cp where cur: "cur = Some cp"
    and check: "RunConsistencyCheck_v2 L cd shards' orig' (mf_LogInfoFile flags) w1 = (Ok (prev, cp), w')"
    by (auto simp: RekorV2MonitorLogic_def RunConsistencyCheck_logic_v2_def res_simps)
  from RunConsistencyCheck_v2_Ok [OF check] assms have "0 < cp_Size cp \<and> cp_Size cp \<le> MaxInt64"
    unfolding sized_logs_def by blast
  then show "ml_GetEndIndex ?M cur \<noteq> Ok None"
    by (simp add: RekorV2MonitorLogic_def GetEndIndex_v2_def cur field_of_def checkpoint_index_def)
qed

section \<open>Certificate transparency\<close>

text \<open>A log that gives out the range it is asked for in one answer. The monitor takes the size of the tree
  for the index of its last entry, so that the last entry of a range may not exist yet.\<close>

definition serves_range :: "('n, 'v, 'p) ct_lib \<Rightarrow> int64 \<Rightarrow> int64 \<Rightarrow> (int64 \<Rightarrow> ct_LogEntry) \<Rightarrow> bool" where
  "serves_range L lo hi entry_at \<longleftrightarrow>
     (\<forall>s e n. lo \<le> s \<longrightarrow> s \<le> e \<longrightarrow> e \<le> hi \<longrightarrow>
        (\<exists>k \<in> {e - 1, e}. GetEntries L s e n = (Ok (map entry_at [s..k]), n))) \<and>
     (\<forall>i. ce_Index (entry_at i) = i)"

lemma finished_ct:
  assumes "finished (CTMonitorLogic L cd lib ord ordM now_text now logs flags mvs) pl config w"
    and "StartIndex config = Some a" and "EndIndex config = Some b"
    and "serves_range L lo hi entry_at" and "lo \<le> a" and "b \<le> hi" and "range_order ordM" and "a \<le> i" and "i < b"
  shows "\<exists>ms fs. scan_entry_ct lib L w now mvs (CARootsFile config) (CAIntermediatesFile config) (entry_at i) =
      Ok (ms, fs) \<and> scan_told pl config (ms, fs)"
proof -
  from assms(1) obtain identities failed w' where
    run: "IdentitySearch_ct cd lib L now ordM config mvs w = (Ok (identities, failed), w')" and
    told: "identities \<noteq> [] \<longrightarrow> delivered pl config (MonitoredIdentityList identities)"
      "failed \<noteq> [] \<longrightarrow> delivered pl config (FailedLogEntryList failed)"
    by (auto simp: finished_def CTMonitorLogic_def)
  have "a \<le> b" using assms(8,9) by simp
  with assms(4-6) obtain k where k: "k \<in> {b - 1, b}"
    "GetEntries L a b (ct_rest (net w)) = (Ok (map entry_at [a..k]), ct_rest (net w))"
    unfolding serves_range_def by blast
  then have fetch: "GetCTLogEntries L a b w = (Ok (map entry_at [a..k]), w)"
    by (simp add: GetCTLogEntries_def io_wrap_apply ct_call_def net_call_def)
  from run assms(2,3) obtain found where
    scan: "scan_all (scan_entry_ct lib L w now mvs (CARootsFile config) (CAIntermediatesFile config))
      (map entry_at [a..k]) = Ok (found, failed)"
    and ids: "identities = CreateMonitoredIdentities ordM found (CreateIdentitiesList mvs)"
    unfolding IdentitySearch_ct_def
    by (auto simp: res_simps field_of_def fetch MatchedIndices_ct_def split: option.splits)
  from ct_scan.search_reported [OF scan assms(7)]
  have same: "mset (concat (map mi_FoundIdentityEntries identities)) = mset found" by (simp add: ids)
  have "entry_at i \<in> set (map entry_at [a..k])" using assms(8,9) k(1) by auto
  from scan_all_Ok [OF scan] this scan_told_mono [OF delivered_told [OF same told]] show ?thesis by blast
qed

section \<open>A first pass\<close>

text \<open>A pass in which the check, the search and the notifications succeed reaches a state with one more
  range in its history, whatever becomes of the checkpoint.\<close>

lemma notify_succeeds:
  assumes "\<And>data n. fst (TriggerNotifications pl (CreateNotificationPool (ls_Config s)) data n) = Ok ()"
  shows "fst (notify M pl found failed s) = Ok ()"
  by (cases "found = []"; cases "failed = []"; simp add: notify_def Let_def io_bind_def io_wrap_apply
      on_world_eq io_return_def net_call_def split_beta assms)

lemma first_pass:
  assumes "ml_RunConsistencyCheck M (ls_World s) = (Ok (prev, cur), w)"
    and "MonitoredValuesExist (ml_MonitoredValues M)"
    and "StartIndex (ls_Config s) = Some a" and "EndIndex (ls_Config s) = None"
    and "ml_GetEndIndex M cur = Ok (Some b)" and "a \<le> b"
    and "ml_IdentitySearch M ((ls_Config s)\<lparr>EndIndex := Some b\<rparr>) (ml_MonitoredValues M) w = (Ok (found, failed), w1)"
    and "\<And>data n. fst (TriggerNotifications pl (CreateNotificationPool (ls_Config s)) data n) = Ok ()"
  shows "\<exists>p s'. reachable M pl s (p, s') \<and> ls_Searched s' = ls_Searched s @ [(a, b)]"
proof -
  let ?c = "(ls_Config s)\<lparr>EndIndex := Some b\<rparr>"
  let ?t = "(checked s w)\<lparr>ls_Config := ?c\<rparr>"
  have pool: "CreateNotificationPool ?c = CreateNotificationPool (ls_Config s)"
    by (simp add: CreateNotificationPool_def)
  obtain s1 where notified: "notify M pl found failed (?t\<lparr>ls_World := w1\<rparr>) = (Ok (), s1)"
    using notify_succeeds [of pl "?t\<lparr>ls_World := w1\<rparr>" M found failed] assms(8) pool
    by (cases "notify M pl found failed (?t\<lparr>ls_World := w1\<rparr>)") (simp add: checked_def)
  from notify_only [OF notified] have s1: "ls_Searched s1 = ls_Searched s"
    by (simp add: only_world_def)
  have "choose_start M prev cur (checked s w) = (Ok (), checked s w)" using assms(3) by (simp add: choose_start_def)
  moreover have "choose_end M cur (checked s w) = (Ok (), ?t)"
    using assms(3-5) by (simp add: choose_end_def io_bind_def io_res_def set_indices_def)
  moreover have "search_range M pl ?t = (Ok (), s1\<lparr>ls_Searched := ls_Searched s1 @ [(a, b)]\<rparr>)"
    using assms(3,6,7) notified
    by (simp add: search_range_def io_bind_def io_wrap_apply on_world_eq record_search_def)
  ultimately obtain s2 where step: "search_step M pl prev cur (checked s w) = (Ok (), s2)"
    and s2: "ls_Searched s2 = ls_Searched s @ [(a, b)]"
    using assms(2) s1 by (simp add: search_step_def io_bind_def advance_def set_indices_def)
  obtain v s' where run: "monitor_run M pl s = (v, s')" by fastforce
  from run have "ls_Searched s' = ls_Searched s2"
    by (cases rule: monitor_run_cases) (use assms(1) step in auto)
  with loop_step.run [OF run] s2 show ?thesis by (metis reachable.simps)
qed

section \<open>Properties\<close>






text \<open>A log with one shard of 257 entries, and a monitor that begins at the end of the first tile.\<close>

definition demo_small_v2 :: "(unit, string, unit, unit) v2_lib" where
  "demo_small_v2 = demo_v2_lib\<lparr>GetSigningConfig := (\<lambda>n. (Ok [demo_service ''https://a'' 1], n)),
     ReadCheckpoint := (\<lambda>c n. (Ok \<lparr>cp_Origin = c, cp_Size = 257, cp_Hash = ''h''\<rparr>, n))\<rparr>"

definition demo_v2_logic :: "(unit, Checkpoint, Checkpoint, unit) MonitorLogic" where
  "demo_v2_logic = RekorV2MonitorLogic demo_small_v2 demo_codec demo_certlib demo_sort rev rev (\<lambda>_. ''now'')
     (\<lambda>n. (Ok [], n)) (demo_flags False) [(''a'', demo_shard ''a'')] ''a'' demo_mvs"

definition demo_v2_start :: "(unit, unit) loop_state" where
  "demo_v2_start = demo_start\<lparr>ls_Config := (ls_Config demo_start)\<lparr>StartIndex := Some 255\<rparr>\<rparr>"

lemma demo_small_v2_serves: "serves_tiles demo_small_v2 (si_client (demo_shard ''a'')) n (\<lambda>_. demo_proto)"
  by (simp add: serves_tiles_def demo_small_v2_def demo_v2_lib_def map_replicate_const)

lemma demo_v2_check:
  "RunConsistencyCheck_logic_v2 demo_small_v2 demo_codec demo_sort rev (\<lambda>n. (Ok [], n)) (demo_flags False)
     [(''a'', demo_shard ''a'')] ''a'' demo_world =
   (Ok (None, Some \<lparr>cp_Origin = ''a'', cp_Size = 257, cp_Hash = ''h''\<rparr>), demo_world)"
proof -
  let ?services = "[demo_service ''https://a'' 1]" and ?shards = "[(''a'', demo_shard ''a'')]"
  have "filterV2Shards demo_sort 1000 ?services = ?services"
    by (simp add: filterV2Shards_def demo_sort_def demo_service_def)
  then have "ShardsNeedUpdating demo_small_v2 demo_sort 1000 ?shards ?services = Ok False"
    by (simp add: ShardsNeedUpdating_def demo_small_v2_def demo_v2_calls demo_service_def getOrigin_def demo_shard_def
        eval_nat_numeral)
  moreover have "RefreshSigningConfig demo_small_v2 demo_world = (Ok ?services, demo_world)"
    by (simp add: RefreshSigningConfig_def io_bind_def io_wrap_apply net_call_def demo_small_v2_def demo_v2_lib_def)
  moreover have "\<not> has_log_info ''log'' demo_world"
    by (simp add: has_log_info_def os_Stat_def demo_world_def)
  then have "RunConsistencyCheck_v2 demo_small_v2 demo_codec ?shards ''a'' ''log'' demo_world =
      (Ok (None, \<lparr>cp_Origin = ''a'', cp_Size = 257, cp_Hash = ''h''\<rparr>), demo_world)"
    by (simp add: RunConsistencyCheck_v2_def client_of_def io_bind_def io_res_def io_wrap_apply io_read_def
        io_return_def net_call_def demo_small_v2_def demo_shard_def)
  ultimately show ?thesis
    by (simp add: RunConsistencyCheck_logic_v2_def io_bind_def io_read_def io_return_def demo_flags_def
        demo_small_v2_def demo_v2_calls)
qed

lemma demo_v2_search:
  "\<exists>found w. IdentitySearch_v2 demo_codec demo_certlib demo_small_v2 rev
     ((ls_Config demo_v2_start)\<lparr>EndIndex := Some 256\<rparr>) [(''a'', demo_shard ''a'')] ''a'' demo_mvs demo_world =
     (Ok (found, []), w)"
proof -
  let ?m = "fingerprint_entry ''fp'' ''fp'' 256 []"
  have entries: "GetEntriesByIndexRange_v2 demo_small_v2 (Some (demo_shard ''a'')) 255 256 demo_world =
      (Ok [numbered (\<lambda>_. demo_proto) 256], demo_world)"
    using GetEntriesByIndexRange_v2_serves [OF demo_small_v2_serves [of 257], of 255 256 demo_world] by simp
  have "scan_entry_v2 demo_certlib demo_small_v2 w demo_mvs [] [] (numbered (\<lambda>_. demo_proto) 256) = Ok ([?m], [])"
    for w :: "unit world"
    by (simp add: scan_entry_v2_def extractVerifiers_v2_def demo_proto_def demo_small_v2_def demo_v2_lib_def
        extractAllIdentities_v2_def ValidateCertificateChain_def demo_mvs_def MatchLogEntryFingerprints_v2_def
        MatchLogEntrySubjects_v2_def demo_certlib_def MatchLogEntryCertificateIdentities_v2_def
        MatchLogEntryOIDs_v2_def rconcat_def numbered_def)
  moreover have "VerifyMonitoredValues demo_mvs = None"
    by (simp add: VerifyMonitoredValues_def MonitoredValuesExist_def demo_mvs_def not_empty_def verifyMonitoredOIDs_def)
  ultimately have matched: "MatchedIndices_v2 demo_certlib demo_small_v2 w [numbered (\<lambda>_. demo_proto) 256] demo_mvs [] [] =
      Ok ([?m], [])" for w :: "unit world"
    by (simp add: MatchedIndices_v2_def scan_all_def)
  have "writable demo_world ''ids''" by (simp add: writable_def demo_world_def)
  then have "WriteIdentity demo_codec ''ids'' ''text'' ?m demo_world =
      (Ok (), append_file ''ids'' (identity_line demo_codec ''text'' ?m) demo_world)"
    by (intro WriteIdentity_ok) simp_all
  then show ?thesis
    by (simp add: IdentitySearch_v2_def field_of_def io_bind_def io_res_def io_wrap_apply io_read_def entries matched
        demo_v2_start_def demo_start_def demo_config_def io_return_def WriteMatchedIdentityEntries_def)
qed

lemma demo_v2_reachable: "\<exists>p s. reachable demo_v2_logic demo_quiet demo_v2_start (p, s) \<and> ls_Searched s = [(255, 256)]"
proof -
  obtain found w where search: "IdentitySearch_v2 demo_codec demo_certlib demo_small_v2 rev
     ((ls_Config demo_v2_start)\<lparr>EndIndex := Some 256\<rparr>) [(''a'', demo_shard ''a'')] ''a'' demo_mvs demo_world =
     (Ok (found, []), w)"
    using demo_v2_search by blast
  have "\<exists>p s'. reachable demo_v2_logic demo_quiet demo_v2_start (p, s') \<and>
      ls_Searched s' = ls_Searched demo_v2_start @ [(255, 256)]"
  proof (rule first_pass)
    show "ml_RunConsistencyCheck demo_v2_logic (ls_World demo_v2_start) =
        (Ok (None, Some \<lparr>cp_Origin = ''a'', cp_Size = 257, cp_Hash = ''h''\<rparr>), demo_world)"
      using demo_v2_check by (simp add: demo_v2_logic_def RekorV2MonitorLogic_def demo_v2_start_def demo_start_def)
    show "ml_IdentitySearch demo_v2_logic ((ls_Config demo_v2_start)\<lparr>EndIndex := Some 256\<rparr>)
        (ml_MonitoredValues demo_v2_logic) demo_world = (Ok (found, []), w)"
      using search by (simp add: demo_v2_logic_def RekorV2MonitorLogic_def)
  qed (simp_all add: demo_v2_logic_def RekorV2MonitorLogic_def demo_v2_start_def demo_start_def demo_config_def
      MonitoredValuesExist_def demo_mvs_def GetEndIndex_v2_def field_of_def checkpoint_index_def MaxInt64_def i64_id
      int64_range_def CreateNotificationPool_def TriggerNotifications_def io_return_def)
  then show ?thesis by (simp add: demo_v2_start_def demo_start_def)
qed



text \<open>A log of certificates that gives out whole ranges; the client has its verifier.\<close>

definition demo_small_ct :: "(unit, string, string) ct_lib" where
  "demo_small_ct = demo_ct_lib\<lparr>GetEntries := (\<lambda>s e n. (Ok (map demo_ct_entry [s..e]), n))\<rparr>"

definition demo_ct_mvs :: MonitoredValues where
  "demo_ct_mvs = demo_mvs\<lparr>mv_OIDMatchers := [\<lparr>oe_ObjectIdentifier = [1, 2], oe_ExtensionValues = [''a'']\<rparr>]\<rparr>"

definition demo_ct_logic :: "((unit, string) ct_net, SignedTreeHead, SignedTreeHead, unit) MonitorLogic" where
  "demo_ct_logic = CTMonitorLogic demo_small_ct demo_codec demo_certlib rev rev (\<lambda>_. ''now'') (\<lambda>_. 0) []
     (demo_flags False) demo_ct_mvs"

definition demo_ct_quiet :: "((unit, string) ct_net, unit) platform_lib" where
  "demo_ct_quiet =
     \<lparr>json_Identities = (\<lambda>_. Ok ''[]''), json_Failed = (\<lambda>_. Ok ''[]''), mail_Address = (\<lambda>_. Ok ()),
      mail_NewClient = (\<lambda>_ _ _ _. Ok ()), mail_DialAndSend = (\<lambda>_ _ _ _ m n. (Ok (), n)),
      Issues_Create = (\<lambda>_ _ _ r n. (Ok (), n)), sendgrid_Send = (\<lambda>_ m n. (Ok (), n)),
      mailgun_Send = (\<lambda>_ _ m n. (Ok (), n))\<rparr>"

definition demo_ct_start :: "((unit, string) ct_net, unit) loop_state" where
  "demo_ct_start = \<lparr>ls_Config = (ls_Config demo_start)\<lparr>StartIndex := Some 8\<rparr>, ls_Metrics = initMetrics,
     ls_World = demo_ct_world (Some ''k''), ls_Searched = []\<rparr>"

lemma demo_ct_check:
  "RunConsistencyCheck_logic_ct demo_small_ct demo_codec rev [] (demo_flags False) (demo_ct_world (Some ''k'')) =
   (Ok (None, Some (demo_sth 9\<lparr>sth_LogID := ''k''\<rparr>)), demo_ct_world (Some ''k''))"
proof -
  have sth: "GetSTH demo_small_ct = GetSTH demo_ct_lib" by (simp add: demo_small_ct_def)
  have "RunConsistencyCheck_ct demo_small_ct demo_codec rev [] ''log'' (demo_ct_world (Some ''k'')) =
      (Ok (None, demo_sth 9\<lparr>sth_LogID := ''k''\<rparr>), demo_ct_world (Some ''k''))"
    by (simp add: RunConsistencyCheck_ct_def io_bind_def io_wrap_apply io_read_def io_return_def io_res_def
        sth demo_ct_calls ensure_verifier_def field_of_def)
      (simp add: demo_small_ct_def demo_ct_lib_def ctLogIDFromPublicKey_def io_bind_def io_res_def io_return_def)
  then show ?thesis
    by (simp add: RunConsistencyCheck_logic_ct_def io_bind_def io_return_def demo_flags_def)
qed

lemma demo_ct_search:
  "\<exists>found w. IdentitySearch_ct demo_codec demo_certlib demo_small_ct (\<lambda>_. 0) rev
     ((ls_Config demo_ct_start)\<lparr>EndIndex := Some 9\<rparr>) demo_ct_mvs (demo_ct_world (Some ''k'')) = (Ok (found, []), w)"
proof -
  let ?ms = "[extension_entry [1, 2] ''a'' 8 [], extension_entry [1, 2] ''a'' 9 []]"
  let ?w = "demo_ct_world (Some ''k'') :: (unit, string) ct_net world"
  have fetch: "GetCTLogEntries demo_small_ct 8 9 ?w = (Ok (map demo_ct_entry [8..9]), ?w)"
    by (simp add: GetCTLogEntries_def io_wrap_apply ct_call_def net_call_def demo_small_ct_def demo_ct_world_def)
  have "scan_entry_ct demo_certlib demo_small_ct ?w (\<lambda>_. 0) demo_ct_mvs [] [] (demo_ct_entry i) =
      Ok ([extension_entry [1, 2] ''a'' i []], [])" for i
    by (simp add: scan_entry_ct_def validate_entry_chain_def demo_ct_entry_def demo_small_ct_def demo_ct_lib_def
        ScanEntryCertSubject_def ScanEntryOIDExtensions_def scanned_cert_def demo_ct_mvs_def demo_mvs_def rconcat_def
        OIDMatchesPolicy_def getExtension_def demo_cert_def demo_certlib_def)
  then have matched: "MatchedIndices_ct demo_certlib demo_small_ct ?w (\<lambda>_. 0) (map demo_ct_entry [8..9]) demo_ct_mvs [] [] =
      Ok (?ms, [])"
    by (simp add: MatchedIndices_ct_def scan_all_def)
  have wrote: "WriteMatchedIdentityEntries demo_codec ''ids'' ''text'' ?ms None 9 ?w =
      (Ok (), append_file ''ids'' (concat (map (identity_line demo_codec ''text'') ?ms)) ?w)"
    using WriteIdentity_all [of ?w "''ids''" "''text''" demo_codec ?ms]
    by (simp add: WriteMatchedIdentityEntries_def io_bind_def io_return_def writable_def demo_ct_world_def)
  show ?thesis
    using matched wrote
    by (simp add: IdentitySearch_ct_def field_of_def io_bind_def io_res_def io_read_def fetch
        demo_ct_start_def demo_start_def demo_config_def io_return_def)
qed

lemma demo_ct_reachable: "\<exists>p s. reachable demo_ct_logic demo_ct_quiet demo_ct_start (p, s) \<and> ls_Searched s = [(8, 9)]"
proof -
  obtain found w where search: "IdentitySearch_ct demo_codec demo_certlib demo_small_ct (\<lambda>_. 0) rev
     ((ls_Config demo_ct_start)\<lparr>EndIndex := Some 9\<rparr>) demo_ct_mvs (demo_ct_world (Some ''k'')) = (Ok (found, []), w)"
    using demo_ct_search by blast
  have "\<exists>p s'. reachable demo_ct_logic demo_ct_quiet demo_ct_start (p, s') \<and>
      ls_Searched s' = ls_Searched demo_ct_start @ [(8, 9)]"
  proof (rule first_pass)
    show "ml_RunConsistencyCheck demo_ct_logic (ls_World demo_ct_start) =
        (Ok (None, Some (demo_sth 9\<lparr>sth_LogID := ''k''\<rparr>)), demo_ct_world (Some ''k''))"
      using demo_ct_check by (simp add: demo_ct_logic_def CTMonitorLogic_def demo_ct_start_def)
    show "ml_IdentitySearch demo_ct_logic ((ls_Config demo_ct_start)\<lparr>EndIndex := Some 9\<rparr>)
        (ml_MonitoredValues demo_ct_logic) (demo_ct_world (Some ''k'')) = (Ok (found, []), w)"
      using search by (simp add: demo_ct_logic_def CTMonitorLogic_def)
  qed (simp_all add: demo_ct_logic_def CTMonitorLogic_def demo_ct_start_def demo_start_def demo_config_def
      MonitoredValuesExist_def demo_ct_mvs_def demo_mvs_def GetEndIndex_ct_def asserted_def demo_sth_def i64_id
      int64_range_def CreateNotificationPool_def TriggerNotifications_def io_return_def)
  then show ?thesis by (simp add: demo_ct_start_def)
qed


text \<open>C10. What a run keeps, for each of the three monitors and in every state the loop can reach: all
  indices, of the configuration and of the searches, are 64-bit integers; nothing else in the
  configuration has changed; and no file has but the log info file and the two output files.\<close>

theorem runs_keep:
  fixes s0 :: "('n, 'o) loop_state" and t0 :: "(('n, 'v) ct_net, 'o) loop_state"
  assumes "ls_Searched s0 = []" and "int64_indices s0" and "ls_Searched t0 = []" and "int64_indices t0"
  shows "run_keeps (RekorV1MonitorLogic M cd sl lib el ordE ordM now_text cl k flags mvs) pl (mf_LogInfoFile flags) s0 \<and>
    run_keeps (RekorV2MonitorLogic L cd lib srt ord ordM now_text tr flags shards orig mvs) pl (mf_LogInfoFile flags) s0 \<and>
    run_keeps (CTMonitorLogic Lc cd lib ordc ordM now_textc now logs flags mvs) plc (mf_LogInfoFile flags) t0"
  by (intro conjI v1.run_keepsI v2.run_keepsI ct.run_keepsI int64_v1 int64_v2 int64_ct assms)

theorem runs_keep_witness:
  "\<exists>p s q t. reachable demo_v2_logic demo_quiet demo_v2_start (p, s) \<and> int64_indices s \<and>
     os_files (ls_World s) ''other'' = None \<and>
     reachable demo_ct_logic demo_ct_quiet demo_ct_start (q, t) \<and> int64_indices t \<and>
     same_settings (ls_Config demo_ct_start) (ls_Config t)"
proof -
  have start: "ls_Searched demo_v2_start = []" "int64_indices demo_v2_start"
    "ls_Searched demo_ct_start = []" "int64_indices demo_ct_start"
    by (simp_all add: demo_v2_start_def demo_ct_start_def demo_start_def demo_config_def int64_indices_def int64_range_def)
  note keep = runs_keep [OF start, where flags = "demo_flags False" and lib = demo_certlib and ordM = rev and cd = demo_codec]
  obtain p s where s: "reachable demo_v2_logic demo_quiet demo_v2_start (p, s)" using demo_v2_reachable by blast
  obtain q t where t: "reachable demo_ct_logic demo_ct_quiet demo_ct_start (q, t)" using demo_ct_reachable by blast
  have flags: "mf_LogInfoFile (demo_flags False) = ''log''" by (simp add: demo_flags_def)
  have "run_keeps demo_v2_logic demo_quiet ''log'' demo_v2_start"
    using keep [where mvs = demo_mvs, THEN conjunct2, THEN conjunct1] unfolding demo_v2_logic_def flags by blast
  with s have "int64_indices s" and kept: "kept_files ''log'' demo_v2_start (ls_World s)"
    by (auto simp: run_keeps_def)
  moreover have "os_files (ls_World s) ''other'' = None"
  proof -
    have "same_file ''other'' (ls_World demo_v2_start) (ls_World s)"
      using kept by (simp add: kept_files_def demo_v2_start_def demo_start_def demo_config_def)
    then show ?thesis by (simp add: same_file_def demo_v2_start_def demo_start_def demo_world_def)
  qed
  moreover have "run_keeps demo_ct_logic demo_ct_quiet ''log'' demo_ct_start"
    using keep [where mvs = demo_ct_mvs, THEN conjunct2, THEN conjunct2] unfolding demo_ct_logic_def flags by blast
  with t have "int64_indices t \<and> same_settings (ls_Config demo_ct_start) (ls_Config t)" by (auto simp: run_keeps_def)
  ultimately show ?thesis using s t by blast
qed

section \<open>The loop with each of the three monitors\<close>

text \<open>C5. The checkpoint is written last, by each of the three monitors. If one pass through the loop
  changes the log info file, then the consistency check has succeeded, and, if there is something to
  monitor, the search of the chosen range and all notifications have finished first: whatever fails
  before that leaves the old checkpoint, so that the same entries are searched again.\<close>

theorem checkpoint_written_last:
  "writes_last (RekorV1MonitorLogic M cd sl lib el ordE ordM now_text cl k flags mvs) pl (mf_LogInfoFile flags) \<and>
   writes_last (RekorV2MonitorLogic L cd lib srt ord ordM now_text tr flags shards orig mvs) pl (mf_LogInfoFile flags) \<and>
   writes_last (CTMonitorLogic Lc cd lib ordc ordM now_textc now logs flags mvs) plc (mf_LogInfoFile flags)"
  by (intro conjI v1.writes_lastI v2.writes_lastI ct.writes_lastI)

theorem checkpoint_written_last_witness:
  "\<exists>s. monitor_run (demo_v1_logic True ''rekor'') demo_quiet demo_start = (Leave, s) \<and>
     os_files (ls_World s) ''log'' \<noteq> None \<and> ls_Searched s = [(5, 6)] \<and>
     finished (demo_v1_logic True ''rekor'') demo_quiet ((ls_Config demo_start)\<lparr>StartIndex := Some 5, EndIndex := Some 6\<rparr>)
       demo_world"
proof -
  obtain s where run: "monitor_run (demo_v1_logic True ''rekor'') demo_quiet demo_start = (Leave, s)"
    and s: "ls_Searched s = [(5, 6)]" "os_files (ls_World s) ''log'' \<noteq> None"
    using demo_pass [of True] by auto
  have start: "ls_Searched demo_start = []" "OutputIdentitiesFile (ls_Config demo_start) \<noteq> ''log''"
    "IdentityMetadataFile (ls_Config demo_start) \<noteq> Some ''log''" "ls_World demo_start = demo_world"
    "os_files (ls_World s) ''log'' \<noteq> os_files (ls_World demo_start) ''log''"
    using s by (simp_all add: demo_start_def demo_config_def demo_world_def)
  have check: "ml_RunConsistencyCheck (demo_v1_logic True ''rekor'') demo_world = (Ok (None, Some demo_info), demo_world)"
    and logic: "MonitoredValuesExist (ml_MonitoredValues (demo_v1_logic True ''rekor''))"
      "chosen_start (demo_v1_logic True ''rekor'') None (Some demo_info) (ls_Config demo_start) = Ok (Some 5)"
      "chosen_end (demo_v1_logic True ''rekor'') (Some demo_info) (ls_Config demo_start) = Ok (Some 6)"
    by (simp_all add: demo_v1_logic_def RekorV1MonitorLogic_def demo_check demo_flags_def demo_end MonitoredValuesExist_def
        demo_mvs_def chosen_start_def chosen_end_def demo_start_def demo_config_def)
  have "writes_last (demo_v1_logic True ''rekor'') demo_quiet (mf_LogInfoFile (demo_flags True))"
    unfolding demo_v1_logic_def by (rule checkpoint_written_last [THEN conjunct1])
  then have "writes_last (demo_v1_logic True ''rekor'') demo_quiet ''log''" by (simp add: demo_flags_def)
  from this [unfolded writes_last_def, rule_format, OF run start(2,3,5)] start(4) check logic
  show ?thesis using run s by auto
qed



text \<open>C23. A failed consistency check of any of the three monitors, unless it runs only once, ends nothing
  and loses nothing: the failure is counted, files, configuration and the next start index are as
  before, and the next tick makes the loop go on from there.\<close>

theorem failed_checks_retried:
  "retries (RekorV1MonitorLogic M cd sl lib el ordE ordM now_text cl k flags mvs) pl \<and>
   retries (RekorV2MonitorLogic L cd lib srt ord ordM now_text tr flags shards orig mvs) pl \<and>
   retries (CTMonitorLogic Lc cd lib ordc ordM now_textc now logs flags mvs) plc"
  by (intro conjI v1.retriesI v2.retriesI ct.retriesI)

theorem failed_checks_retried_witness:
  "\<exists>s. MonitorLoop (demo_v1_logic False ''other'') demo_quiet [Tick id] demo_start =
       MonitorLoop (demo_v1_logic False ''other'') demo_quiet [] (pass_time id s) \<and>
     StartIndex (ls_Config s) = Some 5 \<and> logIndexVerificationFailure (ls_Metrics s) = 1"
proof -
  have start: "\<not> ml_Once (demo_v1_logic False ''other'')" "StartIndex (ls_Config demo_start) = Some 5"
    "logIndexVerificationFailure (ls_Metrics demo_start) = 0"
    "ml_RunConsistencyCheck (demo_v1_logic False ''other'') (ls_World demo_start) =
      (Fail (Errorf ''failed to verify signature of latest checkpoint: '' (verify_failed demo_checkpoint)), demo_world)"
    by (simp_all add: demo_v1_logic_def RekorV1MonitorLogic_def demo_flags_def demo_start_def initMetrics_def demo_check)
  have "retries (demo_v1_logic False ''other'') demo_quiet"
    unfolding demo_v1_logic_def by (rule failed_checks_retried [THEN conjunct1])
  from this [unfolded retries_def, rule_format, OF start(1,4), of id "[]"] start(2,3) show ?thesis by auto
qed

end
