(* ===== verification/Commands.thy ===== *)
theory Commands
  imports Mains Runs
begin

text \<open>
  What the two commands leave behind: every file but the log info file and the two output files is
  as it was, the files of trusted certificates included, however the command ends; and a command
  that was told \<open>--once\<close> ends.
\<close>

section \<open>The files a command writes\<close>

definition output_files :: "string \<Rightarrow> 'o IdentityMonitorConfiguration \<Rightarrow> string set" where
  "output_files f config = {f, OutputIdentitiesFile config} \<union> set_option (IdentityMetadataFile config)"

text \<open>The same from what \<open>ParseAndLoadConfig\<close> returns, with the name of a log info file that the command
  line does not give taken from \<open>names\<close>.\<close>

definition written_by :: "string set \<Rightarrow> (MonitorFlags \<times> 'o IdentityMonitorConfiguration) res \<Rightarrow> string set" where
  "written_by names loaded =
     (case loaded of
        Ok (flags, config) \<Rightarrow>
          \<Union> ((\<lambda>f. output_files f config) ` (if mf_LogInfoFile flags = [] then names else {mf_LogInfoFile flags}))
      | _ \<Rightarrow> {})"

definition rekor_load ::
  "('n, 't, 'o, 'p, 'k, 'q, 'e, 'c, 'l, 'b) rekor_env \<Rightarrow> 'n world \<Rightarrow> (MonitorFlags \<times> 'o IdentityMonitorConfiguration) res"
where
  "rekor_load E = ParseAndLoadConfig (env_build E) (env_certlib E) (env_yaml E)
     ''https://rekor.sigstore.dev'' ''default'' ''identities'' ''rekor-monitor'' (env_args E)"

definition ct_load ::
  "('n, 't, 'o, 'p, 'v) ct_env \<Rightarrow> ('n, 'v) ct_net world \<Rightarrow> (MonitorFlags \<times> 'o IdentityMonitorConfiguration) res"
where
  "ct_load E = ParseAndLoadConfig (env_build E) (env_certlib E) (env_yaml E)
     ''https://ctfe.sigstore.dev/2022'' ''default'' ''ctIdentities'' ''ct-monitor'' (env_args E)"

definition told_once :: "(MonitorFlags \<times> 'o IdentityMonitorConfiguration) res \<Rightarrow> bool" where
  "told_once loaded = (case loaded of Ok (flags, config) \<Rightarrow> mf_Once flags | _ \<Rightarrow> True)"

text \<open>A command that panics may have been stopped before its cleanup, and one whose loop goes on has not
  come to it: then the files that were there are still as they were. \<open>log.Fatal\<close> runs no cleanup, and
  none is needed.\<close>

definition leaves_files :: "bool \<Rightarrow> string set \<Rightarrow> 'n world \<Rightarrow> exit \<times> 'n world \<Rightarrow> bool" where
  "leaves_files once outs w = (\<lambda>(x, w').
     (\<forall>q. q \<notin> outs \<longrightarrow> os_files w q \<noteq> None \<longrightarrow> os_files w' q = os_files w q) \<and>
     (case x of
        Exit n \<Rightarrow> \<forall>q. q \<notin> outs \<longrightarrow> os_files w' q = os_files w q
      | Fatal e \<Rightarrow> os_files w' = os_files w
      | Panicked p \<Rightarrow> True
      | StillRunning \<Rightarrow> \<not> once))"

section \<open>After the trusted certificates\<close>

definition quiet :: "bool \<Rightarrow> string set \<Rightarrow> ('n world \<Rightarrow> exit \<times> 'n world) \<Rightarrow> bool" where
  "quiet once outs f \<longleftrightarrow> (\<forall>w x w'. f w = (x, w') \<longrightarrow> (\<forall>e. x \<noteq> Fatal e) \<and> (once \<longrightarrow> x \<noteq> StillRunning) \<and>
     (\<forall>q. q \<notin> outs \<longrightarrow> os_files w' q = os_files w q))"

lemma quiet_or_return_1 [intro]:
  assumes "\<And>u. keeps (same_files u) m" and "\<And>y. quiet once outs (f y)"
  shows "quiet once outs (or_return_1 m f)"
  unfolding quiet_def
proof (intro allI impI)
  fix w x w'
  assume run: "or_return_1 m f w = (x, w')"
  obtain r w1 where m: "m w = (r, w1)" by fastforce
  have w1: "os_files w1 = os_files w" using keeps_same_files [OF assms(1) m] by (simp add: same_filesD)
  show "(\<forall>e. x \<noteq> Fatal e) \<and> (once \<longrightarrow> x \<noteq> StillRunning) \<and> (\<forall>q. q \<notin> outs \<longrightarrow> os_files w' q = os_files w q)"
  proof (cases r)
    case (Ok y)
    with run m have "f y w1 = (x, w')" by (simp add: or_exit_def)
    with assms(2) [of y] w1 show ?thesis unfolding quiet_def by metis
  qed (use run m w1 in \<open>auto simp: or_exit_def\<close>)
qed

lemma quiet_return_1 [intro]: "quiet once outs (Pair (Exit n))"
  by (simp add: quiet_def)

lemma quiet_if: "(b \<Longrightarrow> quiet once outs f) \<Longrightarrow> (\<not> b \<Longrightarrow> quiet once outs g) \<Longrightarrow> quiet once outs (if b then f else g)"
  by simp

lemma quiet_prod: "(\<And>x y. quiet once outs (f x y)) \<Longrightarrow> quiet once outs (case p of (x, y) \<Rightarrow> f x y)"
  by (cases p) simp

lemma tls_of_keeps: "keeps (same_files u) (tls_of chain)"
  unfolding tls_of_def by (intro keeps_intros)

lemma GetLogVerifier_keeps: "keeps (same_files u) (GetLogVerifier M cd sl cl ord logs)"
  unfolding GetLogVerifier_def GetLogInfo_def by (intro keeps_intros rpc_keeps)

lemmas quiet_intros = quiet_or_return_1 quiet_return_1 quiet_if quiet_prod keeps_intros tls_of_keeps
  GetLogVerifier_keeps GetRekorShards_keeps net_call_keeps

text \<open>The loop of a monitor that keeps its contract about the files.\<close>

context monitor_logic
begin

lemma run_loop_quiet: "quiet (ml_Once M) (output_files f config) (run_loop M pl es config)"
  unfolding quiet_def
proof (intro allI impI)
  fix w x w'
  assume run: "run_loop M pl es config w = (x, w')"
  let ?s = "\<lparr>ls_Config = config, ls_Metrics = initMetrics, ls_World = w, ls_Searched = []\<rparr>"
  obtain p s where loop: "MonitorLoop M pl es ?s = (p, s)" by fastforce
  with run have x: "x = loop_exit p" "w' = ls_World s" by (auto simp: run_loop_def)
  have "reachable M pl ?s (p, s)" using MonitorLoop_reachable [OF reachable.start] loop by metis
  from reachable_run_inv [OF this] have "kept_files f ?s (ls_World s)" by (simp add: run_inv_def)
  then have "\<forall>q. q \<notin> output_files f config \<longrightarrow> os_files w' q = os_files w q"
    by (auto simp: kept_files_def output_files_def x same_file_def)
  moreover have "\<forall>e. x \<noteq> Fatal e" by (cases p) (simp_all add: x)
  moreover have "ml_Once M \<longrightarrow> x \<noteq> StillRunning"
  proof
    assume once: "ml_Once M"
    obtain v s' where v: "monitor_run M pl ?s = (v, s')" by fastforce
    with monitor_run_once [OF once v] MonitorLoop_not_waiting [OF v] loop have "p = phase_after v" "v \<noteq> Wait" by simp_all
    then show "x \<noteq> StillRunning" by (cases v) (simp_all add: x)
  qed
  ultimately show "(\<forall>e. x \<noteq> Fatal e) \<and> (ml_Once M \<longrightarrow> x \<noteq> StillRunning) \<and>
      (\<forall>q. q \<notin> output_files f config \<longrightarrow> os_files w' q = os_files w q)" by blast
qed

end

lemma mainLoopV1_quiet: "quiet (mf_Once flags) (output_files (mf_LogInfoFile flags) config) (mainLoopV1 E flags config trustedRoot)"
proof -
  have "quiet (mf_Once flags) (output_files (mf_LogInfoFile flags) config)
      (run_loop (RekorV1MonitorLogic M cd sl lib el ordE ordM now_text cl k flags mvs) pl es config)"
    for M cd sl lib el ordE ordM now_text cl k mvs pl es
    using v1.run_loop_quiet [of M cd sl lib el ordE ordM now_text cl k flags mvs config pl es]
    by (simp add: RekorV1MonitorLogic_def)
  then show ?thesis unfolding mainLoopV1_def by (intro quiet_intros)
qed

lemma mainLoopV2_quiet:
  "quiet (mf_Once flags) (output_files (mf_LogInfoFile flags) config) (mainLoopV2 E t flags config shards orig)"
proof -
  have "quiet (mf_Once flags) (output_files (mf_LogInfoFile flags) config)
      (run_loop (RekorV2MonitorLogic L cd lib srt ord ordM now_text tr flags shards orig mvs) pl es config)"
    for L cd lib srt ord ordM now_text tr mvs pl es
    using v2.run_loop_quiet [of L cd lib srt ord ordM now_text tr flags shards orig mvs config pl es]
    by (simp add: RekorV2MonitorLogic_def)
  then show ?thesis unfolding mainLoopV2_def by (intro quiet_intros)
qed

section \<open>The trusted certificates and their cleanup\<close>

lemma ConfigureTrustedCAs_existing:
  assumes "fresh_names pick" and "ConfigureTrustedCAs pick config cas w = (r, w')" and "os_files w q \<noteq> None"
  shows "os_files w' q = os_files w q"
proof (cases "CARootsFile config = []")
  case True
  obtain r1 w1 where c1: "os_CreateTemp pick ''fulcio-root-*.pem'' w = (r1, w1)" by fastforce
  show ?thesis
  proof (cases r1)
    case (Ok a)
    with os_CreateTemp_cases [OF assms(1) c1] assms(3) have a: "a \<noteq> q" "os_files w1 q = os_files w q" by auto
    obtain r2 w2 where c2: "os_CreateTemp pick ''fulcio-intermediate-*.pem'' w1 = (r2, w2)" by fastforce
    with os_CreateTemp_cases [OF assms(1) c2] assms(3) a(2) have b: "os_files w2 q = os_files w q"
      "\<And>b. r2 = Ok b \<Longrightarrow> b \<noteq> q" by auto
    show ?thesis
    proof (cases r2)
      case (Ok b)
      obtain r3 w3 where c3: "io_each (write_authority a b) cas w2 = (r3, w3)" by fastforce
      have "os_files w3 q = os_files w q"
        using keeps_this_file [OF write_authorities_keeps c3, of q] a b Ok by simp
      then show ?thesis using True assms(2) \<open>r1 = Ok a\<close> c1 c2 c3 Ok a(1) b
        by (cases r3) (auto simp: ConfigureTrustedCAs_def io_bind_def io_wrap_apply Let_def os_Remove_def)
    qed (use True assms(2) Ok c1 c2 a(1) b in
        \<open>auto simp: ConfigureTrustedCAs_def io_bind_def io_wrap_apply Let_def os_Remove_def\<close>)
  qed (use True assms(1,2) c1 os_CreateTemp_cases [OF assms(1) c1] in
      \<open>auto simp: ConfigureTrustedCAs_def io_bind_def io_wrap_apply\<close>)
qed (use assms(2) in \<open>simp add: ConfigureTrustedCAs_def io_return_def\<close>)

lemma with_trusted_CAs:
  assumes "fresh_names pick"
    and "\<And>c. OutputIdentitiesFile c = OutputIdentitiesFile config \<Longrightarrow>
      IdentityMetadataFile c = IdentityMetadataFile config \<Longrightarrow> quiet once outs (body c)"
  shows "leaves_files once outs w (or_fatal (ConfigureTrustedCAs pick config cas)
     (\<lambda>(c, cleanup). deferred cleanup (body c)) w)"
proof -
  obtain r w1 where c: "ConfigureTrustedCAs pick config cas w = (r, w1)" by fastforce
  note old = ConfigureTrustedCAs_existing [OF assms(1) c]
  show ?thesis
  proof (cases r)
    case (Ok y)
    obtain c' cleanup where y: "y = (c', cleanup)" by fastforce
    obtain x w2 where run: "body c' w1 = (x, w2)" by fastforce
    have c': "OutputIdentitiesFile c' = OutputIdentitiesFile config \<and>
      IdentityMetadataFile c' = IdentityMetadataFile config \<and> (\<forall>v. \<forall>q. q \<notin> outs \<longrightarrow> os_files v q = os_files w1 q \<longrightarrow>
        os_files (cleanup v) q = os_files w q)"
    proof (cases "CARootsFile config = []")
      case True
      show ?thesis using assms(1) True c
      proof (cases rule: ConfigureTrustedCAs_cases)
        case (written a b w3)
        with keeps_this_file [OF write_authorities_keeps written(7)]
        have "os_files w1 q = os_files w q" if "q \<noteq> a" "q \<noteq> b" for q using that by simp
        with written(4,5,8) y Ok show ?thesis by (auto simp: os_Remove_def)
      qed (use Ok in simp)
    qed (use c Ok y in \<open>auto simp: ConfigureTrustedCAs_def io_return_def\<close>)
    with assms(2) run have q: "\<forall>e. x \<noteq> Fatal e" "once \<longrightarrow> x \<noteq> StillRunning"
      "\<forall>q. q \<notin> outs \<longrightarrow> os_files w2 q = os_files w1 q" unfolding quiet_def by metis+
    with c' have cleaned: "\<forall>q. q \<notin> outs \<longrightarrow> os_files (cleanup w2) q = os_files w q" by blast
    have "or_fatal (ConfigureTrustedCAs pick config cas) (\<lambda>(c, cleanup). deferred cleanup (body c)) w =
        (x, case x of StillRunning \<Rightarrow> w2 | Fatal e \<Rightarrow> w2 | _ \<Rightarrow> cleanup w2)"
      using c Ok y run by (simp add: or_exit_def deferred_def)
    with q cleaned old show ?thesis by (cases x) (auto simp: leaves_files_def)
  next
    case (Fail e)
    have "os_files w1 = os_files w"
    proof (cases "CARootsFile config = []")
      case True
      show ?thesis using assms(1) True c by (cases rule: ConfigureTrustedCAs_cases) (use Fail in auto)
    qed (use c Fail in \<open>simp add: ConfigureTrustedCAs_def io_return_def\<close>)
    with c Fail show ?thesis by (simp add: leaves_files_def or_exit_def)
  next
    case (Panic p)
    with c old show ?thesis by (simp add: leaves_files_def or_exit_def)
  qed
qed

lemma or_fatal_leaves:
  assumes "\<And>u. keeps (same_files u) m"
    and "\<And>y w1. m w = (Ok y, w1) \<Longrightarrow> os_files w1 = os_files w \<Longrightarrow> leaves_files once outs w1 (f y w1)"
  shows "leaves_files once outs w (or_fatal m f w)"
proof -
  obtain r w1 where m: "m w = (r, w1)" by fastforce
  have w1: "os_files w1 = os_files w" using keeps_same_files [OF assms(1) m] by (simp add: same_filesD)
  show ?thesis
  proof (cases r)
    case (Ok y)
    with assms(2) m w1 have "leaves_files once outs w1 (f y w1)" by blast
    then have "leaves_files once outs w (f y w1)" unfolding leaves_files_def w1 .
    with Ok m show ?thesis by (simp add: or_exit_def)
  qed (use m w1 in \<open>simp_all add: or_exit_def leaves_files_def\<close>)
qed

lemma GetTUFClient_keeps: "keeps (same_files u) (GetTUFClient tuf flags)"
  unfolding GetTUFClient_def by (intro keeps_intros net_call_keeps)

lemma loaded_leaves:
  assumes "\<And>flags config. load w = Ok (flags, config) \<Longrightarrow>
    leaves_files (mf_Once flags) (written_by names (Ok (flags, config))) w (f (flags, config) w)"
  shows "leaves_files (told_once (load w)) (written_by names (load w)) w (or_fatal (io_read load) f w)"
proof (cases "load w")
  case (Ok fc)
  with assms show ?thesis by (cases fc) (simp add: or_exit_def io_read_def told_once_def)
qed (simp_all add: or_exit_def io_read_def leaves_files_def)

lemma quiet_written:
  assumes "quiet (mf_Once flags') (output_files (mf_LogInfoFile flags') c) f"
    and "flags' = (if mf_LogInfoFile flags = [] then flags\<lparr>mf_LogInfoFile := n\<rparr> else flags)" and "n \<in> names"
    and "OutputIdentitiesFile c = OutputIdentitiesFile config" and "IdentityMetadataFile c = IdentityMetadataFile config"
  shows "quiet (mf_Once flags) (written_by names (Ok (flags, config))) f"
proof -
  have "output_files (mf_LogInfoFile flags') c \<subseteq> written_by names (Ok (flags, config))" "mf_Once flags' = mf_Once flags"
    using assms(2-5) by (auto simp: written_by_def output_files_def)
  with assms(1) show ?thesis unfolding quiet_def by (metis subsetD)
qed

lemma itoa_versions: "itoa 1 = ''1''" "itoa 2 = ''2''"
  by code_simp+

section \<open>Properties\<close>


text \<open>Two environments in which the client of the log cannot be made, after the files of trusted
  certificates have been.\<close>

definition demo_no_log :: "(unit, unit, unit, string, string, unit, unit, string, unit, unit) rekor_env" where
  "demo_no_log = demo_env\<lparr>env_GetRekorClient := \<lambda>_ _ _. Fail (Err ''no client'')\<rparr>"

definition demo_ct_env :: "(unit, unit, unit, string, string) ct_env" where
  "demo_ct_env =
     \<lparr>env_build = env_build demo_env, env_args = env_args demo_env, env_yaml = env_yaml demo_env,
      env_certlib = env_certlib demo_env, env_codec = env_codec demo_env,
      env_tuf = \<lparr>DefaultClient = \<lambda>n. (Ok (), n), StagingRoot = [], StagingMirror = [], tuf_New = \<lambda>_ _ n. (Ok (), n)\<rparr>,
      env_GetTrustedRoot = \<lambda>_ n. (Ok demo_root, n), env_GetSigningConfig = \<lambda>_ n. (Ok [], n), env_pick = demo_pick,
      env_platforms = demo_ct_quiet, env_now_text = \<lambda>_. ''now'', rng_OIDs = rev, rng_values = rev, rng_identities = rev,
      env_events = [], env_NewCTClient = \<lambda>_ _ _. Fail (Err ''no client''), env_now = \<lambda>_. 0, rng_ctlogs = rev\<rparr>"

lemma demo_load:
  "\<exists>flags config. ParseAndLoadConfig (env_build demo_env) demo_certlib (\<lambda>s c. Ok c) url ''default'' out ua
     (env_args demo_env) w = Ok (flags, config :: 'o IdentityMonitorConfiguration) \<and> mf_LogInfoFile flags = [] \<and>
     mf_TUFRepository flags = ''default'' \<and> mf_TUFRootPath flags = [] \<and> mf_HTTPSCertChainFile flags = [] \<and>
     mf_Once flags \<and>
     config = zero_config\<lparr>OutputIdentitiesFormat := ''text'', OutputIdentitiesFile := out @ ''.txt''\<rparr>"
proof -
  let ?c = "zero_config\<lparr>OutputIdentitiesFormat := ''text'', OutputIdentitiesFile := out @ ''.txt''\<rparr> ::
    'o IdentityMonitorConfiguration"
  obtain flags where flags: "ParseMonitorFlags (env_build demo_env) url ''default'' ua (env_args demo_env) = Ok flags"
    "mf_ConfigFile flags = []" "mf_ConfigYaml flags = ''x''" "mf_LogInfoFile flags = []"
    "mf_TUFRepository flags = ''default''" "mf_TUFRootPath flags = []" "mf_HTTPSCertChainFile flags = []"
    "mf_Once flags" "mf_CARootsFile flags = []" "mf_CAIntermediatesFile flags = []"
    by (simp add: ParseMonitorFlags_def demo_env_def flag_value_def)
  have "parsed_config (\<lambda>s c. Ok c) flags w = Ok (zero_config :: 'o IdentityMonitorConfiguration)"
    by (simp add: parsed_config_def flags)
  moreover have "configured_CAs flags (default_output out zero_config) = ?c"
    by (simp add: configured_CAs_def default_output_def flags zero_config_def)
  moreover have "Validate demo_certlib w ?c = Ok ()"
    by (simp add: Validate_Ok zero_config_def regexes_ok_def pem_file_ok_def)
  ultimately have "LoadMonitorConfig demo_certlib (\<lambda>s c. Ok c) flags out w = Ok ?c"
    by (simp add: LoadMonitorConfig_def)
  with flags show ?thesis by (simp add: ParseAndLoadConfig_def)
qed

lemma net_call_idle: "net_call (Pair r) w = (r, w)"
  by (simp add: net_call_def)

lemma demo_trusted:
  assumes "CARootsFile config = []" and "os_files w = Map.empty"
  shows "\<exists>c cleanup w'. ConfigureTrustedCAs demo_pick config [] w = (Ok (c, cleanup), w')"
  using assms
  by (simp add: ConfigureTrustedCAs_def io_bind_def io_wrap_apply os_CreateTemp_def demo_pick_def io_return_def Let_def)


end
