(* ===== verification/Chain.thy ===== *)
theory Chain
  imports Runs
begin

text \<open>
  The abstract state of a monitor is the checkpoint it has stored, and its only step is to replace it by
  one that the log has proved to extend it. The three monitors refine this: whatever a run does, the
  contents of the log info file before and after are joined by a chain of such steps.
\<close>

section \<open>The stored checkpoint\<close>

text \<open>What is read from the log info file, if it is there and not empty.\<close>

definition stored :: "(string \<Rightarrow> 'n world \<Rightarrow> 'c res) \<Rightarrow> string \<Rightarrow> 'n world \<Rightarrow> 'c res option" where
  "stored rd f w = (if has_log_info f w then Some (rd f w) else None)"

text \<open>The abstract step: a first checkpoint that meets \<open>first\<close>, or one that \<open>extends\<close> the stored one.\<close>

definition grows ::
  "('c \<Rightarrow> bool) \<Rightarrow> ('c \<Rightarrow> 'c \<Rightarrow> bool) \<Rightarrow> 'c res option \<Rightarrow> 'c res option \<Rightarrow> bool"
where
  "grows first extends x y \<longleftrightarrow> (\<exists>c. y = Some (Ok c) \<and>
     (x = None \<and> first c \<or> (\<exists>p. x = Some (Ok p) \<and> extends p c)))"

lemma same_file_log_info: "same_file f w w' \<Longrightarrow> has_log_info f w' = has_log_info f w"
  by (simp add: has_log_info_def same_file_reads)

lemma same_file_reads_log:
  assumes "same_file f w w'"
  shows "ReadLatestCheckpointRekorV1 cd f w' = ReadLatestCheckpointRekorV1 cd f w"
    "ReadLatestCheckpointRekorV2 cd f w' = ReadLatestCheckpointRekorV2 cd f w"
    "ReadLatestCTSignedTreeHead cd f w' = ReadLatestCTSignedTreeHead cd f w"
  using same_file_reads(1) [OF assms]
  by (simp_all add: ReadLatestCheckpointRekorV1_def ReadLatestCheckpointRekorV2_def
      ReadLatestCTSignedTreeHead_def readLastCheckpoint_def)

lemma same_file_writable: "same_file q w w' \<Longrightarrow> writable w' f = writable w f"
  by (simp add: same_file_def writable_def)

section \<open>What a write leaves in the file\<close>

context log_store
begin

lemma write_outcome:
  assumes "write_log c prev f force w = (r, w')" and "writable w f"
    and "\<And>s. encode c = Ok s \<Longrightarrow> decode s = Ok c \<and> storable s"
  shows "w' = w \<or> read_log f w' = Ok c \<and> os_Stat f w' \<noteq> Ok 0 \<and> is_ok (os_Stat f w')"
proof (cases "skips c prev force \<or> \<not> is_ok (encode c)")
  case True
  with assms(1) show ?thesis
    by (cases "encode c") (auto simp: write_eq io_bind_def io_res_def is_ok_def split: if_splits)
next
  case False
  then obtain s where s: "encode c = Ok s" by (auto simp: is_ok_def split: res.splits)
  let ?w = "w\<lparr>os_files := (os_files w)(f \<mapsto> flatten s @ [newline])\<rparr>"
  have "w' = ?w"
    using assms(1,2) s False by (simp add: write_eq io_bind_def io_res_def io_wrap_def os_WriteFile_ok)
  moreover have "read_log f ?w = Ok c"
    using assms(2,3) s read_line [of s ?w f] by (simp add: writable_def)
  ultimately show ?thesis by (simp add: os_Stat_def is_ok_def)
qed

end

lemma has_log_info_Stat: "os_Stat f w \<noteq> Ok 0 \<Longrightarrow> is_ok (os_Stat f w) \<Longrightarrow> has_log_info f w"
  by (auto simp: has_log_info_def is_ok_def split: res.splits)

section \<open>The contract of a monitor that extends what it has stored\<close>

text \<open>One more promise of a monitor: after a check, whatever was done to other files, its write of the
  checkpoint either leaves the file or makes an abstract step. \<open>codec_ok\<close> says that the texts the
  monitor stores are read back as they were.\<close>

locale checkpoint_chain = monitor_logic M f
  for M :: "('n, 'c, 'i, 'o) MonitorLogic" and f :: string +
  fixes contents :: "'n world \<Rightarrow> 'x" and step :: "'x \<Rightarrow> 'x \<Rightarrow> bool" and codec_ok :: bool
  assumes contents_local: "same_file f w w' \<Longrightarrow> contents w' = contents w"
    and write_steps:
      "codec_ok \<Longrightarrow> writable w f \<Longrightarrow> ml_RunConsistencyCheck M w = (Ok (prev, cur), w1) \<Longrightarrow>
       same_file f w w2 \<Longrightarrow> ml_WriteCheckpoint M prev cur w2 = (r, w3) \<Longrightarrow>
       contents w3 = contents w \<or> step (contents w) (contents w3)"
begin

lemma run_steps:
  assumes "monitor_run M pl s = (v, s')" and codec_ok and "writable (ls_World s) f"
    and "OutputIdentitiesFile (ls_Config s) \<noteq> f" and "IdentityMetadataFile (ls_Config s) \<noteq> Some f"
  shows "step\<^sup>*\<^sup>* (contents (ls_World s)) (contents (ls_World s'))"
  using assms(1)
proof (cases rule: monitor_run_cases)
  case (check_panics p w)
  from contents_local [OF same_files_file [OF check_keeps [OF check_panics(1)]]] check_panics(3)
  show ?thesis by simp
next
  case (check_fails err w)
  from contents_local [OF same_files_file [OF check_keeps [OF check_fails(1)]]] check_fails(3)
  show ?thesis by simp
next
  case (search_stops prev cur w r)
  have "same_file f (ls_World s) w" by (rule same_files_file [OF check_keeps [OF search_stops(1)]])
  also have "same_file f w (ls_World s')" using search_step_keeps [OF search_stops(2)] assms(4,5) by simp
  finally show ?thesis using contents_local by simp
next
  case (written prev cur w s2 r w')
  have "same_file f (ls_World s) w" by (rule same_files_file [OF check_keeps [OF written(1)]])
  also have "same_file f w (ls_World s2)" using search_step_keeps [OF written(2)] assms(4,5) by simp
  finally have "same_file f (ls_World s) (ls_World s2)" .
  from write_steps [OF assms(2,3) written(1) this written(3)] written(4) show ?thesis by auto
qed

theorem reachable_steps:
  assumes "reachable M pl s0 (p, s)" and "ls_Searched s0 = []" and codec_ok and "writable (ls_World s0) f"
    and "OutputIdentitiesFile (ls_Config s0) \<noteq> f" and "IdentityMetadataFile (ls_Config s0) \<noteq> Some f"
  shows "step\<^sup>*\<^sup>* (contents (ls_World s0)) (contents (ls_World s))"
  using assms(1)
proof (induction "(p, s)" arbitrary: p s)
  case (step t)
  obtain p1 s1 where t: "t = (p1, s1)" by fastforce
  from reachable_run_inv [OF step(1) [unfolded t] assms(2)]
  have inv: "same_settings (ls_Config s0) (ls_Config s1)" "kept_files f s0 (ls_World s1)"
    by (simp_all add: run_inv_def)
  obtain q where q: "q \<noteq> f" "OutputIdentitiesFile (ls_Config s0) \<noteq> q" "IdentityMetadataFile (ls_Config s0) \<noteq> Some q"
    using ex_new_if_finite [of "{f, OutputIdentitiesFile (ls_Config s0)} \<union> set_option (IdentityMetadataFile (ls_Config s0))"]
    by (auto simp: infinite_UNIV_listI)
  with inv(2) have "same_file q (ls_World s0) (ls_World s1)" by (simp add: kept_files_def)
  with assms(4) have writable: "writable (ls_World s1) f" by (simp add: same_file_writable)
  have before: "step\<^sup>*\<^sup>* (contents (ls_World s0)) (contents (ls_World s1))" by (rule step(2) [OF t])
  have "step\<^sup>*\<^sup>* (contents (ls_World s1)) (contents (ls_World s))"
    using step(3) [unfolded t]
  proof (cases rule: loop_step.cases)
    case (run v)
    from run_steps [OF run(3) assms(3) writable] inv(1) assms(5,6) show ?thesis by (metis same_settingsD(1,2))
  next
    case (tick g)
    then have "same_file f (ls_World s1) (ls_World s)" by (simp add: pass_time_def same_file_def)
    then show ?thesis using contents_local by simp
  qed simp
  with before show ?case by (rule rtranclp_trans)
qed simp

end

lemma written_steps:
  assumes "w3 = w2 \<or> rd f w3 = Ok c \<and> os_Stat f w3 \<noteq> Ok 0 \<and> is_ok (os_Stat f w3)" and "same_file f w w2"
    and "rd f w2 = rd f w"
    and "case prev of None \<Rightarrow> \<not> has_log_info f w \<and> first c
      | Some p \<Rightarrow> has_log_info f w \<and> rd f w = Ok p \<and> extends p c"
  shows "stored rd f w3 = stored rd f w \<or> grows first extends (stored rd f w) (stored rd f w3)"
  using assms(1)
proof
  assume "w3 = w2"
  then show ?thesis using same_file_log_info [OF assms(2)] assms(3) by (simp add: stored_def)
next
  assume "rd f w3 = Ok c \<and> os_Stat f w3 \<noteq> Ok 0 \<and> is_ok (os_Stat f w3)"
  then have "stored rd f w3 = Some (Ok c)" using has_log_info_Stat [of f w3] by (simp add: stored_def)
  then show ?thesis using assms(4) by (cases prev) (simp_all add: grows_def stored_def)
qed

section \<open>The three monitors\<close>

text \<open>The texts of the checkpoints in \<open>C\<close> are read back as they were.\<close>

definition texts_kept :: "('c \<Rightarrow> string res) \<Rightarrow> (string \<Rightarrow> 'c res) \<Rightarrow> 'c set \<Rightarrow> bool" where
  "texts_kept encode decode C \<longleftrightarrow> (\<forall>c \<in> C. \<forall>s. encode c = Ok s \<longrightarrow> decode s = Ok c \<and> storable s)"

lemma texts_keptD: "texts_kept encode decode C \<Longrightarrow> c \<in> C \<Longrightarrow> encode c = Ok s \<Longrightarrow> decode s = Ok c \<and> storable s"
  by (simp add: texts_kept_def)

text \<open>Rekor v1: the verifier accepts the signatures, and the log has proved consistency.\<close>

definition texts_kept_v1 :: "codec \<Rightarrow> bool" where
  "texts_kept_v1 cd \<longleftrightarrow> texts_kept (sc_MarshalText cd) (sc_UnmarshalText cd) {c. \<exists>t. sc_UnmarshalText cd t = Ok c}"

definition grows_v1 ::
  "'k sig_lib \<Rightarrow> 'n v1_client \<Rightarrow> 'k \<Rightarrow> SignedCheckpoint res option \<Rightarrow> SignedCheckpoint res option \<Rightarrow> bool"
where
  "grows_v1 sl cl k = grows (\<lambda>c. Verify sl k c) (\<lambda>p c. Verify sl k p \<and> Verify sl k c \<and>
     (\<exists>treeID n n'. ProveConsistency cl p c treeID n = (Ok (), n')))"

lemma write_steps_v1:
  assumes "texts_kept_v1 cd" and "writable w f"
    and "RunConsistencyCheck M cd sl cl k f w = (Ok (prev, cur), w1)" and "same_file f w w2"
    and "WriteCheckpoint_v1 cd flags prev cur w2 = (r, w3)" and "f = mf_LogInfoFile flags"
  shows "stored (ReadLatestCheckpointRekorV1 cd) f w3 = stored (ReadLatestCheckpointRekorV1 cd) f w \<or>
    grows_v1 sl cl k (stored (ReadLatestCheckpointRekorV1 cd) f w) (stored (ReadLatestCheckpointRekorV1 cd) f w3)"
proof -
  from RunConsistencyCheck_Ok [OF assms(3)] obtain a info b sth c where
    cur: "cur = Some (a, info)" "li_SignedTreeHead info = Some (b, sth)" "sc_UnmarshalText cd sth = Ok c"
    and c: "Verify sl k c" and prev: "case prev of
          None \<Rightarrow> \<not> has_log_info f w
        | Some p \<Rightarrow> has_log_info f w \<and> ReadLatestCheckpointRekorV1 cd f w = Ok p \<and> Verify sl k p \<and>
            (\<exists>c' treeID n n'. li_TreeID info = Some (c', treeID) \<and> ProveConsistency cl p c treeID n = (Ok (), n'))"
    by blast
  from assms(5,6) cur obtain r' where "WriteCheckpointRekorV1 cd c prev f False w2 = (r', w3)"
    by (cases "WriteCheckpointRekorV1 cd c prev f False w2")
      (auto simp: WriteCheckpoint_v1_def asserted_def ReadLatestCheckpoint_def io_bind_def io_res_def io_wrap_apply)
  moreover have "writable w2 f" using assms(2,4) by (simp add: same_file_writable)
  moreover have "sc_UnmarshalText cd s = Ok c \<and> storable s"
    if "rwrap ''failed to marshal checkpoint: '' (sc_MarshalText cd c) = Ok s" for s
    using texts_keptD [OF assms(1) [unfolded texts_kept_v1_def], of c s] cur(3) that by (auto simp: rwrap_Ok_iff)
  ultimately have "w3 = w2 \<or> ReadLatestCheckpointRekorV1 cd f w3 = Ok c \<and> os_Stat f w3 \<noteq> Ok 0 \<and> is_ok (os_Stat f w3)"
    by (rule v1_log.write_outcome)
  then show ?thesis
    using same_file_reads_log(1) [OF assms(4)] unfolding grows_v1_def
    by (rule written_steps [OF _ assms(4), where prev = prev]) (use prev c in \<open>auto split: option.splits\<close>)
qed

interpretation v1_chain: checkpoint_chain
  "RekorV1MonitorLogic M cd sl lib el ordE ordM now_text cl k flags mvs" "mf_LogInfoFile flags"
  "stored (ReadLatestCheckpointRekorV1 cd) (mf_LogInfoFile flags)" "grows_v1 sl cl k" "texts_kept_v1 cd"
  for M cd sl lib el ordE ordM now_text cl k flags mvs
proof
  fix w w' :: "'a world"
  assume "same_file (mf_LogInfoFile flags) w w'"
  then show "stored (ReadLatestCheckpointRekorV1 cd) (mf_LogInfoFile flags) w' =
      stored (ReadLatestCheckpointRekorV1 cd) (mf_LogInfoFile flags) w"
    by (simp add: stored_def same_file_log_info same_file_reads_log)
qed (rule write_steps_v1; simp add: RekorV1MonitorLogic_def)

text \<open>Rekor v2: the shard of the stored checkpoint has proved that a checkpoint of it extends the stored
  one, which is the new one unless another shard has taken over.\<close>

definition texts_kept_v2 :: "('n, 'c, 'k, 'b) v2_lib \<Rightarrow> codec \<Rightarrow> bool" where
  "texts_kept_v2 L cd \<longleftrightarrow> texts_kept (\<lambda>c. Ok (cp_Marshal cd c)) (cp_Unmarshal cd)
     {c. \<exists>x n n'. ReadCheckpoint L x n = (Ok c, n')}"

definition grows_v2 :: "('n, 'c, 'k, 'b) v2_lib \<Rightarrow> Checkpoint res option \<Rightarrow> Checkpoint res option \<Rightarrow> bool" where
  "grows_v2 L = grows (\<lambda>c. \<exists>x n n'. ReadCheckpoint L x n = (Ok c, n'))
     (\<lambda>p c. (\<exists>x n n'. ReadCheckpoint L x n = (Ok c, n')) \<and> (\<exists>x new n n' pf. ReadCheckpoint L x n = (Ok new, n') \<and>
        cp_Origin new = cp_Origin p \<and> (cp_Origin c = cp_Origin p \<longrightarrow> new = c) \<and>
        VerifyConsistency L (cp_Size p) (cp_Size new) pf (cp_Hash p) (cp_Hash new) = Ok ()))"

text \<open>A client returns checkpoints of the origin it was made for, as the tile reader checks their first
  line, and the shards are stored under the origins of their clients.\<close>

definition keyed :: "('c \<Rightarrow> string) \<Rightarrow> ('c, 'k) shards \<Rightarrow> bool" where
  "keyed origin_of shards \<longleftrightarrow> (\<forall>orig sh. map_of shards orig = Some sh \<longrightarrow> origin_of (si_client sh) = orig)"

definition reads_origin :: "('n, 'c, 'k, 'b) v2_lib \<Rightarrow> ('c \<Rightarrow> string) \<Rightarrow> bool" where
  "reads_origin L origin_of \<longleftrightarrow> (\<forall>x n c n'. ReadCheckpoint L x n = (Ok c, n') \<longrightarrow> cp_Origin c = origin_of x)"

lemma add_shards_keyed:
  "add_shards L ord logs ua tls services (shards, latest) w = (Ok (shards', latest'), w') \<Longrightarrow>
   reads_origin L origin_of \<Longrightarrow> keyed origin_of shards \<Longrightarrow> keyed origin_of shards'"
proof (induction services arbitrary: shards latest w)
  case (Cons s services)
  from Cons.prems(1) obtain shards1 latest1 w1
    where one: "add_shard L ord logs ua tls s (shards, latest) w = (Ok (shards1, latest1), w1)"
    and rest: "add_shards L ord logs ua tls services (shards1, latest1) w1 = (Ok (shards', latest'), w')"
    by (auto simp: res_simps)
  from add_shard_Ok [OF one] obtain k c cp n n' where "ReadCheckpoint L c n = (Ok cp, n')"
    "shards1 = AList.update (cp_Origin cp) \<lparr>si_client = c, si_verifier = k,
      si_validityEnd = svc_ValidityPeriodEnd s\<rparr> shards" by blast
  moreover from this(1) Cons.prems(2) have "origin_of c = cp_Origin cp" unfolding reads_origin_def by metis
  ultimately have "keyed origin_of shards1" using Cons.prems(3) by (auto simp: keyed_def update_conv')
  with Cons.IH [OF rest Cons.prems(2)] show ?case by blast
qed (simp add: io_return_def)

lemma check_v2_Ok:
  assumes "RunConsistencyCheck_logic_v2 L cd srt ord tr flags shards orig w = (Ok (prev, cur), w')"
    and "reads_origin L origin_of" and "keyed origin_of shards"
  obtains shards' orig' w1 c where "cur = Some c" and "keyed origin_of shards'" and "same_files w w'"
    and "RunConsistencyCheck_v2 L cd shards' orig' (mf_LogInfoFile flags) w1 = (Ok (prev, c), w')"
proof -
  have files: "same_files w w'" using keeps_same_files [OF check_keeps_v2 assms(1)] .
  from assms(1) obtain sc upd w2 shards' orig' w1 c where
    sel: "(if upd then
         io_bind (io_wrap ''error getting trusted root: '' (net_call tr)) (\<lambda>trustedRoot.
           io_wrap ''error getting shards: ''
             (GetRekorShards L srt ord trustedRoot sc (mf_UserAgent flags) (mf_HTTPSCertChainFile flags)))
       else io_return (shards, orig)) w2 = (Ok (shards', orig'), w1)"
    and check: "RunConsistencyCheck_v2 L cd shards' orig' (mf_LogInfoFile flags) w1 = (Ok (prev, c), w')"
    and cur: "cur = Some c"
    unfolding RunConsistencyCheck_logic_v2_def by (auto simp: io_bind_Ok_iff io_return_def)
  have "keyed origin_of shards'"
  proof (cases upd)
    case True
    with sel obtain logs w3 where "GetRekorShards L srt ord logs sc (mf_UserAgent flags) (mf_HTTPSCertChainFile flags) w3 =
        (Ok (shards', orig'), w1)"
      by (auto simp: res_simps)
    from GetRekorShards_Ok [OF this] obtain tls services w4 where
      "add_shards L ord logs (mf_UserAgent flags) tls services ([], []) w4 = (Ok (shards', orig'), w1)" by blast
    from add_shards_keyed [OF this assms(2)] show ?thesis by (simp add: keyed_def)
  qed (use sel assms(3) in \<open>simp add: io_return_def\<close>)
  from that [OF cur this files check] show thesis .
qed

lemma write_steps_v2:
  assumes "texts_kept_v2 L cd \<and> reads_origin L origin_of \<and> keyed origin_of shards" and "writable w f"
    and "RunConsistencyCheck_logic_v2 L cd srt ord tr flags shards orig w = (Ok (prev, cur), w1)" and "same_file f w w2"
    and "WriteCheckpoint_v2 cd flags prev cur w2 = (r, w3)" and "f = mf_LogInfoFile flags"
  shows "stored (ReadLatestCheckpointRekorV2 cd) f w3 = stored (ReadLatestCheckpointRekorV2 cd) f w \<or>
    grows_v2 L (stored (ReadLatestCheckpointRekorV2 cd) f w) (stored (ReadLatestCheckpointRekorV2 cd) f w3)"
proof -
  from assms(1) have texts: "texts_kept_v2 L cd" and origin: "reads_origin L origin_of" and "keyed origin_of shards"
    by auto
  from check_v2_Ok [OF assms(3) this(2,3)] obtain shards' orig' w0 c where cur: "cur = Some c"
    and keyed: "keyed origin_of shards'" and files: "same_files w w1"
    and check: "RunConsistencyCheck_v2 L cd shards' orig' f w0 = (Ok (prev, c), w1)"
    unfolding assms(6) .
  from RunConsistencyCheck_v2_Ok [OF check] have w0: "same_files w0 w1" by blast
  from RunConsistencyCheck_v2_Ok [OF check] obtain sh n n' where
    sh: "map_of shards' orig' = Some sh" and c: "ReadCheckpoint L (si_client sh) n = (Ok c, n')"
    by blast
  have prev: "case prev of
       None \<Rightarrow> \<not> has_log_info f w
     | Some p \<Rightarrow> has_log_info f w \<and> ReadLatestCheckpointRekorV2 cd f w = Ok p \<and> compared_v2 L shards' orig' c p"
    using RunConsistencyCheck_v2_Ok [OF check] has_log_info_same_files(1) [OF files] has_log_info_same_files(1) [OF w0]
      ReadLatestCheckpointRekorV2_same_files [OF files] ReadLatestCheckpointRekorV2_same_files [OF w0]
    by (simp split: option.splits)
  have extends: "\<exists>x new n n' pf. ReadCheckpoint L x n = (Ok new, n') \<and> cp_Origin new = cp_Origin p \<and>
      (cp_Origin c = cp_Origin p \<longrightarrow> new = c) \<and>
      VerifyConsistency L (cp_Size p) (cp_Size new) pf (cp_Hash p) (cp_Hash new) = Ok ()"
    if compared: "compared_v2 L shards' orig' c p" for p
  proof -
    from compared obtain sh' new pf where sh': "map_of shards' (cp_Origin p) = Some sh'"
      and new: "if cp_Origin p = orig' then new = c else \<exists>n n'. ReadCheckpoint L (si_client sh') n = (Ok new, n')"
      and ok: "VerifyConsistency L (cp_Size p) (cp_Size new) pf (cp_Hash p) (cp_Hash new) = Ok ()"
      unfolding compared_v2_def by blast
    have orig: "cp_Origin c = orig'" using sh c keyed origin unfolding keyed_def reads_origin_def by metis
    have "origin_of (si_client sh') = cp_Origin p" using sh' keyed unfolding keyed_def by blast
    moreover have "\<exists>n n'. ReadCheckpoint L (si_client sh') n = (Ok new, n')" using new c sh sh' by (auto split: if_splits)
    ultimately have "cp_Origin new = cp_Origin p" using origin unfolding reads_origin_def by metis
    with new ok orig \<open>\<exists>n n'. ReadCheckpoint L (si_client sh') n = (Ok new, n')\<close> show ?thesis
      by (auto split: if_splits)
  qed
  from assms(5,6) cur obtain r' where "WriteCheckpointRekorV2 cd c prev f False w2 = (r', w3)"
    by (cases "WriteCheckpointRekorV2 cd c prev f False w2") (auto simp: WriteCheckpoint_v2_def io_wrap_apply)
  moreover have "writable w2 f" using assms(2,4) by (simp add: same_file_writable)
  moreover have "cp_Unmarshal cd s = Ok c \<and> storable s" if "Ok (cp_Marshal cd c) = Ok s" for s
    using texts_keptD [OF texts [unfolded texts_kept_v2_def], of c s] c that by blast
  ultimately have "w3 = w2 \<or> ReadLatestCheckpointRekorV2 cd f w3 = Ok c \<and> os_Stat f w3 \<noteq> Ok 0 \<and> is_ok (os_Stat f w3)"
    by (rule v2_log.write_outcome)
  moreover have "\<exists>x n n'. ReadCheckpoint L x n = (Ok c, n')" using c by blast
  ultimately show ?thesis
    using same_file_reads_log(2) [OF assms(4)] prev extends unfolding grows_v2_def
    by (intro written_steps [OF _ assms(4), where prev = prev and c = c]) (auto split: option.splits)
qed

interpretation v2_chain: checkpoint_chain
  "RekorV2MonitorLogic L cd lib srt ord ordM now_text tr flags shards orig mvs" "mf_LogInfoFile flags"
  "stored (ReadLatestCheckpointRekorV2 cd) (mf_LogInfoFile flags)" "grows_v2 L"
  "texts_kept_v2 L cd \<and> reads_origin L origin_of \<and> keyed origin_of shards"
  for L cd lib srt ord ordM now_text tr flags shards orig mvs origin_of
proof
  fix w w' :: "'a world"
  assume "same_file (mf_LogInfoFile flags) w w'"
  then show "stored (ReadLatestCheckpointRekorV2 cd) (mf_LogInfoFile flags) w' =
      stored (ReadLatestCheckpointRekorV2 cd) (mf_LogInfoFile flags) w"
    by (simp add: stored_def same_file_log_info same_file_reads_log)
qed (rule write_steps_v2 [where origin_of = origin_of]; simp add: RekorV2MonitorLogic_def)

text \<open>Certificate transparency: the signatures are good and the log has proved consistency, but nothing
  is known of the first tree head.\<close>

definition texts_kept_ct :: "codec \<Rightarrow> bool" where
  "texts_kept_ct cd \<longleftrightarrow> texts_kept (sth_Marshal cd) (\<lambda>s. sth_Unmarshal cd (s @ [newline])) UNIV"

definition grows_ct ::
  "('n, 'v, 'p) ct_lib \<Rightarrow> SignedTreeHead res option \<Rightarrow> SignedTreeHead res option \<Rightarrow> bool"
where
  "grows_ct L = grows (\<lambda>c. True) (\<lambda>p c. \<exists>v sth logid pf. c = sth\<lparr>sth_LogID := logid\<rparr> \<and>
     VerifySTHSignature L (Some v) p = Ok () \<and> VerifySTHSignature L (Some v) sth = Ok () \<and>
     VerifyConsistency_ct L (sth_TreeSize p) (sth_TreeSize c) pf (sth_SHA256RootHash p) (sth_SHA256RootHash c) = Ok ())"

lemma write_steps_ct:
  assumes "texts_kept_ct cd" and "writable w f"
    and "RunConsistencyCheck_logic_ct L cd ord logs flags w = (Ok (prev, cur), w1)" and "same_file f w w2"
    and "WriteCheckpoint_ct cd flags prev cur w2 = (r, w3)" and "f = mf_LogInfoFile flags"
  shows "stored (ReadLatestCTSignedTreeHead cd) f w3 = stored (ReadLatestCTSignedTreeHead cd) f w \<or>
    grows_ct L (stored (ReadLatestCTSignedTreeHead cd) f w) (stored (ReadLatestCTSignedTreeHead cd) f w3)"
proof -
  from assms(3,6) obtain c where cur: "cur = Some c" and check: "RunConsistencyCheck_ct L cd ord logs f w = (Ok (prev, c), w1)"
    by (auto simp: RunConsistencyCheck_logic_ct_def res_simps)
  from RunConsistencyCheck_ct_Ok [OF check] obtain v sth logid where c: "c = sth\<lparr>sth_LogID := logid\<rparr>"
    and prev: "case prev of
          None \<Rightarrow> \<not> has_log_info f w
        | Some p \<Rightarrow> has_log_info f w \<and> ReadLatestCTSignedTreeHead cd f w = Ok p \<and>
            VerifySTHSignature L (Some v) p = Ok () \<and> VerifySTHSignature L (Some v) sth = Ok () \<and>
            (\<exists>pf. VerifyConsistency_ct L (sth_TreeSize p) (sth_TreeSize sth) pf
               (sth_SHA256RootHash p) (sth_SHA256RootHash sth) = Ok ())"
    by blast
  from assms(5,6) cur obtain r' where "WriteCTSignedTreeHead cd c prev f False w2 = (r', w3)"
    by (cases "WriteCTSignedTreeHead cd c prev f False w2") (auto simp: WriteCheckpoint_ct_def io_wrap_apply)
  moreover have "writable w2 f" using assms(2,4) by (simp add: same_file_writable)
  ultimately have "w3 = w2 \<or> ReadLatestCTSignedTreeHead cd f w3 = Ok c \<and> os_Stat f w3 \<noteq> Ok 0 \<and> is_ok (os_Stat f w3)"
    using texts_keptD [OF assms(1) [unfolded texts_kept_ct_def], of c] by (rule ct_log.write_outcome) simp_all
  then show ?thesis
    using same_file_reads_log(3) [OF assms(4)] unfolding grows_ct_def
    by (rule written_steps [OF _ assms(4), where prev = prev]) (use prev c in \<open>auto split: option.splits\<close>)
qed

interpretation ct_chain: checkpoint_chain
  "CTMonitorLogic L cd lib ord ordM now_text now logs flags mvs" "mf_LogInfoFile flags"
  "stored (ReadLatestCTSignedTreeHead cd) (mf_LogInfoFile flags)" "grows_ct L" "texts_kept_ct cd"
  for L cd lib ord ordM now_text now logs flags mvs
proof
  fix w w' :: "('a, 'b) ct_net world"
  assume "same_file (mf_LogInfoFile flags) w w'"
  then show "stored (ReadLatestCTSignedTreeHead cd) (mf_LogInfoFile flags) w' =
      stored (ReadLatestCTSignedTreeHead cd) (mf_LogInfoFile flags) w"
    by (simp add: stored_def same_file_log_info same_file_reads_log)
qed (rule write_steps_ct; simp add: CTMonitorLogic_def)

section \<open>Small runs\<close>

text \<open>A first pass that has nothing to search for.\<close>

lemma first_write:
  assumes "ml_RunConsistencyCheck M (ls_World s0) = (Ok (prev, cur), w1)" and "ml_WriteCheckpoint M prev cur w1 = (Ok (), w2)"
    and "\<not> MonitoredValuesExist (ml_MonitoredValues M)" and "\<not> ml_Once M" and "EndIndex (ls_Config s0) = None"
  shows "\<exists>s. reachable M pl s0 (Waiting, s) \<and> ls_World s = w2"
proof -
  have "monitor_run M pl s0 = (Wait, s0\<lparr>ls_Metrics := IncLogIndexVerificationTotal (ls_Metrics s0), ls_World := w2\<rparr>)"
    using assms by (simp add: monitor_run_def on_world_eq Let_def search_step_def io_bind_def io_return_def io_wrap_apply)
  from loop_step.run [OF this] have "reachable M pl s0 (phase_after Wait,
      s0\<lparr>ls_Metrics := IncLogIndexVerificationTotal (ls_Metrics s0), ls_World := w2\<rparr>)"
    by (rule reachable.step [OF reachable.start])
  then show ?thesis by (intro exI) auto
qed

definition no_values :: MonitoredValues where
  "no_values = \<lparr>mv_CertificateIdentities = [], mv_Fingerprints = [], mv_Subjects = [], mv_OIDMatchers = []\<rparr>"

lemma no_values: "\<not> MonitoredValuesExist no_values"
  by (simp add: no_values_def MonitoredValuesExist_def)

lemma storable_chars:
  assumes "\<forall>c \<in> set s. c \<noteq> CHR 0x5C \<and> c \<noteq> CHR 0x0D" and "length s < 1000"
  shows "storable s"
proof -
  have "\<not> sublist backslash_n s"
  proof
    assume "sublist backslash_n s"
    from set_mono_sublist [OF this] have "CHR 0x5C \<in> set s" by (simp add: backslash_n_def)
    with assms(1) show False by blast
  qed
  moreover have "length (flatten s) \<le> 2 * length s" by (induction s) (auto simp: backslash_n_def)
  moreover have "s = [] \<or> last s \<noteq> CHR 0x0D" using assms(1) last_in_set by blast
  ultimately show ?thesis using assms(2) by (simp add: storable_def str_contains_def max_scan_token_def)
qed

section \<open>Properties\<close>

text \<open>C3. The v1 monitor refines the abstract monitor: whatever a run does, and with whatever failures, the
  stored checkpoint of every state it can reach comes from the one it began with by steps each of which
  the log has proved, between checkpoints whose signatures the verifier accepts; without one to begin
  with, the first is one that the verifier accepts. The disk has to work, the output files must be
  others, and checkpoints must be read back as they were written.\<close>

theorem stored_chain_v1:
  fixes s :: "('n, 'o) loop_state"
  assumes "reachable (RekorV1MonitorLogic M cd sl lib el ordE ordM now_text cl k flags mvs) pl s0 (p, s)"
    and "ls_Searched s0 = []" and "texts_kept_v1 cd" and "writable (ls_World s0) (mf_LogInfoFile flags)"
    and "OutputIdentitiesFile (ls_Config s0) \<noteq> mf_LogInfoFile flags"
    and "IdentityMetadataFile (ls_Config s0) \<noteq> Some (mf_LogInfoFile flags)"
  shows "(grows_v1 sl cl k)\<^sup>*\<^sup>* (stored (ReadLatestCheckpointRekorV1 cd) (mf_LogInfoFile flags) (ls_World s0))
     (stored (ReadLatestCheckpointRekorV1 cd) (mf_LogInfoFile flags) (ls_World s))"
  by (rule v1_chain.reachable_steps [OF assms(1,2,3,4,5,6)])

definition demo_chain_codec :: codec where
  "demo_chain_codec = demo_codec
     \<lparr>sc_UnmarshalText := \<lambda>s. if s = newline # ''7'' then Ok demo_checkpoint else Fail (Err ''other''),
      cp_Unmarshal := \<lambda>s. Ok \<lparr>cp_Origin = ''a'', cp_Size = 257, cp_Hash = ''h''\<rparr>,
      sth_Marshal := \<lambda>s. if s = demo_sth 9\<lparr>sth_LogID := ''k''\<rparr> then Ok ''9'' else Fail (Err ''other''),
      sth_Unmarshal := \<lambda>s. Ok (demo_sth 9\<lparr>sth_LogID := ''k''\<rparr>)\<rparr>"

lemma demo_line: "flatten (newline # ''7'') @ [newline] = backslash_n @ ''7'' @ [newline]"
  "storable (newline # ''7'')" "storable ''9''" "storable (''a'' @ newline # ''257'')"
  by (simp add: flatten_eq newline_def) (rule storable_chars; simp add: newline_def)+

definition demo_chain_v1 :: "(unit, SignedCheckpoint, nat \<times> LogInfo, unit) MonitorLogic" where
  "demo_chain_v1 = RekorV1MonitorLogic demo_clock demo_chain_codec demo_sig_lib demo_certlib demo_entry_lib rev rev
     (\<lambda>_. ''now'') demo_small_client ''rekor'' (demo_flags False) no_values"

definition demo_stored :: "string \<Rightarrow> 'n world \<Rightarrow> 'n world" where
  "demo_stored t w = w\<lparr>os_files := [''log'' \<mapsto> flatten t @ [newline]]\<rparr>"

lemma demo_chain_codec:
  "sc_UnmarshalText demo_chain_codec (newline # ''7'') = Ok demo_checkpoint"
  "sc_MarshalText demo_chain_codec demo_checkpoint = Ok (newline # ''7'')" "sc_Size demo_checkpoint = 7"
  "texts_kept_v1 demo_chain_codec" "texts_kept_ct demo_chain_codec"
proof -
  show codec: "sc_UnmarshalText demo_chain_codec (newline # ''7'') = Ok demo_checkpoint"
    "sc_MarshalText demo_chain_codec demo_checkpoint = Ok (newline # ''7'')" "sc_Size demo_checkpoint = 7"
    by (simp_all add: demo_chain_codec_def demo_codec_def demo_checkpoint_def itoa_def show_nat.simps)
  show "texts_kept_v1 demo_chain_codec" using codec demo_line(2)
    by (auto simp: texts_kept_v1_def texts_kept_def) (auto simp: demo_chain_codec_def split: if_splits)
  show "texts_kept_ct demo_chain_codec" using demo_line(3)
    by (auto simp: texts_kept_ct_def texts_kept_def demo_chain_codec_def split: if_splits)
qed

lemma demo_start_files:
  "ls_Searched demo_start = []" "writable (ls_World demo_start) (mf_LogInfoFile (demo_flags False))"
  "OutputIdentitiesFile (ls_Config demo_start) \<noteq> mf_LogInfoFile (demo_flags False)"
  "IdentityMetadataFile (ls_Config demo_start) \<noteq> Some (mf_LogInfoFile (demo_flags False))"
  "stored rd ''log'' (ls_World demo_start) = None"
  by (simp_all add: demo_start_def demo_config_def demo_flags_def writable_def demo_world_def stored_def
      has_log_info_def os_Stat_def)

lemma demo_stored_reads:
  "os_open_err w ''log'' = None \<Longrightarrow> has_log_info ''log'' (demo_stored t w)"
  "os_open_err w ''log'' = None \<Longrightarrow> storable t \<Longrightarrow> readLastCheckpoint ''log'' (demo_stored t w) = Ok t"
  by (simp add: demo_stored_def has_log_info_def os_Stat_def) (rule read_stored_line; simp add: demo_stored_def)

lemma demo_chain_pass_v1:
  "\<exists>s. reachable demo_chain_v1 demo_quiet demo_start (Waiting, s) \<and> ls_World s = demo_stored (newline # ''7'') demo_world"
proof (rule first_write)
  have latest: "ReadLatestCheckpoint demo_chain_codec (Some demo_info) = Ok demo_checkpoint"
    by (simp add: ReadLatestCheckpoint_def demo_info_def demo_chain_codec)
  have info: "GetLogInfo demo_clock demo_small_client demo_world = (Ok (Some demo_info), demo_world)"
    unfolding GetLogInfo_def
    using rpc_first_try [of "rpc_GetLogInfo demo_small_client" demo_world "Some demo_info" "()" demo_clock]
    by (simp add: demo_small_client_def demo_info_def demo_world_def)
  have "verifyLatestCheckpointSignature demo_chain_codec demo_sig_lib (Some demo_info) ''rekor'' = Ok demo_checkpoint"
    by (simp add: verifyLatestCheckpointSignature_def latest demo_sig_lib_def) (simp add: demo_checkpoint_def)
  moreover have "\<not> has_log_info ''log'' demo_world" by (simp add: has_log_info_def os_Stat_def demo_world_def)
  ultimately have "RunConsistencyCheck demo_clock demo_chain_codec demo_sig_lib demo_small_client ''rekor'' ''log'' demo_world =
      (Ok (None, Some demo_info), demo_world)"
    by (simp add: RunConsistencyCheck_def info io_bind_def io_wrap_apply io_res_def io_read_def io_return_def)
  then show "ml_RunConsistencyCheck demo_chain_v1 (ls_World demo_start) = (Ok (None, Some demo_info), demo_world)"
    by (simp add: demo_chain_v1_def RekorV1MonitorLogic_def demo_flags_def demo_start_def)
  have "writable demo_world ''log''" by (simp add: writable_def demo_world_def)
  from os_WriteFile_ok [OF this]
  show "ml_WriteCheckpoint demo_chain_v1 None (Some demo_info) demo_world = (Ok (), demo_stored (newline # ''7'') demo_world)"
    by (simp add: demo_chain_v1_def RekorV1MonitorLogic_def WriteCheckpoint_v1_def asserted_def io_bind_def io_res_def
        io_wrap_apply latest demo_chain_codec demo_flags_def WriteCheckpointRekorV1_def writeCheckpointBytes_def)
      (simp add: demo_world_def demo_stored_def)
qed (simp_all add: demo_chain_v1_def RekorV1MonitorLogic_def no_values demo_flags_def demo_start_def demo_config_def)

theorem stored_chain_v1_witness:
  "\<exists>s. (grows_v1 demo_sig_lib demo_small_client ''rekor'')\<^sup>*\<^sup>* None
     (stored (ReadLatestCheckpointRekorV1 demo_chain_codec) ''log'' (ls_World (s :: (unit, unit) loop_state))) \<and>
     stored (ReadLatestCheckpointRekorV1 demo_chain_codec) ''log'' (ls_World s) = Some (Ok demo_checkpoint)"
proof -
  obtain s where s: "reachable demo_chain_v1 demo_quiet demo_start (Waiting, s)"
    "ls_World s = demo_stored (newline # ''7'') demo_world"
    using demo_chain_pass_v1 by blast
  have "(grows_v1 demo_sig_lib demo_small_client ''rekor'')\<^sup>*\<^sup>* None
      (stored (ReadLatestCheckpointRekorV1 demo_chain_codec) ''log'' (ls_World s))"
    using stored_chain_v1 [OF s(1) [unfolded demo_chain_v1_def] demo_start_files(1) demo_chain_codec(4) demo_start_files(2-4)]
    by (simp add: demo_flags_def demo_start_files(5))
  moreover have "stored (ReadLatestCheckpointRekorV1 demo_chain_codec) ''log'' (ls_World s) = Some (Ok demo_checkpoint)"
    using demo_stored_reads [of demo_world "newline # ''7''"] demo_line(2) demo_chain_codec(1)
    by (simp add: stored_def s(2) ReadLatestCheckpointRekorV1_def) (simp add: demo_world_def)
  ultimately show ?thesis by blast
qed

text \<open>C4. The v2 monitor refines the abstract monitor as well: each step replaces the stored checkpoint by
  one that a client has read, after the shard of the stored one has proved that a checkpoint of it
  extends the stored one; that is the new checkpoint itself unless it comes from another shard.\<close>

theorem stored_chain_v2:
  fixes s :: "('n, 'o) loop_state"
  assumes "reachable (RekorV2MonitorLogic L cd lib srt ord ordM now_text tr flags shards orig mvs) pl s0 (p, s)"
    and "ls_Searched s0 = []" and "texts_kept_v2 L cd" and "reads_origin L origin_of" and "keyed origin_of shards"
    and "writable (ls_World s0) (mf_LogInfoFile flags)"
    and "OutputIdentitiesFile (ls_Config s0) \<noteq> mf_LogInfoFile flags"
    and "IdentityMetadataFile (ls_Config s0) \<noteq> Some (mf_LogInfoFile flags)"
  shows "(grows_v2 L)\<^sup>*\<^sup>* (stored (ReadLatestCheckpointRekorV2 cd) (mf_LogInfoFile flags) (ls_World s0))
     (stored (ReadLatestCheckpointRekorV2 cd) (mf_LogInfoFile flags) (ls_World s))"
  using v2_chain.reachable_steps [OF assms(1,2) _ assms(6,7,8), of origin_of] assms(3,4,5) by simp

definition demo_chain_lib :: "(unit, string, unit, unit) v2_lib" where
  "demo_chain_lib = demo_small_v2\<lparr>ReadCheckpoint := (\<lambda>c n.
     (if c = ''a'' then Ok \<lparr>cp_Origin = ''a'', cp_Size = 257, cp_Hash = ''h''\<rparr> else Fail (Err ''unknown''), n))\<rparr>"

definition demo_chain_v2 :: "(unit, Checkpoint, Checkpoint, unit) MonitorLogic" where
  "demo_chain_v2 = RekorV2MonitorLogic demo_chain_lib demo_chain_codec demo_certlib demo_sort rev rev (\<lambda>_. ''now'')
     (\<lambda>n. (Ok [], n)) (demo_flags False) [(''a'', demo_shard ''a'')] ''a'' no_values"

lemma demo_chain_pass_v2:
  "\<exists>s. reachable demo_chain_v2 demo_quiet demo_start (Waiting, s) \<and>
     ls_World s = demo_stored (''a'' @ newline # ''257'') demo_world"
proof (rule first_write)
  let ?services = "[demo_service ''https://a'' 1]" and ?shards = "[(''a'', demo_shard ''a'')]"
  let ?c = "\<lparr>cp_Origin = ''a'', cp_Size = 257, cp_Hash = ''h''\<rparr>"
  have "filterV2Shards demo_sort 1000 ?services = ?services"
    by (simp add: filterV2Shards_def demo_sort_def demo_service_def)
  then have "ShardsNeedUpdating demo_chain_lib demo_sort 1000 ?shards ?services = Ok False"
    by (simp add: ShardsNeedUpdating_def demo_chain_lib_def demo_small_v2_def demo_v2_calls demo_service_def getOrigin_def
        demo_shard_def eval_nat_numeral)
  moreover have "RefreshSigningConfig demo_chain_lib demo_world = (Ok ?services, demo_world)"
    by (simp add: RefreshSigningConfig_def io_bind_def io_wrap_apply net_call_def demo_chain_lib_def demo_small_v2_def
        demo_v2_lib_def)
  moreover have "\<not> has_log_info ''log'' demo_world"
    by (simp add: has_log_info_def os_Stat_def demo_world_def)
  then have "RunConsistencyCheck_v2 demo_chain_lib demo_chain_codec ?shards ''a'' ''log'' demo_world = (Ok (None, ?c), demo_world)"
    by (simp add: RunConsistencyCheck_v2_def client_of_def io_bind_def io_res_def io_wrap_apply io_read_def
        io_return_def net_call_def demo_chain_lib_def demo_shard_def)
  ultimately have "RunConsistencyCheck_logic_v2 demo_chain_lib demo_chain_codec demo_sort rev (\<lambda>n. (Ok [], n))
      (demo_flags False) ?shards ''a'' demo_world = (Ok (None, Some ?c), demo_world)"
    by (simp add: RunConsistencyCheck_logic_v2_def io_bind_def io_read_def io_return_def demo_flags_def
        demo_chain_lib_def demo_small_v2_def demo_v2_calls)
  then show "ml_RunConsistencyCheck demo_chain_v2 (ls_World demo_start) = (Ok (None, Some ?c), demo_world)"
    by (simp add: demo_chain_v2_def RekorV2MonitorLogic_def demo_start_def)
  have "writable demo_world ''log''" by (simp add: writable_def demo_world_def)
  from os_WriteFile_ok [OF this]
  show "ml_WriteCheckpoint demo_chain_v2 None (Some ?c) demo_world = (Ok (), demo_stored (''a'' @ newline # ''257'') demo_world)"
    by (simp add: demo_chain_v2_def RekorV2MonitorLogic_def WriteCheckpoint_v2_def io_wrap_apply
        demo_flags_def WriteCheckpointRekorV2_def writeCheckpointBytes_def demo_chain_codec_def demo_codec_def itoa_def
        show_nat.simps) (simp add: demo_world_def demo_stored_def)
qed (simp_all add: demo_chain_v2_def RekorV2MonitorLogic_def no_values demo_flags_def demo_start_def demo_config_def)

theorem stored_chain_v2_witness:
  "\<exists>s. (grows_v2 demo_chain_lib)\<^sup>*\<^sup>* None
     (stored (ReadLatestCheckpointRekorV2 demo_chain_codec) ''log'' (ls_World (s :: (unit, unit) loop_state))) \<and>
     stored (ReadLatestCheckpointRekorV2 demo_chain_codec) ''log'' (ls_World s) =
       Some (Ok \<lparr>cp_Origin = ''a'', cp_Size = 257, cp_Hash = ''h''\<rparr>)"
proof -
  obtain s where s: "reachable demo_chain_v2 demo_quiet demo_start (Waiting, s)"
    "ls_World s = demo_stored (''a'' @ newline # ''257'') demo_world"
    using demo_chain_pass_v2 by blast
  have reads: "reads_origin demo_chain_lib id" "keyed id [(''a'', demo_shard ''a'')]"
    by (auto simp: reads_origin_def keyed_def demo_chain_lib_def demo_shard_def split: if_splits)
  have "cp_Marshal demo_chain_codec \<lparr>cp_Origin = ''a'', cp_Size = 257, cp_Hash = ''h''\<rparr> = ''a'' @ newline # ''257''"
    by (simp add: demo_chain_codec_def demo_codec_def itoa_def show_nat.simps)
  then have texts: "texts_kept_v2 demo_chain_lib demo_chain_codec"
    using demo_line(4) by (auto simp: texts_kept_v2_def texts_kept_def demo_chain_lib_def split: if_splits)
      (simp add: demo_chain_codec_def)
  have "(grows_v2 demo_chain_lib)\<^sup>*\<^sup>* None
      (stored (ReadLatestCheckpointRekorV2 demo_chain_codec) ''log'' (ls_World s))"
    using stored_chain_v2 [OF s(1) [unfolded demo_chain_v2_def] demo_start_files(1) texts reads demo_start_files(2-4)]
    by (simp add: demo_flags_def demo_start_files(5))
  moreover have "stored (ReadLatestCheckpointRekorV2 demo_chain_codec) ''log'' (ls_World s) =
      Some (Ok \<lparr>cp_Origin = ''a'', cp_Size = 257, cp_Hash = ''h''\<rparr>)"
    using demo_stored_reads [of demo_world "''a'' @ newline # ''257''"] demo_line(4)
    by (simp add: stored_def s(2) ReadLatestCheckpointRekorV2_def) (simp add: demo_world_def demo_chain_codec_def)
  ultimately show ?thesis by blast
qed

text \<open>C9. And so does the monitor of a certificate transparency log, from the second tree head on: of the
  first one it stores nothing has been established.\<close>

theorem stored_chain_ct:
  fixes s :: "(('n, 'v) ct_net, 'o) loop_state"
  assumes "reachable (CTMonitorLogic L cd lib ord ordM now_text now logs flags mvs) pl s0 (p, s)"
    and "ls_Searched s0 = []" and "texts_kept_ct cd" and "writable (ls_World s0) (mf_LogInfoFile flags)"
    and "OutputIdentitiesFile (ls_Config s0) \<noteq> mf_LogInfoFile flags"
    and "IdentityMetadataFile (ls_Config s0) \<noteq> Some (mf_LogInfoFile flags)"
  shows "(grows_ct L)\<^sup>*\<^sup>* (stored (ReadLatestCTSignedTreeHead cd) (mf_LogInfoFile flags) (ls_World s0))
     (stored (ReadLatestCTSignedTreeHead cd) (mf_LogInfoFile flags) (ls_World s))"
  by (rule ct_chain.reachable_steps [OF assms(1,2,3,4,5,6)])

definition demo_chain_ct :: "((unit, string) ct_net, SignedTreeHead, SignedTreeHead, unit) MonitorLogic" where
  "demo_chain_ct = CTMonitorLogic demo_small_ct demo_chain_codec demo_certlib rev rev (\<lambda>_. ''now'') (\<lambda>_. 0) []
     (demo_flags False) no_values"

lemma demo_ct_start_files:
  "ls_Searched demo_ct_start = []" "writable (ls_World demo_ct_start) (mf_LogInfoFile (demo_flags False))"
  "OutputIdentitiesFile (ls_Config demo_ct_start) \<noteq> mf_LogInfoFile (demo_flags False)"
  "IdentityMetadataFile (ls_Config demo_ct_start) \<noteq> Some (mf_LogInfoFile (demo_flags False))"
  "stored rd ''log'' (ls_World demo_ct_start) = None" "ls_World demo_ct_start = demo_ct_world (Some ''k'')"
  by (simp_all add: demo_ct_start_def demo_start_def demo_config_def demo_flags_def writable_def demo_ct_world_def
      stored_def has_log_info_def os_Stat_def)

lemma demo_chain_pass_ct:
  "\<exists>s. reachable demo_chain_ct demo_ct_quiet demo_ct_start (Waiting, s) \<and>
     ls_World s = demo_stored ''9'' (demo_ct_world (Some ''k''))"
proof (rule first_write)
  let ?w = "demo_ct_world (Some ''k'') :: (unit, string) ct_net world"
  have sth: "GetSTH demo_small_ct = GetSTH demo_ct_lib" by (simp add: demo_small_ct_def)
  have "RunConsistencyCheck_ct demo_small_ct demo_chain_codec rev [] ''log'' ?w = (Ok (None, demo_sth 9\<lparr>sth_LogID := ''k''\<rparr>), ?w)"
    by (simp add: RunConsistencyCheck_ct_def io_bind_def io_wrap_apply io_read_def io_return_def io_res_def
        sth demo_ct_calls ensure_verifier_def field_of_def)
      (simp add: demo_small_ct_def demo_ct_lib_def ctLogIDFromPublicKey_def io_bind_def io_res_def io_return_def)
  then show "ml_RunConsistencyCheck demo_chain_ct (ls_World demo_ct_start) =
      (Ok (None, Some (demo_sth 9\<lparr>sth_LogID := ''k''\<rparr>)), ?w)"
    by (simp add: demo_chain_ct_def CTMonitorLogic_def RunConsistencyCheck_logic_ct_def io_bind_def io_return_def
        demo_flags_def demo_ct_start_files)
  have "writable ?w ''log''" by (simp add: writable_def demo_ct_world_def)
  from os_WriteFile_ok [OF this]
  show "ml_WriteCheckpoint demo_chain_ct None (Some (demo_sth 9\<lparr>sth_LogID := ''k''\<rparr>)) ?w = (Ok (), demo_stored ''9'' ?w)"
    by (simp add: demo_chain_ct_def CTMonitorLogic_def WriteCheckpoint_ct_def io_wrap_apply io_bind_def io_res_def
        demo_flags_def WriteCTSignedTreeHead_def demo_chain_codec_def demo_codec_def)
      (simp add: demo_ct_world_def demo_stored_def demo_sth_def)
qed (simp_all add: demo_chain_ct_def CTMonitorLogic_def no_values demo_flags_def demo_ct_start_def demo_start_def
    demo_config_def)

theorem stored_chain_ct_witness:
  "\<exists>s. (grows_ct demo_small_ct)\<^sup>*\<^sup>* None
     (stored (ReadLatestCTSignedTreeHead demo_chain_codec) ''log'' (ls_World (s :: ((unit, string) ct_net, unit) loop_state))) \<and>
     ls_World s = demo_stored ''9'' (demo_ct_world (Some ''k''))"
proof -
  obtain s where s: "reachable demo_chain_ct demo_ct_quiet demo_ct_start (Waiting, s)"
    "ls_World s = demo_stored ''9'' (demo_ct_world (Some ''k''))"
    using demo_chain_pass_ct by blast
  have "(grows_ct demo_small_ct)\<^sup>*\<^sup>* None
      (stored (ReadLatestCTSignedTreeHead demo_chain_codec) ''log'' (ls_World s))"
    using stored_chain_ct [OF s(1) [unfolded demo_chain_ct_def] demo_ct_start_files(1) demo_chain_codec(5)
        demo_ct_start_files(2-4)]
    by (simp add: demo_flags_def demo_ct_start_files(5))
  with s(2) show ?thesis by blast
qed

end
