(* ===== verification/MetricsServer.thy ===== *)
theory MetricsServer
  imports Metrics GoStrings
begin

text \<open>
  \<open>StartMetricsServer\<close> of \<open>pkg/server/metrics.go\<close>, as the interleaving of its two goroutines with the
  function itself and with the end of the context. \<open>ListenAndServe\<close> always returns an error, which is
  \<open>ErrServerClosed\<close> once \<open>Shutdown\<close> has been called; what it serves is code of a library.
\<close>

definition ErrServerClosed :: go_error where
  "ErrServerClosed = Err ''http: Server closed''"

definition server_addr :: "int64 \<Rightarrow> string" where
  "server_addr port = CHR '':'' # itoa port"

text \<open>The goroutine of the server calls \<open>ListenAndServe\<close>, serves, sends to the channel, and ends.\<close>

datatype serve_pc = Calling | Serving | Sending "go_error option" | ServeDone

record server_state =
  ss_Serve :: serve_pc
  ss_inShutdown :: bool
  ss_ShutdownDone :: bool
  ss_ctxDone :: bool
  ss_errCh :: "go_error option list"
  ss_Result :: "unit res option"

text \<open>Both goroutines have been started, the channel has room for one value.\<close>

definition server_start :: "bool \<Rightarrow> server_state" where
  "server_start cancelled =
     \<lparr>ss_Serve = Calling, ss_inShutdown = False, ss_ShutdownDone = False, ss_ctxDone = cancelled, ss_errCh = [],
      ss_Result = None\<rparr>"

definition start_failure :: "go_error \<Rightarrow> go_error" where
  "start_failure err = Errorf ''failed to start Prometheus metrics server: '' err"

definition serve_outcome :: "go_error option \<Rightarrow> go_error option" where
  "serve_outcome err =
     (case err of None \<Rightarrow> None | Some e \<Rightarrow> if e \<noteq> ErrServerClosed then Some (start_failure e) else None)"

text \<open>The \<open>select\<close>, which has a default case.\<close>

definition select_errCh :: "server_state \<Rightarrow> server_state" where
  "select_errCh s =
     (case ss_errCh s of
        [] \<Rightarrow> s\<lparr>ss_Result := Some (Ok ())\<rparr>
      | r # rs \<Rightarrow> s\<lparr>ss_Result := Some (case r of None \<Rightarrow> Ok () | Some err \<Rightarrow> Fail err), ss_errCh := rs\<rparr>)"

inductive server_step :: "server_state \<Rightarrow> server_state \<Rightarrow> bool" where
  listening: "ss_Serve s = Calling \<Longrightarrow> \<not> ss_inShutdown s \<Longrightarrow> server_step s (s\<lparr>ss_Serve := Serving\<rparr>)"
| serve_fails: "ss_Serve s = Calling \<or> ss_Serve s = Serving \<Longrightarrow> \<not> ss_inShutdown s \<Longrightarrow> err \<noteq> ErrServerClosed \<Longrightarrow>
    server_step s (s\<lparr>ss_Serve := Sending (serve_outcome (Some err))\<rparr>)"
| serve_closed: "ss_Serve s = Calling \<or> ss_Serve s = Serving \<Longrightarrow> ss_inShutdown s \<Longrightarrow>
    server_step s (s\<lparr>ss_Serve := Sending (serve_outcome (Some ErrServerClosed))\<rparr>)"
| send: "ss_Serve s = Sending r \<Longrightarrow> length (ss_errCh s) < 1 \<Longrightarrow>
    server_step s (s\<lparr>ss_Serve := ServeDone, ss_errCh := ss_errCh s @ [r]\<rparr>)"
| cancel: "\<not> ss_ctxDone s \<Longrightarrow> server_step s (s\<lparr>ss_ctxDone := True\<rparr>)"
| shutdown_server: "ss_ctxDone s \<Longrightarrow> \<not> ss_ShutdownDone s \<Longrightarrow>
    server_step s (s\<lparr>ss_inShutdown := True, ss_ShutdownDone := True\<rparr>)"
| select: "ss_Result s = None \<Longrightarrow> server_step s (select_errCh s)"

inductive_cases server_stepE: "server_step s t"

section \<open>What holds while the server runs\<close>

text \<open>Nothing is sent before the goroutine sends, so the channel has room for what it sends, and an
  error comes from a server that has failed.\<close>

definition failure :: "go_error \<Rightarrow> bool" where
  "failure e \<longleftrightarrow> (\<exists>err. err \<noteq> ErrServerClosed \<and> e = start_failure err)"

definition server_inv :: "server_state \<Rightarrow> bool" where
  "server_inv s \<longleftrightarrow>
     (ss_Serve s \<noteq> ServeDone \<longrightarrow> ss_errCh s = [] \<and> (\<forall>e. ss_Result s \<noteq> Some (Fail e))) \<and>
     (\<forall>e. ss_Serve s = Sending (Some e) \<or> Some e \<in> set (ss_errCh s) \<or> ss_Result s = Some (Fail e) \<longrightarrow> failure e) \<and>
     (ss_ShutdownDone s \<longleftrightarrow> ss_inShutdown s)"

lemma server_inv_start: "server_inv (server_start cancelled)"
  by (simp add: server_inv_def server_start_def)

lemma server_inv_step: "server_step s t \<Longrightarrow> server_inv s \<Longrightarrow> server_inv t"
  by (induction rule: server_step.induct)
    (auto simp: server_inv_def serve_outcome_def failure_def select_errCh_def split: list.splits option.splits)

lemma server_inv_reachable: "server_step\<^sup>*\<^sup>* (server_start cancelled) s \<Longrightarrow> server_inv s"
  by (induction rule: rtranclp_induct) (auto intro: server_inv_start server_inv_step)

text \<open>Each step is one that can be made once.\<close>

fun steps_to_serve :: "serve_pc \<Rightarrow> nat" where
  "steps_to_serve Calling = 3"
| "steps_to_serve Serving = 2"
| "steps_to_serve (Sending r) = 1"
| "steps_to_serve ServeDone = 0"

definition steps_left :: "server_state \<Rightarrow> nat" where
  "steps_left s = steps_to_serve (ss_Serve s) + of_bool (\<not> ss_ShutdownDone s) + of_bool (\<not> ss_ctxDone s) +
     of_bool (ss_Result s = None)"

lemma steps_left_decrease: "server_step s t \<Longrightarrow> steps_left t < steps_left s"
  by (induction rule: server_step.induct) (auto simp: steps_left_def select_errCh_def split: list.splits)

lemma steps_bounded: "(server_step ^^ n) s t \<Longrightarrow> n + steps_left t \<le> steps_left s"
proof (induction n arbitrary: t)
  case (Suc n)
  then obtain u where "(server_step ^^ n) s u" and "server_step u t" by auto
  with Suc.IH [of u] steps_left_decrease [of u t] show ?case by simp
qed simp

lemma server_stuck:
  assumes "server_inv s" and "\<forall>t. \<not> server_step s t"
  shows "ss_Serve s = ServeDone \<and> ss_ShutdownDone s \<and> ss_ctxDone s \<and> ss_Result s \<noteq> None"
proof -
  have ctx: "ss_ctxDone s" using assms(2) server_step.cancel by blast
  with assms(2) have down: "ss_ShutdownDone s" using server_step.shutdown_server by blast
  with assms(1) have "ss_inShutdown s" by (simp add: server_inv_def)
  have "ss_Serve s = ServeDone"
  proof (cases "ss_Serve s")
    case (Sending r)
    with assms(1) have "length (ss_errCh s) < 1" by (simp add: server_inv_def)
    with assms(2) Sending server_step.send show ?thesis by blast
  qed (use assms(2) server_step.serve_closed \<open>ss_inShutdown s\<close> in blast)+
  with ctx down assms(2) server_step.select show ?thesis by blast
qed

section \<open>Properties\<close>

text \<open>C22. The metrics server, in every order of the steps of the function, its two goroutines and the end of
  the context: at most six steps are made; when none is left, the context has ended, the function has
  returned and both goroutines have ended, so none is left behind; an error that the function returns
  is the failure of a server that was not shut down; but the function does not wait for the server:
  it can return without an error before the server listens, and the failure to do so is then never
  seen.\<close>

theorem metrics_server_runs:
  "(\<forall>cancelled n s. (server_step ^^ n) (server_start cancelled) s \<longrightarrow> n \<le> 6 \<and>
      ((\<forall>t. \<not> server_step s t) \<longrightarrow>
         ss_ctxDone s \<and> ss_Serve s = ServeDone \<and> ss_ShutdownDone s \<and> ss_Result s \<noteq> None) \<and>
      (\<forall>e. ss_Result s = Some (Fail e) \<longrightarrow> (\<exists>err. err \<noteq> ErrServerClosed \<and> e = start_failure err))) \<and>
   (\<forall>err. err \<noteq> ErrServerClosed \<longrightarrow> (\<exists>n s. (server_step ^^ n) (server_start False) s \<and> ss_Result s = Some (Ok ()) \<and>
      ss_Serve s = ServeDone \<and> ss_errCh s = [Some (start_failure err)] \<and> \<not> ss_ctxDone s))"
proof (intro conjI allI impI)
  fix cancelled n s
  assume run: "(server_step ^^ n) (server_start cancelled) s"
  have "steps_left (server_start cancelled) \<le> 6" by (simp add: steps_left_def server_start_def)
  with steps_bounded [OF run] show "n \<le> 6" by simp
  have inv: "server_inv s" using run by (intro server_inv_reachable) (rule relpowp_imp_rtranclp)
  show "\<exists>err. err \<noteq> ErrServerClosed \<and> e = start_failure err" if "ss_Result s = Some (Fail e)" for e
    using inv that by (auto simp: server_inv_def failure_def)
  assume "\<forall>t. \<not> server_step s t"
  from server_stuck [OF inv this]
  show "ss_ctxDone s" "ss_Serve s = ServeDone" "ss_ShutdownDone s" "ss_Result s \<noteq> None" by simp_all
next
  fix err
  assume err: "err \<noteq> ErrServerClosed"
  let ?s0 = "server_start False"
  let ?s1 = "select_errCh ?s0"
  let ?s2 = "?s1\<lparr>ss_Serve := Sending (serve_outcome (Some err))\<rparr>"
  let ?s3 = "?s2\<lparr>ss_Serve := ServeDone, ss_errCh := ss_errCh ?s2 @ [serve_outcome (Some err)]\<rparr>"
  have "server_step ?s0 ?s1" by (intro server_step.select) (simp add: server_start_def)
  moreover have "server_step ?s1 ?s2"
    using err by (intro server_step.serve_fails) (simp_all add: server_start_def select_errCh_def)
  moreover have "server_step ?s2 ?s3"
    by (intro server_step.send) (simp_all add: server_start_def select_errCh_def)
  ultimately have "(server_step ^^ 3) ?s0 ?s3" by (auto simp: numeral_3_eq_3 OO_def)
  then show "\<exists>n s. (server_step ^^ n) ?s0 s \<and> ss_Result s = Some (Ok ()) \<and>
      ss_Serve s = ServeDone \<and> ss_errCh s = [Some (start_failure err)] \<and> \<not> ss_ctxDone s"
    using err by (intro exI [of _ 3] exI [of _ ?s3]) (simp add: server_start_def select_errCh_def serve_outcome_def)
qed

theorem metrics_server_runs_witness:
  "\<exists>n s. (server_step ^^ n) (server_start False) s \<and> n \<le> 6 \<and> ss_Result s = Some (Ok ()) \<and>
     ss_errCh s = [Some (start_failure (Err ''listen tcp :9464: bind: address already in use''))]"
proof -
  have "Err ''listen tcp :9464: bind: address already in use'' \<noteq> ErrServerClosed"
    by (simp add: ErrServerClosed_def)
  with metrics_server_runs show ?thesis by blast
qed

end
