(* ===== verification/Mock.thy ===== *)
theory Mock
  imports RekorV1
begin

text \<open>
  \<open>pkg/rekor/mock\<close>: the clients that stand for a Rekor v1 log and its trusted root in the tests of the
  repository. The model shows that they are clients of the kind the theorems on \<open>pkg/rekor/v1\<close> ask for,
  so what is proved of the monitor is also what its tests run.
\<close>

section \<open>Entries\<close>

text \<open>A nil slice of entries is \<open>None\<close>; its elements are pointers.\<close>

record EntriesClient =
  mec_Entries :: "models_LogEntry ptr list option"
  mec_LogEntry :: models_LogEntry
  mec_Error :: "go_error option"

definition or_error :: "go_error option \<Rightarrow> 'a res \<Rightarrow> 'a res" where
  "or_error err r = (case err of Some e \<Rightarrow> Fail e | None \<Rightarrow> r)"

definition CreateLogEntry :: "EntriesClient \<Rightarrow> models_LogEntry res" where
  "CreateLogEntry m = or_error (mec_Error m) (Ok (mec_LogEntry m))"

definition not_implemented :: go_error where
  "not_implemented = Err ''not implemented''"

definition GetLogEntryByIndex :: "EntriesClient \<Rightarrow> models_LogEntry res" where
  "GetLogEntryByIndex m = Fail not_implemented"

definition GetLogEntryByUUID :: "EntriesClient \<Rightarrow> models_LogEntry res" where
  "GetLogEntryByUUID m = Fail not_implemented"

text \<open>Indexing a slice.\<close>

definition slice_at :: "'a list \<Rightarrow> int64 \<Rightarrow> 'a res" where
  "slice_at xs i =
     (if i < 0 then Panic (''runtime error: index out of range ['' @ itoa i @ '']'')
      else if int (length xs) \<le> i
        then Panic (''runtime error: index out of range ['' @ itoa i @ ''] with length '' @ itoa (int (length xs)))
      else Ok (xs ! nat i))"

text \<open>The loop \<open>resp = append(resp, *m.Entries[*i])\<close>.\<close>

fun add_entries ::
  "models_LogEntry ptr list \<Rightarrow> int64 ptr list \<Rightarrow> models_LogEntry list \<Rightarrow> models_LogEntry list res"
where
  "add_entries entries [] resp = Ok resp"
| "add_entries entries (i # logIndexes) resp =
     rbind (deref i) (\<lambda>k. rbind (slice_at entries k) (\<lambda>p. rbind (deref p) (\<lambda>e.
       add_entries entries logIndexes (resp @ [e]))))"

definition SearchLogQuery :: "EntriesClient \<Rightarrow> int64 ptr list \<Rightarrow> models_LogEntry list res" where
  "SearchLogQuery m logIndexes =
     or_error (mec_Error m)
       (case mec_Entries m of None \<Rightarrow> Ok [] | Some entries \<Rightarrow> add_entries entries logIndexes [])"

section \<open>The log, its key and the trusted root\<close>

record 'q TlogClient =
  mtc_LogInfo :: "LogInfo ptr"
  mtc_ConsistencyProof :: "'q ptr"
  mtc_Error :: "go_error option"

definition GetLogInfo_mock :: "'q TlogClient \<Rightarrow> LogInfo ptr res" where
  "GetLogInfo_mock m = or_error (mtc_Error m) (Ok (mtc_LogInfo m))"

definition GetLogProof :: "'q TlogClient \<Rightarrow> 'q ptr res" where
  "GetLogProof m = or_error (mtc_Error m) (Ok (mtc_ConsistencyProof m))"

record PubkeyClient =
  PEMPubKey :: string

definition GetPublicKey :: "PubkeyClient \<Rightarrow> string res" where
  "GetPublicKey m = Ok (PEMPubKey m)"

record 'l TrustedRoot =
  tr_ctLogs :: "(string \<times> 'l ptr) list"
  tr_rekorLogs :: "(string \<times> 'l ptr) list"

definition NewTrustedRoot :: "(string \<times> 'l ptr) list \<Rightarrow> (string \<times> 'l ptr) list \<Rightarrow> 'l TrustedRoot" where
  "NewTrustedRoot ctLogs rekorLogs = \<lparr>tr_ctLogs = ctLogs, tr_rekorLogs = rekorLogs\<rparr>"

definition RekorLogs :: "'l TrustedRoot \<Rightarrow> (string \<times> 'l ptr) list" where
  "RekorLogs tr = tr_rekorLogs tr"

definition CTLogs :: "'l TrustedRoot \<Rightarrow> (string \<times> 'l ptr) list" where
  "CTLogs tr = tr_ctLogs tr"

definition TimestampingAuthorities :: "'l TrustedRoot \<Rightarrow> 'a list" where
  "TimestampingAuthorities tr = []"

definition FulcioCertificateAuthorities :: "'l TrustedRoot \<Rightarrow> 'a list" where
  "FulcioCertificateAuthorities tr = []"

definition PublicKeyVerifier :: "'l TrustedRoot \<Rightarrow> string \<Rightarrow> 'a res" where
  "PublicKeyVerifier tr hint = Fail (Err ''public key verifier not found'')"

section \<open>The mocks as a client\<close>

text \<open>The query holds the address of each index; how consistency is proved from the proof of the log is
  code of a library.\<close>

definition mock_client ::
  "EntriesClient \<Rightarrow> 'q TlogClient \<Rightarrow> (SignedCheckpoint \<Rightarrow> SignedCheckpoint \<Rightarrow> string \<Rightarrow> 'q ptr res \<Rightarrow> unit res) \<Rightarrow>
   'n v1_client"
where
  "mock_client ec tc prove =
     \<lparr>rpc_GetLogInfo = (\<lambda>n. (GetLogInfo_mock tc, n)),
      rpc_SearchLogQuery = (\<lambda>ixs n. (SearchLogQuery ec (map (\<lambda>i. Some (0, i)) ixs), n)),
      ProveConsistency = (\<lambda>p c t n. (prove p c t (GetLogProof tc), n))\<rparr>"

text \<open>The entries with these indices are there.\<close>

definition in_slice :: "'a ptr list \<Rightarrow> int64 \<Rightarrow> bool" where
  "in_slice es i \<longleftrightarrow> 0 \<le> i \<and> i < int (length es) \<and> es ! nat i \<noteq> None"

definition entry_in :: "'a ptr list \<Rightarrow> int64 \<Rightarrow> 'a" where
  "entry_in es i = snd (the (es ! nat i))"

lemma slice_at_in: "in_slice es i \<Longrightarrow> rbind (slice_at es i) deref = Ok (entry_in es i)"
  by (auto simp: slice_at_def in_slice_def entry_in_def)

lemma slice_at_out: "\<not> in_slice es i \<Longrightarrow> \<exists>p. rbind (slice_at es i) deref = Panic p"
  by (cases "es ! nat i") (auto simp: slice_at_def in_slice_def)

lemma add_entries_step:
  "add_entries es (Some (a, i) # ixs) resp = rbind (rbind (slice_at es i) deref) (\<lambda>e. add_entries es ixs (resp @ [e]))"
  by (cases "slice_at es i") simp_all

lemma add_entries_in:
  "\<forall>i \<in> set ixs. in_slice es i \<Longrightarrow>
   add_entries es (map (\<lambda>i. Some (a, i)) ixs) resp = Ok (resp @ map (entry_in es) ixs)"
  by (induction ixs arbitrary: resp) (simp_all add: add_entries_step slice_at_in del: add_entries.simps(2))

lemma add_entries_out:
  "\<exists>i \<in> set ixs. \<not> in_slice es i \<Longrightarrow> \<exists>p. add_entries es (map (\<lambda>i. Some (a, i)) ixs) resp = Panic p"
proof (induction ixs arbitrary: resp)
  case (Cons i ixs)
  then show ?case
    using slice_at_out [of es i]
    by (cases "in_slice es i") (auto simp: add_entries_step slice_at_in simp del: add_entries.simps(2))
qed simp

lemma mock_serves:
  assumes "mec_Error ec = None" and "mec_Entries ec = Some es" and "\<forall>i \<in> I. in_slice es i"
  shows "serves (mock_client ec tc prove) I (entry_in es)"
  using assms
  by (auto simp: serves_def mock_client_def SearchLogQuery_def or_error_def subset_iff add_entries_in)

lemma rpc_panics: "f (net w) = (Panic p, n) \<Longrightarrow> rpc M f w = (Panic p, w\<lparr>net := n\<rparr>)"
  by (simp add: rpc_def Retry_def default_valid retry_loop.simps net_call_def)
    (simp add: DefaultRetryConfig_def Second_def)

text \<open>The batches up to the first missing index are fetched, and the one with it panics.\<close>

lemma mock_loop_panics:
  assumes "mec_Error ec = None" and "mec_Entries ec = Some es" and "\<forall>n. clk_done M n = None"
    and "int64_range (e + 10)" and "\<not> in_slice es j" and "j \<le> e"
  shows "- 9223372036854775808 \<le> i \<Longrightarrow> i \<le> j \<Longrightarrow>
    \<exists>p. entries_loop M (mock_client ec tc prove) e i acc w = Some (Panic p, w)"
proof (induction "nat (e + 1 - i)" arbitrary: i acc rule: less_induct)
  case less
  let ?ixs = "[i..min (i + 10) (e + 1) - 1]" and ?cl = "mock_client ec tc prove"
  have i: "i \<le> e" using less.prems assms(6) by simp
  have range: "int64_range (i + 10)" "int64_range (e + 1)"
    using assms(4) less.prems i by (auto simp: int64_range_def)
  have query: "rpc_SearchLogQuery ?cl ?ixs n = (add_entries es (map (\<lambda>i. Some (0, i)) ?ixs) [], n)" for n
    by (simp add: mock_client_def SearchLogQuery_def or_error_def assms(1,2))
  show ?case
  proof (cases "\<forall>k \<in> set ?ixs. in_slice es k")
    case True
    with assms(5,6) less.prems(2) have "i + 10 \<le> j" by (auto simp: min_def split: if_splits)
    with less.hyps [of "i + 10"] less.prems assms(6)
    obtain p where "entries_loop M ?cl e (i + 10) (acc @ map (entry_in es) ?ixs) w = Some (Panic p, w)" by force
    moreover have "rpc M (rpc_SearchLogQuery ?cl ?ixs) w = (Ok (map (entry_in es) ?ixs), w)"
      using rpc_first_try [of "rpc_SearchLogQuery ?cl ?ixs" w] query [of "net w"] add_entries_in [OF True] by simp
    ultimately show ?thesis
      using i assms(3) by (subst entries_loop.simps) (simp add: Let_def computeMin_min i64_id range)
  next
    case False
    then obtain p where "rpc_SearchLogQuery ?cl ?ixs (net w) = (Panic p, net w)"
      using add_entries_out [of ?ixs es 0 "[]"] query [of "net w"] by auto
    from rpc_panics [of "rpc_SearchLogQuery ?cl ?ixs", OF this] show ?thesis
      using i assms(3) by (subst entries_loop.simps) (simp add: Let_def computeMin_min i64_id range)
  qed
qed

lemma mock_loop_nil:
  assumes "mec_Error ec = None" and "mec_Entries ec = None" and "\<forall>n. clk_done M n = None" and "int64_range (e + 10)"
  shows "- 9223372036854775808 \<le> i \<Longrightarrow> entries_loop M (mock_client ec tc prove) e i acc w = Some (Ok acc, w)"
proof (induction "nat (e + 1 - i)" arbitrary: i rule: less_induct)
  case less
  let ?cl = "mock_client ec tc prove"
  have "rpc M (rpc_SearchLogQuery ?cl ixs) w = (Ok [], w)" for ixs
    using rpc_first_try [of "rpc_SearchLogQuery ?cl ixs" w "[]" "net w" M]
    by (simp add: mock_client_def SearchLogQuery_def or_error_def assms(1,2))
  moreover have "int64_range (i + 10)" if "i \<le> e"
    using assms(4) less.prems that by (auto simp: int64_range_def)
  ultimately show ?case
    using less assms(3) by (subst entries_loop.simps) (auto simp: Let_def i64_id)
qed

section \<open>Properties\<close>

text \<open>On the mock of a log the client's loop over batches returns exactly the entries of the slice with
  the indices after \<open>start\<close> up to \<open>end\<close>, and when one of them is not in the slice, or nil, the test
  panics; a nil slice stands for a log that answers every query with nothing.\<close>

theorem mock_entries_fetched:
  assumes "mec_Error ec = None" and "\<forall>n. clk_done M n = None"
    and "- 9223372036854775809 \<le> start" and "start \<le> end" and "end + 10 < 9223372036854775808"
  shows "case mec_Entries ec of
      None \<Rightarrow> GetEntriesByIndexRange M (mock_client ec tc prove) start end w = (Ok [], w)
    | Some es \<Rightarrow>
        if \<forall>i \<in> {start<..end}. in_slice es i
        then GetEntriesByIndexRange M (mock_client ec tc prove) start end w = (Ok (map (entry_in es) [start + 1..end]), w)
        else \<exists>p. GetEntriesByIndexRange M (mock_client ec tc prove) start end w = (Panic p, w)"
proof -
  have i: "i64 (start + 1) = start + 1" "int64_range (end + 10)" "- 9223372036854775808 \<le> start + 1"
    using assms(3-5) by (auto simp: int64_range_def i64_id)
  show ?thesis
  proof (cases "mec_Entries ec")
    case None
    with mock_loop_nil [OF assms(1) None assms(2) i(2,3), of tc prove "[]" w] assms(4) i(1) show ?thesis
      by (simp add: GetEntriesByIndexRange_def or_forever_def)
  next
    case (Some es)
    show ?thesis
    proof (cases "\<forall>i \<in> {start<..end}. in_slice es i")
      case True
      from GetEntriesByIndexRange_serves [OF mock_serves [OF assms(1) Some this] assms(2-5)] True Some
      show ?thesis by simp
    next
      case False
      then obtain j where j: "\<not> in_slice es j" "start + 1 \<le> j" "j \<le> end" by auto
      from mock_loop_panics [OF assms(1) Some assms(2) i(2) j(1,3) i(3) j(2), of tc prove "[]" w] False Some assms(4) i(1)
      show ?thesis by (auto simp: GetEntriesByIndexRange_def or_forever_def)
    qed
  qed
qed

definition demo_slice :: EntriesClient where
  "demo_slice = \<lparr>mec_Entries = Some [None, Some (1, demo_v1_entry 1), Some (2, demo_v1_entry 2)], mec_LogEntry = [],
     mec_Error = None\<rparr>"

definition demo_tlog :: "string TlogClient" where
  "demo_tlog = \<lparr>mtc_LogInfo = None, mtc_ConsistencyProof = None, mtc_Error = None\<rparr>"

theorem mock_entries_fetched_witness:
  "GetEntriesByIndexRange demo_clock (mock_client demo_slice demo_tlog (\<lambda>_ _ _ _. Ok ())) 0 2 demo_world =
     (Ok [demo_v1_entry 1, demo_v1_entry 2], demo_world) \<and>
   (\<exists>p. GetEntriesByIndexRange demo_clock (mock_client demo_slice demo_tlog (\<lambda>_ _ _ _. Ok ())) 0 3 demo_world =
     (Panic p, demo_world))"
proof
  have es: "mec_Entries demo_slice = Some [None, Some (1, demo_v1_entry 1), Some (2, demo_v1_entry 2)]"
    by (simp add: demo_slice_def)
  have slice: "mec_Error demo_slice = None" "\<forall>n. clk_done demo_clock n = None"
    and all: "\<forall>i \<in> {0<..2}. in_slice [None, Some (1, demo_v1_entry 1), Some (2, demo_v1_entry 2)] i"
    by (auto simp: demo_slice_def demo_clock_def in_slice_def nth_Cons' nat_eq_iff)
  have "[1..2] = [1, 2 :: int]" by code_simp
  with mock_entries_fetched [OF slice, of 0 2 demo_tlog "\<lambda>_ _ _ _. Ok ()" demo_world] all
  show "GetEntriesByIndexRange demo_clock (mock_client demo_slice demo_tlog (\<lambda>_ _ _ _. Ok ())) 0 2 demo_world =
      (Ok [demo_v1_entry 1, demo_v1_entry 2], demo_world)"
    by (simp add: es entry_in_def)
  have "\<not> in_slice [None, Some (1, demo_v1_entry 1), Some (2, demo_v1_entry 2)] 3" by (simp add: in_slice_def)
  then have "\<not> (\<forall>i \<in> {0<..3}. in_slice [None, Some (1, demo_v1_entry 1), Some (2, demo_v1_entry 2)] i)" by force
  with mock_entries_fetched [OF slice, of 0 3 demo_tlog "\<lambda>_ _ _ _. Ok ()" demo_world]
  show "\<exists>p. GetEntriesByIndexRange demo_clock (mock_client demo_slice demo_tlog (\<lambda>_ _ _ _. Ok ())) 0 3 demo_world =
      (Panic p, demo_world)"
    by (simp only: es option.case if_False)
qed

end
